theory Spec2Isabelle
  imports Complex_Main "HOL-Library.Log_Nat"
begin

section \<open>Payloads and JavaScript truthiness\<close>

text \<open>
  A cache payload is an arbitrary JSON-compatible value (\<^verbatim>\<open>any\<close> in the source; the
  column is a JSON column).  Numbers are rationals, which cover every finite number JSON
  can write; the only thing the cache code ever asks of a payload is whether it is
  truthy, and a number is falsy exactly when it is zero.  \<^verbatim>\<open>null\<close> is \<open>JNull\<close>;
  \<^verbatim>\<open>getCachedData\<close> also answers \<^verbatim>\<open>null\<close> when it has nothing to return, as in the
  source.
\<close>

datatype json =
    JNull
  | JBool bool
  | JNum rat
  | JStr string
  | JArr "json list"
  | JObj "(string \<times> json) list"

text \<open>\<^verbatim>\<open>if (x)\<close>, \<^verbatim>\<open>x && y\<close>, \<^verbatim>\<open>x || y\<close> on a JSON value.\<close>

fun truthy :: "json \<Rightarrow> bool" where
  "truthy JNull = False"
| "truthy (JBool b) = b"
| "truthy (JNum n) = (n \<noteq> 0)"
| "truthy (JStr s) = (s \<noteq> [])"
| "truthy (JArr xs) = True"
| "truthy (JObj kvs) = True"

section \<open>JavaScript numbers and dates\<close>

text \<open>
  A JavaScript number: a finite double, \<^verbatim>\<open>NaN\<close> or an infinity.  A finite double is kept
  as the rational it denotes (the sign of zero is dropped; nothing below depends on it).
\<close>

datatype jsnum = Finite rat | NaN | PosInfinity | NegInfinity

text \<open>\<^verbatim>\<open>x || y\<close> on a number: \<open>0\<close> and \<^verbatim>\<open>NaN\<close> are falsy.\<close>

fun num_truthy :: "jsnum \<Rightarrow> bool" where
  "num_truthy (Finite x) = (x \<noteq> 0)"
| "num_truthy NaN = False"
| "num_truthy PosInfinity = True"
| "num_truthy NegInfinity = True"

text \<open>
  Arithmetic on doubles rounds: the result of an operation on two finite doubles is the
  exact result rounded to the nearest double, ties to the even mantissa (IEEE 754,
  binary64: 53 bits of mantissa, least normal exponent -1022, overflow to infinity from
  \<open>2 ^ 1024\<close>).  \<open>ilog2 a\<close> is the exponent of the binade of a positive \<open>a\<close>, that is
  the integer \<open>e\<close> with \<open>2 ^ e \<le> a < 2 ^ (e + 1)\<close>.
\<close>

definition ilog2 :: "rat \<Rightarrow> int" where
  "ilog2 a = (if 1 \<le> a then bitlen \<lfloor>a\<rfloor> - 1 else - bitlen (\<lceil>1 / a\<rceil> - 1))"

definition round_half_even :: "rat \<Rightarrow> int" where
  "round_half_even m =
     (let f = \<lfloor>m\<rfloor>; d = m - of_int f
      in if d < 1 / 2 then f else if 1 / 2 < d then f + 1 else if even f then f else f + 1)"

definition to_double :: "rat \<Rightarrow> jsnum" where
  "to_double x =
     (if x = 0 then Finite 0
      else let a = \<bar>x\<bar>;
               e = max (ilog2 a) (- 1022);
               u = 2 powi (e - 52);
               r = of_int (round_half_even (a / u)) * u
           in if 2 ^ 1024 \<le> r then (if 0 < x then PosInfinity else NegInfinity)
              else Finite (sgn x * r))"

text \<open>\<^verbatim>\<open>x + y\<close>\<close>

fun js_add :: "jsnum \<Rightarrow> jsnum \<Rightarrow> jsnum" where
  "js_add (Finite a) (Finite b) = to_double (a + b)"
| "js_add NaN y = NaN"
| "js_add x NaN = NaN"
| "js_add PosInfinity NegInfinity = NaN"
| "js_add NegInfinity PosInfinity = NaN"
| "js_add PosInfinity y = PosInfinity"
| "js_add x PosInfinity = PosInfinity"
| "js_add NegInfinity y = NegInfinity"
| "js_add x NegInfinity = NegInfinity"

fun js_neg :: "jsnum \<Rightarrow> jsnum" where
  "js_neg (Finite a) = Finite (- a)"
| "js_neg NaN = NaN"
| "js_neg PosInfinity = NegInfinity"
| "js_neg NegInfinity = PosInfinity"

text \<open>\<^verbatim>\<open>x - y\<close>\<close>

definition js_sub :: "jsnum \<Rightarrow> jsnum \<Rightarrow> jsnum" where
  "js_sub x y = js_add x (js_neg y)"

text \<open>\<^verbatim>\<open>x > y\<close>; every comparison with \<^verbatim>\<open>NaN\<close> is false.\<close>

fun js_gt :: "jsnum \<Rightarrow> jsnum \<Rightarrow> bool" where
  "js_gt (Finite a) (Finite b) = (b < a)"
| "js_gt NaN y = False"
| "js_gt x NaN = False"
| "js_gt PosInfinity PosInfinity = False"
| "js_gt PosInfinity y = True"
| "js_gt x PosInfinity = False"
| "js_gt NegInfinity y = False"
| "js_gt x NegInfinity = True"

text \<open>
  A \<^verbatim>\<open>Date\<close> object holds a whole number of milliseconds of at most \<open>8.64e15\<close> in
  magnitude, or it is an Invalid Date.  \<^verbatim>\<open>new Date(value)\<close> truncates a number in that
  range towards zero and makes every other number an Invalid Date.
\<close>

datatype js_date = Valid int | Invalid

fun new_Date_of :: "jsnum \<Rightarrow> js_date" where
  "new_Date_of (Finite v) =
     (if \<bar>v\<bar> \<le> 8640000000000000 then Valid (if 0 \<le> v then \<lfloor>v\<rfloor> else \<lceil>v\<rceil>)
      else Invalid)"
| "new_Date_of NaN = Invalid"
| "new_Date_of PosInfinity = Invalid"
| "new_Date_of NegInfinity = Invalid"

section \<open>The cache table, the clock, the console\<close>

text \<open>
  A row of the table \<^verbatim>\<open>dashboardCache\<close> with the four columns the service touches.
  Timestamps are milliseconds since the epoch (\<^verbatim>\<open>Date.getTime()\<close>).
\<close>

record cache_row =
  cacheKey :: string
  cacheData :: json
  lastUpdated :: int
  expiresAt :: int

text \<open>
  What a \<^verbatim>\<open>catch (error)\<close> can receive: an \<^verbatim>\<open>Error\<close> thrown by a database statement,
  an \<^verbatim>\<open>Error\<close> thrown by a data producer, the \<^verbatim>\<open>RangeError\<close> of serialising an
  Invalid Date, the \<^verbatim>\<open>SyntaxError\<close> of \<^verbatim>\<open>JSON.parse\<close>, or a thrown value that is no
  \<^verbatim>\<open>Error\<close>.  The four kinds of \<^verbatim>\<open>Error\<close> carry their message.
\<close>

datatype error =
    StorageFault string
  | ProducerFault string
  | RangeError string
  | SyntaxError string
  | NonError json

text \<open>\<^verbatim>\<open>error instanceof Error ? error.message : 'Unknown error'\<close>\<close>

fun error_message :: "error \<Rightarrow> string" where
  "error_message (StorageFault m) = m"
| "error_message (ProducerFault m) = m"
| "error_message (RangeError m) = m"
| "error_message (SyntaxError m) = m"
| "error_message (NonError v) = ''Unknown error''"

datatype console_line =
    ConsoleLog string
  | ConsoleError string error

text \<open>
  A function that returns a promise (\<^verbatim>\<open>() => Promise<T>\<close>) is opaque to the service.  All
  the service can see of a call is that the call itself throws, or that it returns a
  promise, which later resolves with a value (\<open>Inr\<close>) or rejects with an error
  (\<open>Inl\<close>).  A data producer is such a function with a payload as value.
\<close>

datatype 'a async_fn = Throws error | Promise "error + 'a"

type_synonym producer = "json async_fn"

text \<open>
  The state the service runs against.
  \<^item> \<open>rows\<close>: the table, in insertion order.
  \<^item> \<open>faults\<close>: what the next database statements will do; each statement consumes the
    head, \<open>Some m\<close> makes it throw an \<^verbatim>\<open>Error\<close> with message \<open>m\<close>, \<open>None\<close> (or an
    exhausted list) lets it run.
  \<^item> \<open>clock\<close>: what \<^verbatim>\<open>new Date()\<close> reads.
  \<^item> \<open>console\<close>: the lines printed so far.
  \<^item> \<open>invocations\<close>: how many times a producer has been called.
  \<^item> \<open>pending\<close>: the runs of \<^verbatim>\<open>refreshCacheInBackground\<close> that nobody awaits and that
    are suspended at their \<^verbatim>\<open>await fetchFreshData()\<close>, each with its key and the promise
    it waits for; they resume later, detached from the caller that started them.
\<close>

record world =
  rows :: "cache_row list"
  faults :: "string option list"
  clock :: int
  console :: "console_line list"
  invocations :: nat
  pending :: "(string \<times> (error + json)) list"

text \<open>An asynchronous operation: it either throws or returns, and changes the world.\<close>

type_synonym 'a io = "world \<Rightarrow> (error + 'a) \<times> world"

text \<open>\<^verbatim>\<open>const x = await m; f x\<close>: an exception of \<open>m\<close> skips \<open>f\<close>.\<close>

definition await :: "'a io \<Rightarrow> ('a \<Rightarrow> 'b io) \<Rightarrow> 'b io" where
  "await m f w = (case m w of (Inl e, w') \<Rightarrow> (Inl e, w') | (Inr x, w') \<Rightarrow> f x w')"

text \<open>\<^verbatim>\<open>try { m } catch (error) { h error }\<close>\<close>

definition try_catch :: "'a io \<Rightarrow> (error \<Rightarrow> 'a io) \<Rightarrow> 'a io" where
  "try_catch m h w = (case m w of (Inl e, w') \<Rightarrow> h e w' | (Inr x, w') \<Rightarrow> (Inr x, w'))"

definition return :: "'a \<Rightarrow> 'a io" where
  "return x w = (Inr x, w)"

definition throw :: "error \<Rightarrow> 'a io" where
  "throw e w = (Inl e, w)"

definition console_log :: "string \<Rightarrow> unit io" where
  "console_log s w = (Inr (), w\<lparr>console := console w @ [ConsoleLog s]\<rparr>)"

definition console_error :: "string \<Rightarrow> error \<Rightarrow> unit io" where
  "console_error s e w = (Inr (), w\<lparr>console := console w @ [ConsoleError s e]\<rparr>)"

text \<open>\<^verbatim>\<open>new Date()\<close>\<close>

definition new_Date :: "int io" where
  "new_Date w = (Inr (clock w), w)"

text \<open>
  \<^verbatim>\<open>f()\<close> for a function that returns a promise: the call is counted; it throws, or hands
  back the promise.
\<close>

definition call :: "'a async_fn \<Rightarrow> (error + 'a) io" where
  "call f w =
     (case f of Throws e \<Rightarrow> Inl e | Promise r \<Rightarrow> Inr r,
      w\<lparr>invocations := Suc (invocations w)\<rparr>)"

text \<open>\<^verbatim>\<open>await promise\<close>: the value the promise resolved with, or its rejection thrown.\<close>

definition settle :: "error + 'a \<Rightarrow> 'a io" where
  "settle r w = (r, w)"

text \<open>\<^verbatim>\<open>await f()\<close>: the function is called and the promise it returns awaited.\<close>

definition invoke :: "'a async_fn \<Rightarrow> 'a io" where
  "invoke f = await (call f) settle"

text \<open>Decimal rendering of a number inside a template literal.\<close>

fun decimal :: "nat \<Rightarrow> string" where
  "decimal n =
     (if 10 \<le> n then decimal (n div 10) @ [char_of (n mod 10 + 48)]
      else [char_of (n + 48)])"

section \<open>The storage contract\<close>

text \<open>
  Modelled from the spec: the database handle \<^verbatim>\<open>db\<close> and the table declaration
  \<^verbatim>\<open>dashboardCache\<close> are imported by the service and are not part of the sources.  The
  spec gives the contract: find-by-key, upsert-by-key, delete-by-key,
  delete-where-expired-before, delete-all, over a table with at most one row per key.
  Every statement may fail; then it throws and leaves the table as it was.
\<close>

definition db_statement :: "(cache_row list \<Rightarrow> 'a \<times> cache_row list) \<Rightarrow> 'a io" where
  "db_statement f w =
     (case faults w of
        [] \<Rightarrow> (case f (rows w) of (x, rs) \<Rightarrow> (Inr x, w\<lparr>rows := rs\<rparr>))
      | None # fs \<Rightarrow> (case f (rows w) of (x, rs) \<Rightarrow> (Inr x, w\<lparr>rows := rs, faults := fs\<rparr>))
      | Some m # fs \<Rightarrow> (Inl (StorageFault m), w\<lparr>faults := fs\<rparr>))"

text \<open>\<^verbatim>\<open>db.select().from(dashboardCache).where(eq(dashboardCache.cacheKey, k)).limit(1)\<close>\<close>

definition db_select_by_key :: "string \<Rightarrow> cache_row list io" where
  "db_select_by_key k =
     db_statement (\<lambda>rs. (take 1 (filter (\<lambda>r. cacheKey r = k) rs), rs))"

text \<open>
  \<^verbatim>\<open>db.insert(dashboardCache).values(r).onConflictDoUpdate({target: cacheKey, set: ...})\<close>:
  a row with the key of \<open>r\<close> gets the payload and the two timestamps of \<open>r\<close>; without
  one, \<open>r\<close> is inserted.
\<close>

definition upsert_row :: "cache_row \<Rightarrow> cache_row list \<Rightarrow> cache_row list" where
  "upsert_row r rs =
     (if list_ex (\<lambda>x. cacheKey x = cacheKey r) rs
      then map (\<lambda>x. if cacheKey x = cacheKey r
                     then x\<lparr>cacheData := cacheData r, lastUpdated := lastUpdated r,
                            expiresAt := expiresAt r\<rparr>
                     else x) rs
      else rs @ [r])"

definition db_upsert :: "cache_row \<Rightarrow> unit io" where
  "db_upsert r = db_statement (\<lambda>rs. ((), upsert_row r rs))"

text \<open>
  \<^verbatim>\<open>db.delete(dashboardCache).where(p)\<close>; the result carries \<^verbatim>\<open>rowCount\<close>, the number
  of rows deleted.
\<close>

definition db_delete_where :: "(cache_row \<Rightarrow> bool) \<Rightarrow> nat io" where
  "db_delete_where p =
     db_statement (\<lambda>rs. (length (filter p rs), filter (\<lambda>r. \<not> p r) rs))"

text \<open>\<^verbatim>\<open>db.delete(dashboardCache)\<close>\<close>

definition db_delete_all :: "nat io" where
  "db_delete_all = db_statement (\<lambda>rs. (length rs, []))"

section \<open>CacheService\<close>

definition DEFAULT_CACHE_DURATION :: int where
  "DEFAULT_CACHE_DURATION = 15 * 60 * 1000"

definition PRODUCTION_WARMUP_LIMIT :: nat where
  "PRODUCTION_WARMUP_LIMIT = 20"

text \<open>
  \<^verbatim>\<open>getCachedData(cacheKey)\<close>: the payload of the row, whatever its age; \<^verbatim>\<open>null\<close>
  without a row and when the query throws.
\<close>

definition getCachedData :: "string \<Rightarrow> json io" where
  "getCachedData k =
     try_catch
       (await (db_select_by_key k) (\<lambda>cached.
          case cached of
            [] \<Rightarrow> return JNull
          | cacheEntry # _ \<Rightarrow> await new_Date (\<lambda>now. return (cacheData cacheEntry))))
       (\<lambda>e. await (console_error ''Error fetching cached data:'' e) (\<lambda>_. return JNull))"

text \<open>\<^verbatim>\<open>isCacheExpired(cacheKey)\<close>\<close>

definition isCacheExpired :: "string \<Rightarrow> bool io" where
  "isCacheExpired k =
     try_catch
       (await (db_select_by_key k) (\<lambda>cached.
          case cached of
            [] \<Rightarrow> return True
          | c # _ \<Rightarrow> await new_Date (\<lambda>now. return (now > expiresAt c))))
       (\<lambda>e. await (console_error ''Error checking cache expiry:'' e) (\<lambda>_. return True))"

text \<open>
  \<^verbatim>\<open>customDuration || this.DEFAULT_CACHE_DURATION\<close>, for an optional number: the
  default stands in when the argument is omitted (\<open>None\<close>) and when it is falsy, that
  is \<open>0\<close> or \<^verbatim>\<open>NaN\<close>.
\<close>

definition duration_or_default :: "jsnum option \<Rightarrow> jsnum" where
  "duration_or_default customDuration =
     (case customDuration of
        None \<Rightarrow> Finite (of_int DEFAULT_CACHE_DURATION)
      | Some d \<Rightarrow> if num_truthy d then d else Finite (of_int DEFAULT_CACHE_DURATION))"

text \<open>\<^verbatim>\<open>new Date(now.getTime() + (customDuration || this.DEFAULT_CACHE_DURATION))\<close>\<close>

definition expiry_date :: "int \<Rightarrow> jsnum option \<Rightarrow> js_date" where
  "expiry_date now customDuration =
     new_Date_of (js_add (Finite (of_int now)) (duration_or_default customDuration))"

text \<open>
  A \<^verbatim>\<open>Date\<close> handed to a statement as the value of a timestamp column is serialised
  (\<^verbatim>\<open>toISOString\<close>) before the statement is sent; serialising an Invalid Date throws a
  \<^verbatim>\<open>RangeError\<close>, and the statement is never sent.
\<close>

definition to_timestamp :: "js_date \<Rightarrow> int io" where
  "to_timestamp d =
     (case d of Valid t \<Rightarrow> return t | Invalid \<Rightarrow> throw (RangeError ''Invalid time value''))"

text \<open>\<^verbatim>\<open>setCachedData(cacheKey, data, customDuration?)\<close>\<close>

definition setCachedData :: "string \<Rightarrow> json \<Rightarrow> jsnum option \<Rightarrow> unit io" where
  "setCachedData k d customDuration =
     try_catch
       (await new_Date (\<lambda>now.
        let expiresAt = expiry_date now customDuration in
        await (to_timestamp expiresAt) (\<lambda>expires.
        await (db_upsert \<lparr>cacheKey = k, cacheData = d, lastUpdated = now,
                          expiresAt = expires\<rparr>) (\<lambda>_.
        console_log (''Cache updated for key: '' @ k)))))
       (\<lambda>e. console_error ''Error setting cached data:'' e)"

text \<open>\<^verbatim>\<open>clearExpiredCache()\<close>; \<^verbatim>\<open>result.rowCount || 0\<close> is the count itself.\<close>

definition clearExpiredCache :: "nat io" where
  "clearExpiredCache =
     try_catch
       (await new_Date (\<lambda>now.
        await (db_delete_where (\<lambda>r. expiresAt r < now)) (\<lambda>rowCount.
        let deletedCount = (if rowCount \<noteq> 0 then rowCount else 0) in
        await (if deletedCount > 0
               then console_log (''Cleared '' @ decimal deletedCount @
                                 '' expired cache entries'')
               else return ()) (\<lambda>_.
        return deletedCount))))
       (\<lambda>e. await (console_error ''Error clearing expired cache:'' e) (\<lambda>_. return 0))"

text \<open>\<^verbatim>\<open>clearCache(cacheKey)\<close>\<close>

definition clearCache :: "string \<Rightarrow> unit io" where
  "clearCache k =
     try_catch
       (await (db_delete_where (\<lambda>r. cacheKey r = k)) (\<lambda>_.
        console_log (''Cache cleared for key: '' @ k)))
       (\<lambda>e. console_error ''Error clearing cache:'' e)"

text \<open>\<^verbatim>\<open>clearAllCache()\<close>\<close>

definition clearAllCache :: "unit io" where
  "clearAllCache =
     try_catch
       (await db_delete_all (\<lambda>_. console_log ''All cache cleared''))
       (\<lambda>e. console_error ''Error clearing all cache:'' e)"

text \<open>
  \<^verbatim>\<open>refreshCacheInBackground(cacheKey, fetchFreshData)\<close>, run from its first statement to
  its last.
\<close>

definition refreshCacheInBackground :: "string \<Rightarrow> producer \<Rightarrow> unit io" where
  "refreshCacheInBackground k fetchFreshData =
     try_catch
       (await (invoke fetchFreshData) (\<lambda>freshData.
        await (setCachedData k freshData None) (\<lambda>_.
        console_log (''Background cache refresh completed for: '' @ k))))
       (\<lambda>e. console_error (''Background cache refresh failed for '' @ k @ '':'') e)"

text \<open>
  \<^verbatim>\<open>this.refreshCacheInBackground(cacheKey, fetchFreshData)\<close> without \<^verbatim>\<open>await\<close>.  The body
  of an \<^verbatim>\<open>async\<close> function runs at once, inside the caller, up to its first \<^verbatim>\<open>await\<close>: the
  producer is called before \<^verbatim>\<open>getDataWithCache\<close> returns.  If the call throws, the
  \<^verbatim>\<open>catch\<close> of the refresh prints the failure there and then.  If it returns a promise,
  the refresh is suspended on it and the caller goes on; nobody holds the promise of the
  refresh itself.
\<close>

definition suspend_refresh :: "string \<Rightarrow> (error + json) \<Rightarrow> unit io" where
  "suspend_refresh k promise w = (Inr (), w\<lparr>pending := pending w @ [(k, promise)]\<rparr>)"

definition spawn_refresh :: "string \<Rightarrow> producer \<Rightarrow> unit io" where
  "spawn_refresh k fetchFreshData =
     try_catch
       (await (call fetchFreshData) (suspend_refresh k))
       (\<lambda>e. console_error (''Background cache refresh failed for '' @ k @ '':'') e)"

text \<open>
  The rest of \<^verbatim>\<open>refreshCacheInBackground\<close>, from the \<^verbatim>\<open>await\<close> on: it runs in a later turn
  of the event loop, when the producer's promise has settled.
\<close>

definition resume_refresh :: "string \<Rightarrow> (error + json) \<Rightarrow> unit io" where
  "resume_refresh k promise =
     try_catch
       (await (settle promise) (\<lambda>freshData.
        await (setCachedData k freshData None) (\<lambda>_.
        console_log (''Background cache refresh completed for: '' @ k))))
       (\<lambda>e. console_error (''Background cache refresh failed for '' @ k @ '':'') e)"

text \<open>The event loop resumes the oldest suspended refresh; nobody receives its result.\<close>

definition run_pending :: "world \<Rightarrow> world" where
  "run_pending w =
     (case pending w of
        [] \<Rightarrow> w
      | (k, promise) # ts \<Rightarrow> snd (resume_refresh k promise (w\<lparr>pending := ts\<rparr>)))"

record cache_result =
  data :: json
  fromCache :: bool

text \<open>\<^verbatim>\<open>getDataWithCache(cacheKey, fetchFreshData)\<close>\<close>

definition getDataWithCache :: "string \<Rightarrow> producer \<Rightarrow> cache_result io" where
  "getDataWithCache k fetchFreshData =
     await (getCachedData k) (\<lambda>cachedData.
       if truthy cachedData then
         await (isCacheExpired k) (\<lambda>isExpired.
         await (if isExpired then spawn_refresh k fetchFreshData else return ()) (\<lambda>_.
         return \<lparr>data = cachedData, fromCache = True\<rparr>))
       else
         try_catch
           (await (invoke fetchFreshData) (\<lambda>freshData.
            await (setCachedData k freshData None) (\<lambda>_.
            return \<lparr>data = freshData, fromCache = False\<rparr>)))
           (\<lambda>e. await (console_error ''Error fetching fresh data:'' e) (\<lambda>_. throw e)))"

text \<open>
  Modelled from the spec: the module \<^verbatim>\<open>storage\<close> with the data producers is imported by
  the service and is not part of the sources.  Each producer is an asynchronous operation
  that throws, resolves with a payload or rejects; a student is known to the service by its
  \<^verbatim>\<open>id\<close> only, kept here in the form the template literal \<^verbatim>\<open>`student_${student.id}`\<close>
  prints.  A producer that resolves with \<^verbatim>\<open>undefined\<close> or \<^verbatim>\<open>null\<close> resolves with
  \<open>JNull\<close>.
\<close>

record student =
  student_id :: string

record storage_api =
  getAdminDashboard :: producer
  getUniversityDashboard :: producer
  getBatchDashboard :: "string \<Rightarrow> producer"
  getAllStudents :: "student list async_fn"
  getStudentDashboard :: "string \<Rightarrow> producer"

text \<open>The \<^verbatim>\<open>for (const student of recentlyActiveStudents)\<close> loop of \<^verbatim>\<open>warmUpCache\<close>.\<close>

fun warm_students :: "storage_api \<Rightarrow> student list \<Rightarrow> unit io" where
  "warm_students storage [] = return ()"
| "warm_students storage (student # rest) =
     await
       (try_catch
          (await (invoke (getStudentDashboard storage (student_id student))) (\<lambda>studentData.
             if truthy studentData
             then setCachedData (''student_'' @ student_id student) studentData None
             else return ()))
          (\<lambda>e. console_log (''Skipping cache for student '' @ student_id student @ '': '' @
                              error_message e)))
       (\<lambda>_. warm_students storage rest)"

text \<open>
  \<^verbatim>\<open>warmUpCache()\<close>; \<open>NODE_ENV\<close> is \<^verbatim>\<open>process.env.NODE_ENV\<close>, which may be unset.
\<close>

definition studentLimit :: "string option \<Rightarrow> nat" where
  "studentLimit NODE_ENV =
     (let isProduction = (NODE_ENV = Some ''production'')
      in if isProduction then PRODUCTION_WARMUP_LIMIT else 50)"

definition warmUpCache :: "storage_api \<Rightarrow> string option \<Rightarrow> unit io" where
  "warmUpCache storage NODE_ENV =
     await (console_log ''Starting cache warm-up...'') (\<lambda>_.
     try_catch
       (await (invoke (getAdminDashboard storage)) (\<lambda>adminData.
        await (setCachedData ''admin'' adminData None) (\<lambda>_.
        await (invoke (getUniversityDashboard storage)) (\<lambda>universityData.
        await (setCachedData ''university'' universityData None) (\<lambda>_.
        await (invoke (getBatchDashboard storage ''2027'')) (\<lambda>batch2027Data.
        await (setCachedData ''batch_2027'' batch2027Data None) (\<lambda>_.
        await (invoke (getBatchDashboard storage ''2028'')) (\<lambda>batch2028Data.
        await (setCachedData ''batch_2028'' batch2028Data None) (\<lambda>_.
        await (invoke (getAllStudents storage)) (\<lambda>allStudents.
        let recentlyActiveStudents = take (studentLimit NODE_ENV) allStudents in
        await (warm_students storage recentlyActiveStudents) (\<lambda>_.
        console_log ''Cache warm-up completed successfully'')))))))))))
       (\<lambda>e. console_error ''Error during cache warm-up:'' e))"

text \<open>The callback \<^verbatim>\<open>startCacheCleanup\<close> hands to \<^verbatim>\<open>setInterval\<close>.\<close>

definition cleanup_tick :: "unit io" where
  "cleanup_tick = await clearExpiredCache (\<lambda>_. return ())"

section \<open>The client cache mirror: useCachedQuery\<close>

text \<open>
  The two built-ins the mount effect calls.  \<^verbatim>\<open>JSON.parse\<close> throws on text that is not
  JSON; \<^verbatim>\<open>parseInt\<close> never throws and answers a whole double, an infinity or \<^verbatim>\<open>NaN\<close>.
  They are parameters: every property below holds for whatever the built-ins answer.
\<close>

record builtins =
  JSON_parse :: "string \<Rightarrow> error + json"
  parseInt :: "string \<Rightarrow> jsnum"

text \<open>
  The browser store and the three pieces of React state of the hook, with the warnings
  printed by \<^verbatim>\<open>console.warn\<close>.
\<close>

record client =
  localStorage :: "string \<rightharpoonup> string"
  cachedData :: json
  cacheAge :: "jsnum option"
  isFromCache :: bool
  warnings :: "(string \<times> error) list"

text \<open>\<^verbatim>\<open>useState(null)\<close>, \<^verbatim>\<open>useState()\<close>, \<^verbatim>\<open>useState(false)\<close> on the first render.\<close>

definition first_render :: "(string \<rightharpoonup> string) \<Rightarrow> client" where
  "first_render store =
     \<lparr>localStorage = store, cachedData = JNull, cacheAge = None, isFromCache = False,
      warnings = []\<rparr>"

datatype query_key = Single string | Multi "string list"

text \<open>\<^verbatim>\<open>queryKey.join('_')\<close>\<close>

fun join_underscore :: "string list \<Rightarrow> string" where
  "join_underscore [] = []"
| "join_underscore [x] = x"
| "join_underscore (x # y # ys) = x @ ''_'' @ join_underscore (y # ys)"

text \<open>\<^verbatim>\<open>localStorageKey || (Array.isArray(queryKey) ? queryKey.join('_') : queryKey)\<close>\<close>

definition mirror_key :: "string option \<Rightarrow> query_key \<Rightarrow> string" where
  "mirror_key localStorageKey queryKey =
     (let fromQuery = (case queryKey of Single q \<Rightarrow> q | Multi qs \<Rightarrow> join_underscore qs)
      in case localStorageKey of
           None \<Rightarrow> fromQuery
         | Some l \<Rightarrow> if l \<noteq> [] then l else fromQuery)"

definition removeItem :: "string \<Rightarrow> client \<Rightarrow> client" where
  "removeItem k c = c\<lparr>localStorage := (localStorage c)(k := None)\<rparr>"

text \<open>
  The \<^verbatim>\<open>try\<close> block of the mount effect; \<open>key\<close> is the hook's \<^verbatim>\<open>cacheKey\<close>, \<open>gcTime\<close>
  its option of that name (a number), \<open>now\<close> is \<^verbatim>\<open>Date.now()\<close>.
\<close>

definition load_cached :: "builtins \<Rightarrow> string \<Rightarrow> jsnum \<Rightarrow> int \<Rightarrow> client \<Rightarrow> error + client" where
  "load_cached js key gcTime now c =
     (let cacheTimestampKey = key @ ''_timestamp'' in
      case (localStorage c key, localStorage c cacheTimestampKey) of
        (Some cached, Some timestamp) \<Rightarrow>
          if cached \<noteq> [] \<and> timestamp \<noteq> [] then
            (case JSON_parse js cached of
               Inl e \<Rightarrow> Inl e
             | Inr parsedData \<Rightarrow>
                 let cacheTimestamp = parseInt js timestamp;
                     age = js_sub (Finite (of_int now)) cacheTimestamp;
                     c1 = c\<lparr>cachedData := parsedData, cacheAge := Some age,
                            isFromCache := True\<rparr>
                 in if js_gt age gcTime
                    then Inr ((removeItem cacheTimestampKey (removeItem key c1))
                                \<lparr>cachedData := JNull, isFromCache := False\<rparr>)
                    else Inr c1)
          else Inr c
      | _ \<Rightarrow> Inr c)"

text \<open>The mount effect for the mirror key \<open>key\<close> (\<^verbatim>\<open>cacheKey\<close> in the hook): the \<^verbatim>\<open>try\<close> block and its \<^verbatim>\<open>catch\<close>.\<close>

definition mount_effect :: "builtins \<Rightarrow> string \<Rightarrow> jsnum \<Rightarrow> int \<Rightarrow> client \<Rightarrow> client" where
  "mount_effect js key gcTime now c =
     (case load_cached js key gcTime now c of
        Inr c' \<Rightarrow> c'
      | Inl e \<Rightarrow>
          removeItem (key @ ''_timestamp'')
            (removeItem key
               (c\<lparr>warnings := warnings c @ [(''Failed to load cached data:'', e)]\<rparr>)))"

text \<open>What \<^verbatim>\<open>useQuery\<close> reports, and what the hook returns from it and its own state.\<close>

record query =
  query_data :: "json option"
  query_isLoading :: bool
  query_isError :: bool
  query_error :: "error option"
  query_isSuccess :: bool

record cached_query_result =
  res_data :: "json option"
  res_isLoading :: bool
  res_isError :: bool
  res_error :: "error option"
  res_isSuccess :: bool
  res_isFromCache :: bool
  res_cacheAge :: "jsnum option"

definition useCachedQuery_result :: "client \<Rightarrow> query \<Rightarrow> cached_query_result" where
  "useCachedQuery_result c q =
     (let dataToShow = (if isFromCache c \<and> truthy (cachedData c)
                        then Some (cachedData c) else query_data q);
          isLoadingToShow = (if isFromCache c then False else query_isLoading q)
      in \<lparr>res_data = dataToShow, res_isLoading = isLoadingToShow,
          res_isError = query_isError q, res_error = query_error q,
          res_isSuccess = query_isSuccess q, res_isFromCache = isFromCache c,
          res_cacheAge = cacheAge c\<rparr>)"

section \<open>The table invariant and concrete states\<close>

text \<open>
  The column \<^verbatim>\<open>cacheKey\<close> is the conflict target of the upsert, so it is unique: the
  table never holds two rows for one key.
\<close>

definition unique_keys :: "world \<Rightarrow> bool" where
  "unique_keys w = distinct (map cacheKey (rows w))"

text \<open>
  The scenario of the spec: key \<^verbatim>\<open>admin\<close> holds \<^verbatim>\<open>{count: 5}\<close>, written at time 0
  with a life of 100 ms; the clock reads 150 ms.  A second, fresh row stands beside it.
\<close>

definition admin_world :: world where
  "admin_world =
     \<lparr>rows = [\<lparr>cacheKey = ''admin'', cacheData = JObj [(''count'', JNum 5)],
               lastUpdated = 0, expiresAt = 100\<rparr>,
              \<lparr>cacheKey = ''university'', cacheData = JArr [], lastUpdated = 100,
               expiresAt = 900100\<rparr>],
      faults = [], clock = 150, console = [], invocations = 0, pending = []\<rparr>"

text \<open>An empty table at time 1000.\<close>

definition cold_world :: world where
  "cold_world =
     \<lparr>rows = [], faults = [], clock = 1000, console = [], invocations = 0, pending = []\<rparr>"

text \<open>
  The state reached from the empty table by one cold read of \<^verbatim>\<open>admin\<close> whose producer
  resolves with the number 0: the table then holds the payload 0 for \<^verbatim>\<open>admin\<close>.
\<close>

definition zero_world :: world where
  "zero_world = snd (getDataWithCache ''admin'' (Promise (Inr (JNum 0))) cold_world)"

text \<open>
  A storage module with 25 students, numbered from 101: the dashboard of student 107
  fails, that of student 109 resolves with \<^verbatim>\<open>null\<close>, every other one resolves with the
  student's number as a string.  And one with a single student whose dashboard resolves with
  \<^verbatim>\<open>null\<close>.
\<close>

definition cohort :: "student list" where
  "cohort = map (\<lambda>i. \<lparr>student_id = i\<rparr>)
     [''101'', ''102'', ''103'', ''104'', ''105'', ''106'', ''107'', ''108'', ''109'', ''110'',
      ''111'', ''112'', ''113'', ''114'', ''115'', ''116'', ''117'', ''118'', ''119'', ''120'',
      ''121'', ''122'', ''123'', ''124'', ''125'']"

definition class_storage :: storage_api where
  "class_storage =
     \<lparr>getAdminDashboard = Promise (Inr (JObj [(''count'', JNum 5)])),
      getUniversityDashboard = Promise (Inr (JObj [])),
      getBatchDashboard = (\<lambda>batch. Promise (Inr (JStr batch))),
      getAllStudents = Promise (Inr cohort),
      getStudentDashboard =
        (\<lambda>i. if i = ''107'' then Promise (Inl (ProducerFault ''no data''))
             else if i = ''109'' then Promise (Inr JNull)
             else Promise (Inr (JStr i)))\<rparr>"

definition null_storage :: storage_api where
  "null_storage =
     \<lparr>getAdminDashboard = Promise (Inr (JObj [])),
      getUniversityDashboard = Promise (Inr (JObj [])),
      getBatchDashboard = (\<lambda>batch. Promise (Inr (JObj []))),
      getAllStudents = Promise (Inr [\<lparr>student_id = ''42''\<rparr>]),
      getStudentDashboard = (\<lambda>i. Promise (Inr JNull))\<rparr>"

text \<open>
  Stand-ins for the two built-ins, agreeing with \<^verbatim>\<open>JSON.parse\<close> and \<^verbatim>\<open>parseInt\<close> on the
  few strings the examples below store: \<^verbatim>\<open>{"count":5}\<close>, \<^verbatim>\<open>0\<close> and \<^verbatim>\<open>{"count":\<close> as
  payloads, \<^verbatim>\<open>1000\<close> and \<^verbatim>\<open>soon\<close> as timestamps.
\<close>

definition sample_builtins :: builtins where
  "sample_builtins =
     \<lparr>JSON_parse =
        (\<lambda>s. if s = ''{\"count\":5}'' then Inr (JObj [(''count'', JNum 5)])
             else if s = ''0'' then Inr (JNum 0)
             else Inl (SyntaxError ''Unexpected end of JSON input'')),
      parseInt = (\<lambda>s. if s = ''1000'' then Finite 1000 else NaN)\<rparr>"

text \<open>A browser store holding one mirror entry, written at time 1000.\<close>

definition mirror_store :: "string \<Rightarrow> string \<rightharpoonup> string" where
  "mirror_store payload =
     [''dashboard_admin'' \<mapsto> payload, ''dashboard_admin_timestamp'' \<mapsto> ''1000'']"

text \<open>The live query right after mount: still loading, no data, no error.\<close>

definition loading_query :: query where
  "loading_query =
     \<lparr>query_data = None, query_isLoading = True, query_isError = False, query_error = None,
      query_isSuccess = False\<rparr>"

section \<open>Rounding and the Date range on whole numbers\<close>

text \<open>
  Whole numbers of magnitude up to \<open>2 ^ 53\<close> are doubles, so an operation whose exact
  result is such a number does not round; beyond \<open>2 ^ 53\<close> the rounded result stays
  beyond it.  Hence a \<^verbatim>\<open>Date\<close> made from a whole number is valid exactly within the Date
  range, and then holds that number.
\<close>

lemma round_half_even_int [simp]: "round_half_even (of_int z) = z"
  by (simp add: round_half_even_def)

lemma round_half_even_ge: "of_int z \<le> m \<Longrightarrow> z \<le> round_half_even m"
proof -
  assume "of_int z \<le> m"
  then have "z \<le> \<lfloor>m\<rfloor>" by (simp add: le_floor_iff)
  moreover have "\<lfloor>m\<rfloor> \<le> round_half_even m"
    by (simp add: round_half_even_def Let_def)
  ultimately show ?thesis by simp
qed

lemma ilog2_int: "0 < m \<Longrightarrow> ilog2 (of_int m) = bitlen m - 1"
  by (simp add: ilog2_def)

lemma to_double_int_shape:
  assumes "n \<noteq> 0"
  shows "\<exists>j. 2 ^ j \<le> \<bar>n\<bar> \<and> \<bar>n\<bar> < 2 ^ Suc j \<and>
     to_double (of_int n) =
       (let u = 2 powi (int j - 52);
            r = of_int (round_half_even (of_int \<bar>n\<bar> / u)) * u
        in if 2 ^ 1024 \<le> r then (if 0 < n then PosInfinity else NegInfinity)
           else Finite (sgn (of_int n) * r))"
proof -
  let ?m = "\<bar>n\<bar>"
  have m: "0 < ?m" using assms by simp
  from bitlen_bounds [OF m] have b: "2 ^ nat (bitlen ?m - 1) \<le> ?m" "?m < 2 ^ nat (bitlen ?m)"
    by simp_all
  have pos: "0 < bitlen ?m"
    using m by (simp add: bitlen_alt_def)
  define j where "j = nat (bitlen ?m - 1)"
  have jb: "bitlen ?m - 1 = int j" "nat (bitlen ?m) = Suc j"
    using pos by (simp_all add: j_def)
  have lg: "ilog2 \<bar>of_int n\<bar> = int j"
    using ilog2_int [OF m] jb by simp
  have "to_double (of_int n) =
       (let u = 2 powi (int j - 52);
            r = of_int (round_half_even (of_int \<bar>n\<bar> / u)) * u
        in if 2 ^ 1024 \<le> r then (if 0 < n then PosInfinity else NegInfinity)
           else Finite (sgn (of_int n) * r))"
    using assms by (simp add: to_double_def lg Let_def)
  with b jb show ?thesis by auto
qed


lemma to_double_int_exact:
  assumes "\<bar>n\<bar> \<le> 2 ^ 53"
  shows "to_double (of_int n) = Finite (of_int n)"
proof (cases "n = 0")
  case True
  then show ?thesis by (simp add: to_double_def)
next
  case False
  from to_double_int_shape [OF False]
  obtain j where j: "2 ^ j \<le> \<bar>n\<bar>" "\<bar>n\<bar> < 2 ^ Suc j"
    and d: "to_double (of_int n) =
       (let u = 2 powi (int j - 52);
            r = of_int (round_half_even (of_int \<bar>n\<bar> / u)) * u
        in if 2 ^ 1024 \<le> r then (if 0 < n then PosInfinity else NegInfinity)
           else Finite (sgn (of_int n) * r))"
    by blast
  from j(1) assms have "(2::int) ^ j \<le> 2 ^ 53" by linarith
  then have j53: "j \<le> 53"
    by (rule power_le_imp_le_exp [rotated]) simp
  have r: "of_int (round_half_even (of_int \<bar>n\<bar> / (2 powi (int j - 52)))) * (2 powi (int j - 52))
      = (of_int \<bar>n\<bar> :: rat)"
  proof (cases "j \<le> 52")
    case True
    then have u: "(2::rat) powi (int j - 52) = 1 / 2 ^ (52 - j)"
      by (simp add: power_int_def nat_diff_distrib' field_simps)
    have "(of_int \<bar>n\<bar> :: rat) / (1 / 2 ^ (52 - j)) = of_int (\<bar>n\<bar> * 2 ^ (52 - j))"
      by simp
    then show ?thesis
      unfolding u by (simp only: round_half_even_int) simp
  next
    case False
    with j53 have j: "j = 53" by simp
    with \<open>2 ^ j \<le> \<bar>n\<bar>\<close> assms have n: "\<bar>n\<bar> = 2 ^ 53" by simp
    have u: "(2::rat) powi (int 53 - 52) = 2" by simp
    have h: "(of_int \<bar>n\<bar> :: rat) / 2 = of_int (2 ^ 52)"
      unfolding n by simp
    have "of_int (round_half_even (of_int \<bar>n\<bar> / 2)) * (2::rat) = of_int \<bar>n\<bar>"
      unfolding h round_half_even_int by (simp add: n)
    then show ?thesis
      unfolding j u .
  qed
  have small: "\<not> (2 ^ 1024 \<le> (of_int \<bar>n\<bar> :: rat))"
  proof -
    have "(of_int \<bar>n\<bar> :: rat) \<le> of_int (2 ^ 53)"
      using assms by (simp only: of_int_le_iff)
    also have "\<dots> < 2 ^ 1024" by simp
    finally show ?thesis by simp
  qed
  have "sgn (of_int n :: rat) * of_int \<bar>n\<bar> = of_int n"
    by (simp add: sgn_if)
  with d r small show ?thesis
    by (simp add: Let_def)
qed


lemma to_double_int_beyond:
  assumes "2 ^ 53 < \<bar>n\<bar>"
  shows "new_Date_of (to_double (of_int n)) = Invalid"
proof -
  from assms have nz: "n \<noteq> 0" by auto
  from to_double_int_shape [OF nz]
  obtain j where j: "2 ^ j \<le> \<bar>n\<bar>" "\<bar>n\<bar> < 2 ^ Suc j"
    and d: "to_double (of_int n) =
       (let u = 2 powi (int j - 52);
            r = of_int (round_half_even (of_int \<bar>n\<bar> / u)) * u
        in if 2 ^ 1024 \<le> r then (if 0 < n then PosInfinity else NegInfinity)
           else Finite (sgn (of_int n) * r))"
    by blast
  let ?u = "(2::rat) powi (int j - 52)"
  let ?r = "of_int (round_half_even (of_int \<bar>n\<bar> / ?u)) * ?u"
  from j(2) assms have "(2::int) ^ 53 < 2 ^ Suc j" by linarith
  then have "53 < Suc j"
    by (rule power_less_imp_less_exp [rotated]) simp
  then have j53: "53 \<le> j" by simp
  then have u: "?u = 2 ^ (j - 52)"
    by (simp add: power_int_def nat_diff_distrib')
  have "52 + (j - 52) = j" using j53 by simp
  then have "(2::rat) ^ 52 * 2 ^ (j - 52) = 2 ^ j"
    by (metis power_add)
  moreover have "(2::rat) ^ j \<le> of_int \<bar>n\<bar>"
    using j(1) by (metis of_int_le_iff of_int_numeral of_int_power)
  ultimately have "(of_int (2 ^ 52) :: rat) \<le> of_int \<bar>n\<bar> / ?u"
    unfolding u by (simp add: pos_le_divide_eq)
  then have "2 ^ 52 \<le> round_half_even (of_int \<bar>n\<bar> / ?u)"
    by (rule round_half_even_ge)
  then have "(2::rat) ^ 52 \<le> of_int (round_half_even (of_int \<bar>n\<bar> / ?u))"
    by (metis of_int_le_iff of_int_numeral of_int_power)
  then have "(2::rat) ^ 52 * 2 ^ (j - 52) \<le> ?r"
    unfolding u by (simp add: mult_right_mono)
  with \<open>(2::rat) ^ 52 * 2 ^ (j - 52) = 2 ^ j\<close> have "(2::rat) ^ j \<le> ?r" by simp
  moreover have "(2::rat) ^ 53 \<le> 2 ^ j"
    using j53 by (rule power_increasing) simp
  ultimately have big: "(2::rat) ^ 53 \<le> ?r" by simp
  then have far: "8640000000000000 < ?r" by simp
  have "0 \<le> ?r" using far by linarith
  then have "\<bar>?r\<bar> = ?r" by (rule abs_of_nonneg)
  moreover have "\<bar>sgn (of_int n :: rat)\<bar> = 1" using nz by (simp add: sgn_if)
  ultimately have "\<bar>sgn (of_int n :: rat) * ?r\<bar> = ?r"
    by (simp only: abs_mult mult_1)
  with far have fin: "new_Date_of (Finite (sgn (of_int n) * ?r)) = Invalid"
    by simp
  define r where "r = ?r"
  have d': "to_double (of_int n) =
      (if 2 ^ 1024 \<le> r then (if 0 < n then PosInfinity else NegInfinity)
       else Finite (sgn (of_int n) * r))"
    unfolding d r_def Let_def ..
  show ?thesis
    unfolding d' using fin [folded r_def] by (cases "2 ^ 1024 \<le> r") simp_all
qed

lemma new_Date_of_int:
  "new_Date_of (to_double (of_int n)) = (if \<bar>n\<bar> \<le> 8640000000000000 then Valid n else Invalid)"
proof (cases "\<bar>n\<bar> \<le> 2 ^ 53")
  case True
  then show ?thesis
    by (simp add: to_double_int_exact)
next
  case False
  then have "2 ^ 53 < \<bar>n\<bar>" by simp
  from to_double_int_beyond [OF this] False show ?thesis by simp
qed

lemma expiry_date_whole:
  "d \<noteq> 0 \<Longrightarrow>
   expiry_date now (Some (Finite (of_int d))) =
     (if \<bar>now + d\<bar> \<le> 8640000000000000 then Valid (now + d) else Invalid)"
  using new_Date_of_int [of "now + d"]
  by (simp add: expiry_date_def duration_or_default_def)

lemma expiry_date_default:
  "t = None \<or> t = Some (Finite 0) \<or> t = Some NaN \<Longrightarrow>
   expiry_date now t =
     (if \<bar>now + 900000\<bar> \<le> 8640000000000000 then Valid (now + 900000) else Invalid)"
  using new_Date_of_int [of "now + 900000"]
  by (auto simp: expiry_date_def duration_or_default_def DEFAULT_CACHE_DURATION_def)

lemma expiry_date_infinite:
  "expiry_date now (Some PosInfinity) = Invalid" "expiry_date now (Some NegInfinity) = Invalid"
  by (simp_all add: expiry_date_def duration_or_default_def)

section \<open>Properties of the storage statements and of the single operations\<close>

lemma db_statement_healthy:
  "faults w = [] \<Longrightarrow>
   db_statement f w = (Inr (fst (f (rows w))), w\<lparr>rows := snd (f (rows w))\<rparr>)"
  by (simp add: db_statement_def split: prod.splits)

lemma db_statement_throws:
  "faults w = Some m # fs \<Longrightarrow>
   db_statement f w = (Inl (StorageFault m), w\<lparr>faults := fs\<rparr>)"
  by (simp add: db_statement_def)

lemma db_select_healthy:
  "faults w = [] \<Longrightarrow>
   db_select_by_key k w = (Inr (take 1 (filter (\<lambda>r. cacheKey r = k) (rows w))), w)"
  by (simp add: db_select_by_key_def db_statement_healthy)

lemma take1_filter_find:
  "take (Suc 0) (filter P xs) = (case find P xs of None \<Rightarrow> [] | Some x \<Rightarrow> [x])"
  by (induction xs) auto

lemma find_unique_key:
  "distinct (map cacheKey rs) \<Longrightarrow> r \<in> set rs \<Longrightarrow>
   find (\<lambda>x. cacheKey x = cacheKey r) rs = Some r"
  by (induction rs) (auto simp: image_iff)

lemma find_absent_key:
  "\<forall>r\<in>set rs. cacheKey r \<noteq> k \<Longrightarrow> find (\<lambda>x. cacheKey x = k) rs = None"
  by (simp add: find_None_iff)

lemma getCachedData_healthy:
  "faults w = [] \<Longrightarrow>
   getCachedData k w =
     (Inr (case find (\<lambda>r. cacheKey r = k) (rows w) of
             None \<Rightarrow> JNull | Some r \<Rightarrow> cacheData r), w)"
  by (simp add: getCachedData_def try_catch_def await_def db_select_healthy take1_filter_find
      return_def new_Date_def split: option.splits)

lemma isCacheExpired_healthy:
  "faults w = [] \<Longrightarrow>
   isCacheExpired k w =
     (Inr (case find (\<lambda>r. cacheKey r = k) (rows w) of
             None \<Rightarrow> True | Some r \<Rightarrow> clock w > expiresAt r), w)"
  by (simp add: isCacheExpired_def try_catch_def await_def db_select_healthy take1_filter_find
      return_def new_Date_def split: option.splits)

lemma getCachedData_returns: "\<exists>x w'. getCachedData k w = (Inr x, w')"
  by (auto simp: getCachedData_def try_catch_def await_def db_select_by_key_def db_statement_def
      return_def new_Date_def console_error_def split: list.splits option.splits prod.splits)

lemma isCacheExpired_returns: "\<exists>x w'. isCacheExpired k w = (Inr x, w')"
  by (auto simp: isCacheExpired_def try_catch_def await_def db_select_by_key_def db_statement_def
      return_def new_Date_def console_error_def split: list.splits option.splits prod.splits)

lemma setCachedData_returns: "\<exists>w'. setCachedData k d t w = (Inr (), w')"
  by (auto simp: setCachedData_def try_catch_def await_def db_upsert_def db_statement_def
      return_def throw_def new_Date_def console_error_def console_log_def to_timestamp_def
      Let_def split: list.splits option.splits prod.splits js_date.splits)

lemma clearExpiredCache_returns: "\<exists>n w'. clearExpiredCache w = (Inr n, w')"
  by (auto simp: clearExpiredCache_def try_catch_def await_def db_delete_where_def
      db_statement_def return_def new_Date_def console_error_def console_log_def Let_def
      split: list.splits option.splits prod.splits)

lemma clearCache_returns: "\<exists>w'. clearCache k w = (Inr (), w')"
  by (auto simp: clearCache_def try_catch_def await_def db_delete_where_def db_statement_def
      return_def console_error_def console_log_def
      split: list.splits option.splits prod.splits)

lemma clearAllCache_returns: "\<exists>w'. clearAllCache w = (Inr (), w')"
  by (auto simp: clearAllCache_def try_catch_def await_def db_delete_all_def db_statement_def
      return_def console_error_def console_log_def
      split: list.splits option.splits prod.splits)

lemma getCachedData_fault:
  "faults w = Some m # fs \<Longrightarrow>
   getCachedData k w =
     (Inr JNull, w\<lparr>faults := fs,
        console := console w @ [ConsoleError ''Error fetching cached data:'' (StorageFault m)]\<rparr>)"
  by (simp add: getCachedData_def try_catch_def await_def db_select_by_key_def
      db_statement_throws return_def console_error_def)

lemma isCacheExpired_fault:
  "faults w = Some m # fs \<Longrightarrow>
   isCacheExpired k w =
     (Inr True, w\<lparr>faults := fs,
        console := console w @ [ConsoleError ''Error checking cache expiry:'' (StorageFault m)]\<rparr>)"
  by (simp add: isCacheExpired_def try_catch_def await_def db_select_by_key_def
      db_statement_throws return_def console_error_def)

lemma setCachedData_invalid:
  "expiry_date (clock w) t = Invalid \<Longrightarrow>
   setCachedData k d t w =
     (Inr (), w\<lparr>console := console w @
        [ConsoleError ''Error setting cached data:'' (RangeError ''Invalid time value'')]\<rparr>)"
  by (simp add: setCachedData_def try_catch_def await_def new_Date_def to_timestamp_def
      throw_def console_error_def)

lemma setCachedData_fault:
  "faults w = Some m # fs \<Longrightarrow> expiry_date (clock w) t = Valid e \<Longrightarrow>
   setCachedData k d t w =
     (Inr (), w\<lparr>faults := fs,
        console := console w @ [ConsoleError ''Error setting cached data:'' (StorageFault m)]\<rparr>)"
  by (simp add: setCachedData_def try_catch_def await_def db_upsert_def new_Date_def
      to_timestamp_def db_statement_throws return_def console_error_def)

lemma setCachedData_healthy:
  "faults w = [] \<Longrightarrow> expiry_date (clock w) t = Valid e \<Longrightarrow>
   setCachedData k d t w =
     (Inr (), w\<lparr>rows := upsert_row \<lparr>cacheKey = k, cacheData = d, lastUpdated = clock w,
                                     expiresAt = e\<rparr> (rows w),
               console := console w @ [ConsoleLog (''Cache updated for key: '' @ k)]\<rparr>)"
  by (simp add: setCachedData_def try_catch_def await_def db_upsert_def new_Date_def
      to_timestamp_def db_statement_healthy return_def console_log_def)

lemma clearExpiredCache_healthy:
  "faults w = [] \<Longrightarrow>
   fst (clearExpiredCache w) = Inr (length (filter (\<lambda>r. expiresAt r < clock w) (rows w))) \<and>
   rows (snd (clearExpiredCache w)) = filter (\<lambda>r. \<not> expiresAt r < clock w) (rows w)"
  by (simp add: clearExpiredCache_def try_catch_def await_def db_delete_where_def new_Date_def
      db_statement_healthy return_def console_log_def Let_def)

lemma clearCache_healthy:
  "faults w = [] \<Longrightarrow>
   clearCache k w =
     (Inr (), w\<lparr>rows := filter (\<lambda>r. cacheKey r \<noteq> k) (rows w),
               console := console w @ [ConsoleLog (''Cache cleared for key: '' @ k)]\<rparr>)"
  by (simp add: clearCache_def try_catch_def await_def db_delete_where_def
      db_statement_healthy return_def console_log_def)

section \<open>Expiry check and plain read\<close>

text \<open>
  Claim C7.  When the storage query succeeds, \<^verbatim>\<open>isCacheExpired(k)\<close> is true exactly when
  the table has no row for \<open>k\<close> or the clock is strictly after the row's \<open>expiresAt\<close>.
  In particular a key without a row is reported expired and \<^verbatim>\<open>getCachedData\<close> answers
  \<^verbatim>\<open>null\<close> for it; for a key with a row \<^verbatim>\<open>getCachedData\<close> answers the row's payload,
  fresh or not, and leaves the world exactly as it was.
\<close>

theorem isCacheExpired_exactly_absent_or_past:
  assumes "faults w = []" and "unique_keys w"
  shows "fst (isCacheExpired k w) =
           Inr ((\<forall>r\<in>set (rows w). cacheKey r \<noteq> k) \<or>
                (\<exists>r\<in>set (rows w). cacheKey r = k \<and> clock w > expiresAt r))
       \<and> ((\<forall>r\<in>set (rows w). cacheKey r \<noteq> k) \<longrightarrow>
            fst (isCacheExpired k w) = Inr True \<and> fst (getCachedData k w) = Inr JNull)
       \<and> (\<forall>r\<in>set (rows w). cacheKey r = k \<longrightarrow> fst (getCachedData k w) = Inr (cacheData r))
       \<and> snd (getCachedData k w) = w"
proof -
  have present: "find (\<lambda>x. cacheKey x = k) (rows w) = Some r"
    if "r \<in> set (rows w)" "cacheKey r = k" for r
    using find_unique_key [of "rows w" r] assms(2) that by (simp add: unique_keys_def)
  have absent: "find (\<lambda>x. cacheKey x = k) (rows w) = None"
    if "\<forall>r\<in>set (rows w). cacheKey r \<noteq> k"
    using that by (rule find_absent_key)
  have frame: "snd (getCachedData k w) = w"
    using assms(1) by (simp add: getCachedData_healthy)
  have get_present: "fst (getCachedData k w) = Inr (cacheData r)"
    if "r \<in> set (rows w)" "cacheKey r = k" for r
    using assms(1) present [OF that] by (simp add: getCachedData_healthy)
  have when_absent: "fst (isCacheExpired k w) = Inr True \<and> fst (getCachedData k w) = Inr JNull"
    if "\<forall>r\<in>set (rows w). cacheKey r \<noteq> k"
    using assms(1) absent [OF that] by (simp add: isCacheExpired_healthy getCachedData_healthy)
  have exactly: "fst (isCacheExpired k w) =
           Inr ((\<forall>r\<in>set (rows w). cacheKey r \<noteq> k) \<or>
                (\<exists>r\<in>set (rows w). cacheKey r = k \<and> clock w > expiresAt r))"
  proof (cases "\<forall>r\<in>set (rows w). cacheKey r \<noteq> k")
    case True
    with when_absent show ?thesis by simp
  next
    case False
    then obtain r where r: "r \<in> set (rows w)" "cacheKey r = k" by blast
    have "r' = r" if "r' \<in> set (rows w)" "cacheKey r' = k" for r'
      using present [OF that] present [OF r] by simp
    with r have "(\<exists>r\<in>set (rows w). cacheKey r = k \<and> clock w > expiresAt r)
        = (clock w > expiresAt r)" by blast
    moreover have "fst (isCacheExpired k w) = Inr (clock w > expiresAt r)"
      using assms(1) present [OF r] by (simp add: isCacheExpired_healthy)
    ultimately show ?thesis using False by auto
  qed
  from exactly when_absent get_present frame show ?thesis by blast
qed

text \<open>
  On the scenario state: \<^verbatim>\<open>admin\<close> expired at 100 and the clock reads 150,
  \<^verbatim>\<open>university\<close> is fresh, \<^verbatim>\<open>batch_2027\<close> has no row.
\<close>

theorem isCacheExpired_exactly_absent_or_past_witness:
  "fst (isCacheExpired ''admin'' admin_world) = Inr True
   \<and> fst (isCacheExpired ''university'' admin_world) = Inr False
   \<and> fst (isCacheExpired ''batch_2027'' admin_world) = Inr True
   \<and> fst (getCachedData ''batch_2027'' admin_world) = Inr JNull
   \<and> fst (getCachedData ''admin'' admin_world) = Inr (JObj [(''count'', JNum 5)])
   \<and> snd (getCachedData ''admin'' admin_world) = admin_world"
proof -
  have h: "faults admin_world = []" "unique_keys admin_world"
    by (simp_all add: admin_world_def unique_keys_def)
  have rs: "rows admin_world = [\<lparr>cacheKey = ''admin'', cacheData = JObj [(''count'', JNum 5)],
               lastUpdated = 0, expiresAt = 100\<rparr>,
              \<lparr>cacheKey = ''university'', cacheData = JArr [], lastUpdated = 100,
               expiresAt = 900100\<rparr>]" "clock admin_world = 150"
    by (simp_all add: admin_world_def)
  show ?thesis
    using isCacheExpired_exactly_absent_or_past [OF h, of "''admin''"]
      isCacheExpired_exactly_absent_or_past [OF h, of "''university''"]
      isCacheExpired_exactly_absent_or_past [OF h, of "''batch_2027''"]
    by (simp add: rs)
qed

section \<open>Deleting entries\<close>

text \<open>
  Claim C6.  When the delete statement succeeds, \<^verbatim>\<open>clearExpiredCache\<close> removes exactly the
  rows whose \<open>expiresAt\<close> is strictly before the clock, keeps every other row as it was
  and in place, and returns the number of rows it removed.
\<close>

theorem clearExpiredCache_deletes_exactly_past:
  assumes "faults w = []"
  shows "rows (snd (clearExpiredCache w)) = filter (\<lambda>r. \<not> expiresAt r < clock w) (rows w)
       \<and> fst (clearExpiredCache w) = Inr (length (filter (\<lambda>r. expiresAt r < clock w) (rows w)))
       \<and> (\<forall>r\<in>set (rows w).
             r \<in> set (rows (snd (clearExpiredCache w))) \<longleftrightarrow> \<not> expiresAt r < clock w)
       \<and> set (rows (snd (clearExpiredCache w))) \<subseteq> set (rows w)
       \<and> length (rows w) =
           length (rows (snd (clearExpiredCache w)))
           + length (filter (\<lambda>r. expiresAt r < clock w) (rows w))"
proof -
  have rs: "rows (snd (clearExpiredCache w)) = filter (\<lambda>r. \<not> expiresAt r < clock w) (rows w)"
    and n: "fst (clearExpiredCache w) = Inr (length (filter (\<lambda>r. expiresAt r < clock w) (rows w)))"
    using clearExpiredCache_healthy [OF assms] by simp_all
  have len: "length (rows w) =
      length (filter (\<lambda>r. \<not> expiresAt r < clock w) (rows w))
      + length (filter (\<lambda>r. expiresAt r < clock w) (rows w))"
    using sum_length_filter_compl [of "\<lambda>r. expiresAt r < clock w" "rows w"] by simp
  show ?thesis
    unfolding rs n using len by auto
qed

text \<open>On the scenario state the sweep removes \<^verbatim>\<open>admin\<close> and reports one row.\<close>

theorem clearExpiredCache_deletes_exactly_past_witness:
  "rows (snd (clearExpiredCache admin_world)) =
     [\<lparr>cacheKey = ''university'', cacheData = JArr [], lastUpdated = 100, expiresAt = 900100\<rparr>]
   \<and> fst (clearExpiredCache admin_world) = Inr 1"
proof -
  have h: "faults admin_world = []" by (simp add: admin_world_def)
  note t = clearExpiredCache_deletes_exactly_past [OF h]
  have v: "rows admin_world =
      [\<lparr>cacheKey = ''admin'', cacheData = JObj [(''count'', JNum 5)],
        lastUpdated = 0, expiresAt = 100\<rparr>,
       \<lparr>cacheKey = ''university'', cacheData = JArr [], lastUpdated = 100,
        expiresAt = 900100\<rparr>]" "clock admin_world = 150"
    by (simp_all add: admin_world_def)
  show ?thesis
    using t [THEN conjunct1] t [THEN conjunct2, THEN conjunct1] by (simp add: v)
qed

lemma filter_other_keys_remove1:
  "distinct (map cacheKey rs) \<Longrightarrow> r \<in> set rs \<Longrightarrow>
   filter (\<lambda>x. cacheKey x \<noteq> cacheKey r) rs = remove1 r rs"
proof (induction rs)
  case Nil
  then show ?case by simp
next
  case (Cons x xs)
  show ?case
  proof (cases "x = r")
    case True
    from Cons.prems(1) have "cacheKey x \<notin> cacheKey ` set xs" by simp
    then have "\<forall>y\<in>set xs. cacheKey y \<noteq> cacheKey x" by (metis imageI)
    then have "filter (\<lambda>y. cacheKey y \<noteq> cacheKey x) xs = xs"
      by (simp add: filter_id_conv)
    with True show ?thesis by simp
  next
    case False
    with Cons.prems have r: "r \<in> set xs" and d: "distinct (map cacheKey xs)" by auto
    from Cons.prems(1) have "cacheKey x \<notin> cacheKey ` set xs" by simp
    with r have "cacheKey x \<noteq> cacheKey r" by (metis imageI)
    with False Cons.IH [OF d r] show ?thesis by simp
  qed
qed

text \<open>
  Claim C8.  \<^verbatim>\<open>clearCache(k)\<close> never raises.  When the delete statement succeeds it removes
  the rows with key \<open>k\<close> and no other; with unique keys that is exactly the one entry of
  \<open>k\<close>.  On a key without an entry the table stays as it is, so a second call right
  after the first changes nothing and raises nothing.
\<close>

theorem clearCache_deletes_only_its_key:
  "fst (clearCache k w) = Inr ()
   \<and> (faults w = [] \<longrightarrow>
        rows (snd (clearCache k w)) = filter (\<lambda>r. cacheKey r \<noteq> k) (rows w)
      \<and> (\<forall>r\<in>set (rows w). cacheKey r = k \<longrightarrow> unique_keys w \<longrightarrow>
            rows (snd (clearCache k w)) = remove1 r (rows w))
      \<and> ((\<forall>r\<in>set (rows w). cacheKey r \<noteq> k) \<longrightarrow> rows (snd (clearCache k w)) = rows w)
      \<and> fst (clearCache k (snd (clearCache k w))) = Inr ()
      \<and> rows (snd (clearCache k (snd (clearCache k w)))) = rows (snd (clearCache k w)))"
proof -
  have ret: "fst (clearCache k u) = Inr ()" for u
    using clearCache_returns [of k u] by auto
  have healthy: "rows (snd (clearCache k w)) = filter (\<lambda>r. cacheKey r \<noteq> k) (rows w)
      \<and> (\<forall>r\<in>set (rows w). cacheKey r = k \<longrightarrow> unique_keys w \<longrightarrow>
            rows (snd (clearCache k w)) = remove1 r (rows w))
      \<and> ((\<forall>r\<in>set (rows w). cacheKey r \<noteq> k) \<longrightarrow> rows (snd (clearCache k w)) = rows w)
      \<and> fst (clearCache k (snd (clearCache k w))) = Inr ()
      \<and> rows (snd (clearCache k (snd (clearCache k w)))) = rows (snd (clearCache k w))"
    if h: "faults w = []"
  proof -
    have rs: "rows (snd (clearCache k w)) = filter (\<lambda>r. cacheKey r \<noteq> k) (rows w)"
      using h by (simp add: clearCache_healthy)
    have h': "faults (snd (clearCache k w)) = []"
      using h by (simp add: clearCache_healthy)
    have "rows (snd (clearCache k (snd (clearCache k w)))) =
        filter (\<lambda>r. cacheKey r \<noteq> k) (rows (snd (clearCache k w)))"
      using h' by (simp add: clearCache_healthy)
    then have twice:
      "rows (snd (clearCache k (snd (clearCache k w)))) = rows (snd (clearCache k w))"
      by (simp add: rs)
    have one: "rows (snd (clearCache k w)) = remove1 r (rows w)"
      if "r \<in> set (rows w)" "cacheKey r = k" "unique_keys w" for r
      using filter_other_keys_remove1 [of "rows w" r] that rs by (simp add: unique_keys_def)
    have none: "rows (snd (clearCache k w)) = rows w" if "\<forall>r\<in>set (rows w). cacheKey r \<noteq> k"
      using that rs by (simp add: filter_id_conv)
    show ?thesis
      using rs one none twice ret by blast
  qed
  show ?thesis
    using ret healthy by blast
qed

text \<open>Clearing \<^verbatim>\<open>admin\<close> twice, and clearing a key that was never stored.\<close>

theorem clearCache_deletes_only_its_key_witness:
  "fst (clearCache ''admin'' admin_world) = Inr ()
   \<and> rows (snd (clearCache ''admin'' admin_world)) =
       [\<lparr>cacheKey = ''university'', cacheData = JArr [], lastUpdated = 100, expiresAt = 900100\<rparr>]
   \<and> rows (snd (clearCache ''admin'' (snd (clearCache ''admin'' admin_world)))) =
       [\<lparr>cacheKey = ''university'', cacheData = JArr [], lastUpdated = 100, expiresAt = 900100\<rparr>]
   \<and> fst (clearCache ''admin'' (snd (clearCache ''admin'' admin_world))) = Inr ()
   \<and> rows (snd (clearCache ''batch_2027'' admin_world)) = rows admin_world"
proof -
  have h: "faults admin_world = []" by (simp add: admin_world_def)
  have v: "rows admin_world =
      [\<lparr>cacheKey = ''admin'', cacheData = JObj [(''count'', JNum 5)],
        lastUpdated = 0, expiresAt = 100\<rparr>,
       \<lparr>cacheKey = ''university'', cacheData = JArr [], lastUpdated = 100,
        expiresAt = 900100\<rparr>]"
    by (simp add: admin_world_def)
  note a = clearCache_deletes_only_its_key [of "''admin''" admin_world]
  note b = clearCache_deletes_only_its_key [of "''batch_2027''" admin_world]
  have a1: "fst (clearCache ''admin'' admin_world) = Inr ()"
    by (rule a [THEN conjunct1])
  have a2: "rows (snd (clearCache ''admin'' admin_world)) =
      filter (\<lambda>r. cacheKey r \<noteq> ''admin'') (rows admin_world)"
    using a h by blast
  have a3: "fst (clearCache ''admin'' (snd (clearCache ''admin'' admin_world))) = Inr ()"
    using a h by blast
  have a4: "rows (snd (clearCache ''admin'' (snd (clearCache ''admin'' admin_world)))) =
      rows (snd (clearCache ''admin'' admin_world))"
    using a h by blast
  have b2: "rows (snd (clearCache ''batch_2027'' admin_world)) =
      filter (\<lambda>r. cacheKey r \<noteq> ''batch_2027'') (rows admin_world)"
    using b h by blast
  show ?thesis
    unfolding a1 a3 a4 a2 b2 by (simp add: v)
qed

text \<open>
  Claim C10.  At one and the same clock reading, and with working storage, the sweep of
  \<^verbatim>\<open>clearExpiredCache\<close> deletes a stored entry if and only if \<^verbatim>\<open>isCacheExpired\<close>
  answers true for its key.  Both comparisons are strict: an entry whose \<open>expiresAt\<close>
  equals the clock is neither reported expired nor deleted.
\<close>

theorem sweep_agrees_with_isCacheExpired:
  assumes "faults w = []" and "unique_keys w" and "r \<in> set (rows w)"
  shows "(r \<notin> set (rows (snd (clearExpiredCache w)))
           \<longleftrightarrow> fst (isCacheExpired (cacheKey r) w) = Inr True)
       \<and> (r \<in> set (rows (snd (clearExpiredCache w)))
           \<longleftrightarrow> fst (isCacheExpired (cacheKey r) w) = Inr False)
       \<and> (expiresAt r = clock w \<longrightarrow>
             r \<in> set (rows (snd (clearExpiredCache w)))
           \<and> fst (isCacheExpired (cacheKey r) w) = Inr False)"
proof -
  have "find (\<lambda>x. cacheKey x = cacheKey r) (rows w) = Some r"
    using find_unique_key [of "rows w" r] assms(2,3) by (simp add: unique_keys_def)
  then have e: "fst (isCacheExpired (cacheKey r) w) = Inr (expiresAt r < clock w)"
    using assms(1) by (simp add: isCacheExpired_healthy)
  have s: "r \<in> set (rows (snd (clearExpiredCache w))) \<longleftrightarrow> \<not> expiresAt r < clock w"
    using clearExpiredCache_healthy [OF assms(1)] assms(3) by simp
  show ?thesis unfolding e s by auto
qed

text \<open>
  The \<^verbatim>\<open>admin\<close> entry expires at 100: at 150 it is expired and swept, at exactly 100
  it is neither.
\<close>

theorem sweep_agrees_with_isCacheExpired_witness:
  "\<lparr>cacheKey = ''admin'', cacheData = JObj [(''count'', JNum 5)],
     lastUpdated = 0, expiresAt = 100\<rparr> \<notin> set (rows (snd (clearExpiredCache admin_world)))
   \<and> fst (isCacheExpired ''admin'' admin_world) = Inr True
   \<and> \<lparr>cacheKey = ''admin'', cacheData = JObj [(''count'', JNum 5)],
     lastUpdated = 0, expiresAt = 100\<rparr>
       \<in> set (rows (snd (clearExpiredCache (admin_world\<lparr>clock := 100\<rparr>))))
   \<and> fst (isCacheExpired ''admin'' (admin_world\<lparr>clock := 100\<rparr>)) = Inr False"
proof -
  let ?r = "\<lparr>cacheKey = ''admin'', cacheData = JObj [(''count'', JNum 5)],
     lastUpdated = 0, expiresAt = 100\<rparr>"
  have h: "faults admin_world = []" "unique_keys admin_world" "?r \<in> set (rows admin_world)"
    by (simp_all add: admin_world_def unique_keys_def)
  have h': "faults (admin_world\<lparr>clock := 100\<rparr>) = []"
    "unique_keys (admin_world\<lparr>clock := 100\<rparr>)"
    "?r \<in> set (rows (admin_world\<lparr>clock := 100\<rparr>))"
    by (simp_all add: admin_world_def unique_keys_def)
  have e: "fst (isCacheExpired ''admin'' admin_world) = Inr True"
    "fst (isCacheExpired ''admin'' (admin_world\<lparr>clock := 100\<rparr>)) = Inr False"
    using h(1) h'(1) by (simp_all add: isCacheExpired_healthy) (simp_all add: admin_world_def)
  note a = sweep_agrees_with_isCacheExpired [OF h]
  note b = sweep_agrees_with_isCacheExpired [OF h']
  have a1: "?r \<notin> set (rows (snd (clearExpiredCache admin_world)))"
    using a [THEN conjunct1] e(1) by simp
  have b1: "?r \<in> set (rows (snd (clearExpiredCache (admin_world\<lparr>clock := 100\<rparr>))))"
    using b [THEN conjunct2, THEN conjunct1] e(2) by simp
  from a1 b1 e show ?thesis by blast
qed

section \<open>Writing an entry\<close>

lemma upsert_row_keys:
  "map cacheKey (upsert_row r rs) =
     (if cacheKey r \<in> set (map cacheKey rs) then map cacheKey rs
      else map cacheKey rs @ [cacheKey r])"
proof -
  have "map cacheKey (map (\<lambda>x. if cacheKey x = cacheKey r
                     then x\<lparr>cacheData := cacheData r, lastUpdated := lastUpdated r,
                            expiresAt := expiresAt r\<rparr>
                     else x) rs) = map cacheKey rs"
    by (induction rs) auto
  moreover have "list_ex (\<lambda>x. cacheKey x = cacheKey r) rs \<longleftrightarrow> cacheKey r \<in> set (map cacheKey rs)"
    by (induction rs) auto
  ultimately show ?thesis by (simp add: upsert_row_def)
qed

lemma upsert_row_distinct:
  "distinct (map cacheKey rs) \<Longrightarrow> distinct (map cacheKey (upsert_row r rs))"
  by (simp add: upsert_row_keys)

lemma upsert_row_others:
  "filter (\<lambda>x. cacheKey x \<noteq> cacheKey r) (upsert_row r rs) =
   filter (\<lambda>x. cacheKey x \<noteq> cacheKey r) rs"
proof -
  have "filter (\<lambda>x. cacheKey x \<noteq> cacheKey r)
          (map (\<lambda>x. if cacheKey x = cacheKey r
                     then x\<lparr>cacheData := cacheData r, lastUpdated := lastUpdated r,
                            expiresAt := expiresAt r\<rparr>
                     else x) rs) = filter (\<lambda>x. cacheKey x \<noteq> cacheKey r) rs"
    by (induction rs) auto
  then show ?thesis by (simp add: upsert_row_def)
qed

lemma upsert_row_own:
  "distinct (map cacheKey rs) \<Longrightarrow>
   filter (\<lambda>x. cacheKey x = cacheKey r) (upsert_row r rs) = [r]"
proof (cases "list_ex (\<lambda>x. cacheKey x = cacheKey r) rs")
  case False
  then have "filter (\<lambda>x. cacheKey x = cacheKey r) rs = []"
    by (induction rs) auto
  with False show ?thesis by (simp add: upsert_row_def)
next
  case True
  assume "distinct (map cacheKey rs)"
  with True have "filter (\<lambda>x. cacheKey x = cacheKey r)
          (map (\<lambda>x. if cacheKey x = cacheKey r
                     then x\<lparr>cacheData := cacheData r, lastUpdated := lastUpdated r,
                            expiresAt := expiresAt r\<rparr>
                     else x) rs) = [r]"
  proof (induction rs)
    case Nil
    then show ?case by simp
  next
    case (Cons x xs)
    show ?case
    proof (cases "cacheKey x = cacheKey r")
      case True
      from Cons.prems(2) have "cacheKey x \<notin> cacheKey ` set xs" by simp
      with True have "\<forall>y\<in>set xs. cacheKey y \<noteq> cacheKey r" by (metis imageI)
      then have "filter (\<lambda>x. cacheKey x = cacheKey r)
          (map (\<lambda>x. if cacheKey x = cacheKey r
                     then x\<lparr>cacheData := cacheData r, lastUpdated := lastUpdated r,
                            expiresAt := expiresAt r\<rparr>
                     else x) xs) = []"
        by (induction xs) auto
      with True show ?thesis by simp
    next
      case False
      with Cons.prems have "list_ex (\<lambda>x. cacheKey x = cacheKey r) xs"
        and "distinct (map cacheKey xs)" by auto
      with False Cons.IH show ?thesis by simp
    qed
  qed
  with True show ?thesis by (simp add: upsert_row_def)
qed

lemma find_after_append:
  "find P (xs @ ys) = (case find P xs of None \<Rightarrow> find P ys | Some x \<Rightarrow> Some x)"
  by (induction xs) auto

lemma upsert_row_find:
  "find (\<lambda>x. cacheKey x = cacheKey r) (upsert_row r rs) = Some r"
proof (cases "list_ex (\<lambda>x. cacheKey x = cacheKey r) rs")
  case False
  then have "find (\<lambda>x. cacheKey x = cacheKey r) rs = None"
    by (induction rs) auto
  with False show ?thesis by (simp add: upsert_row_def find_after_append)
next
  case True
  then have "find (\<lambda>x. cacheKey x = cacheKey r)
          (map (\<lambda>x. if cacheKey x = cacheKey r
                     then x\<lparr>cacheData := cacheData r, lastUpdated := lastUpdated r,
                            expiresAt := expiresAt r\<rparr>
                     else x) rs) = Some r"
    by (induction rs) auto
  with True show ?thesis by (simp add: upsert_row_def)
qed

text \<open>
  Claim C3, as the code has it.  The time of expiry is
  \<^verbatim>\<open>new Date(now + (ttl || 15 minutes))\<close>:
  \<^item> for a ttl that is a whole number of milliseconds other than 0 it is \<open>now + ttl\<close>
    when that lies in the Date range (at most \<open>8.64e15\<close> in magnitude), and an Invalid
    Date otherwise;
  \<^item> for a ttl that is omitted, 0 or \<^verbatim>\<open>NaN\<close> it is \<open>now\<close> plus 15 minutes (an Invalid
    Date if that leaves the Date range);
  \<^item> for an infinite ttl it is an Invalid Date;
  \<^item> for any other finite ttl it is made from the double sum \<open>now + ttl\<close>, truncated
    to whole milliseconds when in the Date range.

  With working storage and unique keys, \<^verbatim>\<open>setCachedData(k, v, ttl)\<close> returns normally.
  When the time of expiry is a valid date \<open>e\<close>, exactly one row for \<open>k\<close> is left,
  holding \<open>v\<close>, written at \<open>now\<close> and expiring at \<open>e\<close>; every other row is untouched;
  \<^verbatim>\<open>getCachedData(k)\<close> then answers \<open>v\<close>, and \<^verbatim>\<open>isCacheExpired(k)\<close> is false at every
  clock reading up to and including \<open>e\<close> and true after it.  When the time of expiry is
  an Invalid Date, nothing is written and the failure is printed on the console.
\<close>

theorem setCachedData_upserts_one_entry:
  assumes "faults w = []" and "unique_keys w"
  shows "fst (setCachedData k v ttl w) = Inr ()
       \<and> (\<forall>e. expiry_date (clock w) ttl = Valid e \<longrightarrow>
              filter (\<lambda>r. cacheKey r = k) (rows (snd (setCachedData k v ttl w))) =
                [\<lparr>cacheKey = k, cacheData = v, lastUpdated = clock w, expiresAt = e\<rparr>]
            \<and> filter (\<lambda>r. cacheKey r \<noteq> k) (rows (snd (setCachedData k v ttl w))) =
                filter (\<lambda>r. cacheKey r \<noteq> k) (rows w)
            \<and> unique_keys (snd (setCachedData k v ttl w))
            \<and> fst (getCachedData k (snd (setCachedData k v ttl w))) = Inr v
            \<and> (\<forall>t. fst (isCacheExpired k ((snd (setCachedData k v ttl w))\<lparr>clock := t\<rparr>)) =
                     Inr (t > e)))
       \<and> (expiry_date (clock w) ttl = Invalid \<longrightarrow>
              rows (snd (setCachedData k v ttl w)) = rows w
            \<and> console (snd (setCachedData k v ttl w)) =
                console w @
                [ConsoleError ''Error setting cached data:'' (RangeError ''Invalid time value'')])
       \<and> (\<forall>d. ttl = Some (Finite (of_int d)) \<and> d \<noteq> 0 \<longrightarrow>
              expiry_date (clock w) ttl =
                (if \<bar>clock w + d\<bar> \<le> 8640000000000000 then Valid (clock w + d) else Invalid))
       \<and> (ttl = None \<or> ttl = Some (Finite 0) \<or> ttl = Some NaN \<longrightarrow>
              expiry_date (clock w) ttl =
                (if \<bar>clock w + 15 * 60 * 1000\<bar> \<le> 8640000000000000
                 then Valid (clock w + 15 * 60 * 1000) else Invalid))
       \<and> (ttl = Some PosInfinity \<or> ttl = Some NegInfinity \<longrightarrow>
              expiry_date (clock w) ttl = Invalid)
       \<and> (\<forall>x. ttl = Some (Finite x) \<and> x \<noteq> 0 \<longrightarrow>
              expiry_date (clock w) ttl = new_Date_of (to_double (of_int (clock w) + x)))"
proof -
  let ?w = "snd (setCachedData k v ttl w)"
  have ret: "fst (setCachedData k v ttl w) = Inr ()"
    using setCachedData_returns [of k v ttl w] by auto
  have valid: "filter (\<lambda>r. cacheKey r = k) (rows ?w) =
                [\<lparr>cacheKey = k, cacheData = v, lastUpdated = clock w, expiresAt = e\<rparr>]
            \<and> filter (\<lambda>r. cacheKey r \<noteq> k) (rows ?w) = filter (\<lambda>r. cacheKey r \<noteq> k) (rows w)
            \<and> unique_keys ?w
            \<and> fst (getCachedData k ?w) = Inr v
            \<and> (\<forall>t. fst (isCacheExpired k (?w\<lparr>clock := t\<rparr>)) = Inr (t > e))"
    if e: "expiry_date (clock w) ttl = Valid e" for e
  proof -
    let ?r = "\<lparr>cacheKey = k, cacheData = v, lastUpdated = clock w, expiresAt = e\<rparr>"
    have rs: "rows ?w = upsert_row ?r (rows w)"
      by (simp add: setCachedData_healthy [OF assms(1) e])
    have hs: "faults ?w = []"
      using assms(1) by (simp add: setCachedData_healthy [OF assms(1) e])
    have own: "filter (\<lambda>r. cacheKey r = k) (rows ?w) = [?r]"
      using upsert_row_own [of "rows w" ?r] assms(2) by (simp add: rs unique_keys_def)
    have others: "filter (\<lambda>r. cacheKey r \<noteq> k) (rows ?w) = filter (\<lambda>r. cacheKey r \<noteq> k) (rows w)"
      using upsert_row_others [of ?r "rows w"] by (simp add: rs)
    have uniq: "unique_keys ?w"
      using upsert_row_distinct [of "rows w" ?r] assms(2) by (simp add: rs unique_keys_def)
    have found: "find (\<lambda>x. cacheKey x = k) (rows ?w) = Some ?r"
      using upsert_row_find [of ?r "rows w"] by (simp add: rs)
    have get: "fst (getCachedData k ?w) = Inr v"
      using hs found by (simp add: getCachedData_healthy)
    have exp: "fst (isCacheExpired k (?w\<lparr>clock := t\<rparr>)) = Inr (t > e)" for t
      using hs found by (simp add: isCacheExpired_healthy)
    from own others uniq get exp show ?thesis by blast
  qed
  have invalid: "rows ?w = rows w \<and> console ?w = console w @
      [ConsoleError ''Error setting cached data:'' (RangeError ''Invalid time value'')]"
    if "expiry_date (clock w) ttl = Invalid"
    by (simp add: setCachedData_invalid [OF that])
  have whole: "expiry_date (clock w) ttl =
      (if \<bar>clock w + d\<bar> \<le> 8640000000000000 then Valid (clock w + d) else Invalid)"
    if "ttl = Some (Finite (of_int d)) \<and> d \<noteq> 0" for d
    using that expiry_date_whole [of d "clock w"] by simp
  have dflt: "expiry_date (clock w) ttl =
      (if \<bar>clock w + 15 * 60 * 1000\<bar> \<le> 8640000000000000
       then Valid (clock w + 15 * 60 * 1000) else Invalid)"
    if "ttl = None \<or> ttl = Some (Finite 0) \<or> ttl = Some NaN"
    using expiry_date_default [OF that, of "clock w"] by simp
  have inf: "expiry_date (clock w) ttl = Invalid"
    if "ttl = Some PosInfinity \<or> ttl = Some NegInfinity"
    using that expiry_date_infinite by auto
  have frac: "expiry_date (clock w) ttl = new_Date_of (to_double (of_int (clock w) + x))"
    if "ttl = Some (Finite x) \<and> x \<noteq> 0" for x
    using that by (simp add: expiry_date_def duration_or_default_def)
  from ret valid invalid whole dflt inf frac show ?thesis by blast
qed

text \<open>
  Overwriting \<^verbatim>\<open>admin\<close> at time 150 with a life of 100 ms, with the default life, and
  with a life of \<open>9e15\<close> ms, which ends beyond the Date range.
\<close>

theorem setCachedData_upserts_one_entry_witness:
  "filter (\<lambda>r. cacheKey r = ''admin'')
     (rows (snd (setCachedData ''admin'' (JNum 6) (Some (Finite 100)) admin_world))) =
     [\<lparr>cacheKey = ''admin'', cacheData = JNum 6, lastUpdated = 150, expiresAt = 250\<rparr>]
   \<and> fst (getCachedData ''admin''
        (snd (setCachedData ''admin'' (JNum 6) (Some (Finite 100)) admin_world))) = Inr (JNum 6)
   \<and> fst (isCacheExpired ''admin''
        ((snd (setCachedData ''admin'' (JNum 6) (Some (Finite 100)) admin_world))
           \<lparr>clock := 250\<rparr>)) = Inr False
   \<and> fst (isCacheExpired ''admin''
        ((snd (setCachedData ''admin'' (JNum 6) (Some (Finite 100)) admin_world))
           \<lparr>clock := 251\<rparr>)) = Inr True
   \<and> filter (\<lambda>r. cacheKey r = ''admin'')
       (rows (snd (setCachedData ''admin'' (JNum 6) None admin_world))) =
     [\<lparr>cacheKey = ''admin'', cacheData = JNum 6, lastUpdated = 150, expiresAt = 900150\<rparr>]
   \<and> rows (snd (setCachedData ''admin'' (JNum 6) (Some (Finite 9000000000000000)) admin_world)) =
       rows admin_world"
proof -
  have h: "faults admin_world = []" "unique_keys admin_world"
    by (simp_all add: admin_world_def unique_keys_def)
  have c: "clock admin_world = 150" by (simp add: admin_world_def)
  note a = setCachedData_upserts_one_entry [OF h, of "''admin''" "JNum 6" "Some (Finite (of_int 100))"]
  note b = setCachedData_upserts_one_entry [OF h, of "''admin''" "JNum 6" None]
  note f = setCachedData_upserts_one_entry [OF h, of "''admin''" "JNum 6"
      "Some (Finite (of_int 9000000000000000))"]
  from a have ea: "expiry_date (clock admin_world) (Some (Finite 100)) = Valid 250"
    by (simp add: c)
  from b have eb: "expiry_date (clock admin_world) None = Valid 900150"
    by (simp add: c)
  from f have ef: "expiry_date (clock admin_world) (Some (Finite 9000000000000000)) = Invalid"
    by (simp add: c)
  from a ea have a2: "filter (\<lambda>r. cacheKey r = ''admin'')
     (rows (snd (setCachedData ''admin'' (JNum 6) (Some (Finite 100)) admin_world))) =
     [\<lparr>cacheKey = ''admin'', cacheData = JNum 6, lastUpdated = 150, expiresAt = 250\<rparr>]"
    by (simp add: c)
  from a ea have a5: "fst (getCachedData ''admin''
      (snd (setCachedData ''admin'' (JNum 6) (Some (Finite 100)) admin_world))) = Inr (JNum 6)"
    by simp
  from a ea have a6: "fst (isCacheExpired ''admin''
        ((snd (setCachedData ''admin'' (JNum 6) (Some (Finite 100)) admin_world))
           \<lparr>clock := t\<rparr>)) = Inr (t > 250)" for t
    by simp
  from b eb have b2: "filter (\<lambda>r. cacheKey r = ''admin'')
       (rows (snd (setCachedData ''admin'' (JNum 6) None admin_world))) =
     [\<lparr>cacheKey = ''admin'', cacheData = JNum 6, lastUpdated = 150, expiresAt = 900150\<rparr>]"
    by (simp add: c)
  from f ef have f2:
    "rows (snd (setCachedData ''admin'' (JNum 6) (Some (Finite 9000000000000000)) admin_world)) =
       rows admin_world"
    by simp
  show ?thesis
    unfolding a2 b2 a5 a6 f2 by simp
qed

text \<open>
  The claim as written fails for \<open>ttl = 0\<close>: \<^verbatim>\<open>customDuration || DEFAULT\<close> takes the
  default, so the entry written at 1000 expires at 901000 and not at \<open>1000 + 0\<close>.
\<close>

theorem setCachedData_zero_ttl_counterexample:
  "rows (snd (setCachedData ''admin'' (JNum 5) (Some (Finite 0)) cold_world)) =
     [\<lparr>cacheKey = ''admin'', cacheData = JNum 5, lastUpdated = 1000, expiresAt = 901000\<rparr>]
   \<and> clock cold_world = 1000
   \<and> (901000 :: int) \<noteq> 1000 + 0"
proof -
  have h: "faults cold_world = []" and c: "clock cold_world = 1000"
    by (simp_all add: cold_world_def)
  have e: "expiry_date (clock cold_world) (Some (Finite 0)) = Valid 901000"
    using expiry_date_default [of "Some (Finite 0)" 1000] by (simp add: c)
  show ?thesis
    by (simp add: setCachedData_healthy [OF h e]) (simp add: cold_world_def upsert_row_def)
qed

section \<open>Read-through access\<close>

lemma getCachedData_frame:
  "rows (snd (getCachedData k w)) = rows w \<and>
   invocations (snd (getCachedData k w)) = invocations w \<and>
   pending (snd (getCachedData k w)) = pending w \<and>
   clock (snd (getCachedData k w)) = clock w \<and>
   faults (snd (getCachedData k w)) = tl (faults w)"
  by (auto simp: getCachedData_def try_catch_def await_def db_select_by_key_def db_statement_def
      return_def new_Date_def console_error_def split: list.splits option.splits prod.splits)

lemma getCachedData_absent:
  "\<forall>r\<in>set (rows w). cacheKey r \<noteq> k \<Longrightarrow> fst (getCachedData k w) = Inr JNull"
proof -
  assume "\<forall>r\<in>set (rows w). cacheKey r \<noteq> k"
  then have "filter (\<lambda>r. cacheKey r = k) (rows w) = []"
    by (induction "rows w") (auto simp: filter_empty_conv)
  then show ?thesis
    by (auto simp: getCachedData_def try_catch_def await_def db_select_by_key_def db_statement_def
        return_def new_Date_def console_error_def split: list.splits option.splits prod.splits)
qed

lemma setCachedData_frame:
  "invocations (snd (setCachedData k d t w)) = invocations w \<and>
   pending (snd (setCachedData k d t w)) = pending w \<and>
   clock (snd (setCachedData k d t w)) = clock w \<and>
   (faults w = [] \<longrightarrow> faults (snd (setCachedData k d t w)) = [])"
  by (auto simp: setCachedData_def try_catch_def await_def db_upsert_def db_statement_def
      return_def throw_def new_Date_def console_error_def console_log_def to_timestamp_def
      Let_def split: list.splits option.splits prod.splits js_date.splits)

lemma setCachedData_default_rows:
  assumes "faults u = []"
  shows "rows (snd (setCachedData k v None u)) =
     (if \<bar>clock u + 15 * 60 * 1000\<bar> \<le> 8640000000000000
      then upsert_row \<lparr>cacheKey = k, cacheData = v, lastUpdated = clock u,
                        expiresAt = clock u + 15 * 60 * 1000\<rparr> (rows u)
      else rows u)"
proof (cases "\<bar>clock u + 15 * 60 * 1000\<bar> \<le> 8640000000000000")
  case True
  then have e: "expiry_date (clock u) None = Valid (clock u + 15 * 60 * 1000)"
    using expiry_date_default [of None "clock u"] by simp
  from True show ?thesis
    by (simp add: setCachedData_healthy [OF assms e])
next
  case False
  then have e: "expiry_date (clock u) None = Invalid"
    using expiry_date_default [of None "clock u"] by simp
  from False show ?thesis
    by (simp add: setCachedData_invalid [OF e])
qed

lemma invoke_outcome:
  "invoke p w =
     (case p of Throws e \<Rightarrow> Inl e | Promise r \<Rightarrow> r, w\<lparr>invocations := Suc (invocations w)\<rparr>)"
  by (simp add: invoke_def await_def call_def settle_def split: async_fn.splits)

lemma cold_path:
  assumes "getCachedData k w = (Inr c, w1)" and "\<not> truthy c"
  shows "getDataWithCache k p w =
     (case (case p of Throws e \<Rightarrow> Inl e | Promise r \<Rightarrow> r) of
        Inl e \<Rightarrow> (Inl e, w1\<lparr>invocations := Suc (invocations w1),
                    console := console w1 @ [ConsoleError ''Error fetching fresh data:'' e]\<rparr>)
      | Inr v \<Rightarrow> (Inr \<lparr>data = v, fromCache = False\<rparr>,
                  snd (setCachedData k v None (w1\<lparr>invocations := Suc (invocations w1)\<rparr>))))"
proof (cases "case p of Throws e \<Rightarrow> Inl e | Promise r \<Rightarrow> r")
  case (Inl e)
  with assms show ?thesis
    by (simp add: getDataWithCache_def await_def [of "getCachedData k"] try_catch_def
        invoke_outcome await_def [of "invoke p"] await_def [of "console_error _ _"]
        console_error_def throw_def)
next
  case (Inr v)
  obtain w3 where "setCachedData k v None (w1\<lparr>invocations := Suc (invocations w1)\<rparr>) = (Inr (), w3)"
    using setCachedData_returns by blast
  with Inr assms show ?thesis
    by (simp add: getDataWithCache_def await_def try_catch_def invoke_outcome return_def)
qed

lemma spawn_refresh_outcome:
  "spawn_refresh k p w =
     (Inr (),
      case p of
        Throws e \<Rightarrow>
          w\<lparr>invocations := Suc (invocations w),
            console := console w @
              [ConsoleError (''Background cache refresh failed for '' @ k @ '':'') e]\<rparr>
      | Promise r \<Rightarrow>
          w\<lparr>invocations := Suc (invocations w), pending := pending w @ [(k, r)]\<rparr>)"
  by (simp add: spawn_refresh_def try_catch_def await_def call_def suspend_refresh_def
      console_error_def split: async_fn.splits)

lemma warm_path:
  assumes "getCachedData k w = (Inr c, w1)" and "truthy c"
    and "isCacheExpired k w1 = (Inr b, w2)"
  shows "getDataWithCache k p w =
     (Inr \<lparr>data = c, fromCache = True\<rparr>, if b then snd (spawn_refresh k p w2) else w2)"
  using assms
  by (simp add: getDataWithCache_def await_def spawn_refresh_outcome return_def)

text \<open>
  Starting the refresh and resuming it is the function run from its first statement to
  its last.
\<close>

lemma refreshCacheInBackground_split:
  "refreshCacheInBackground k p w =
     (case p of
        Throws e \<Rightarrow> spawn_refresh k p w
      | Promise r \<Rightarrow> resume_refresh k r (w\<lparr>invocations := Suc (invocations w)\<rparr>))"
  by (simp add: refreshCacheInBackground_def resume_refresh_def spawn_refresh_outcome
      try_catch_def await_def invoke_outcome settle_def console_error_def
      split: async_fn.splits)

lemma resume_refresh_returns:
  "fst (resume_refresh k r u) = Inr () \<and>
   invocations (snd (resume_refresh k r u)) = invocations u"
proof (cases r)
  case (Inl e)
  then show ?thesis
    by (simp add: resume_refresh_def try_catch_def await_def settle_def console_error_def)
next
  case (Inr v)
  obtain u' where s: "setCachedData k v None u = (Inr (), u')"
    using setCachedData_returns by blast
  have "invocations u' = invocations u"
    using setCachedData_frame [of k v None u] s by simp
  with Inr s show ?thesis
    by (simp add: resume_refresh_def try_catch_def await_def settle_def console_log_def)
qed

lemma resume_refresh_rejected:
  "resume_refresh k (Inl e) u =
     (Inr (), u\<lparr>console := console u @
          [ConsoleError (''Background cache refresh failed for '' @ k @ '':'') e]\<rparr>)"
  by (simp add: resume_refresh_def try_catch_def await_def settle_def console_error_def)

lemma resume_refresh_resolved:
  "resume_refresh k (Inr v) u =
     (Inr (), (snd (setCachedData k v None u))
        \<lparr>console := console (snd (setCachedData k v None u)) @
           [ConsoleLog (''Background cache refresh completed for: '' @ k)]\<rparr>)"
proof -
  obtain u' where s: "setCachedData k v None u = (Inr (), u')"
    using setCachedData_returns by blast
  then show ?thesis
    by (simp add: resume_refresh_def try_catch_def await_def settle_def console_log_def)
qed

lemma refreshCacheInBackground_returns:
  "fst (refreshCacheInBackground k p u) = Inr () \<and>
   invocations (snd (refreshCacheInBackground k p u)) = Suc (invocations u)"
  using resume_refresh_returns [of k _ "u\<lparr>invocations := Suc (invocations u)\<rparr>"]
  by (simp add: refreshCacheInBackground_split spawn_refresh_outcome split: async_fn.splits)

text \<open>
  Claim C2.  For a key without a row, \<^verbatim>\<open>getDataWithCache\<close> calls the producer exactly once
  and starts no detached refresh, whatever the storage does.  When the producer resolves,
  its payload is returned with \<open>fromCache = False\<close> and, the storage working, is inserted
  under the key with the default life of 15 minutes (always, but for a clock within 15
  minutes of the end of the Date range, where nothing can be written).  When the producer
  fails, be it that the call throws or that its promise rejects, the call of
  \<^verbatim>\<open>getDataWithCache\<close> fails with that very error, the table is unchanged and so holds
  no row for the key.
\<close>

theorem getDataWithCache_cold_key:
  assumes "\<forall>r\<in>set (rows w). cacheKey r \<noteq> k"
  shows "invocations (snd (getDataWithCache k p w)) = Suc (invocations w)
       \<and> pending (snd (getDataWithCache k p w)) = pending w
       \<and> (\<forall>v. p = Promise (Inr v) \<longrightarrow>
             fst (getDataWithCache k p w) = Inr \<lparr>data = v, fromCache = False\<rparr>
           \<and> (faults w = [] \<longrightarrow>
                rows (snd (getDataWithCache k p w)) =
                  (if \<bar>clock w + 15 * 60 * 1000\<bar> \<le> 8640000000000000
                   then rows w @ [\<lparr>cacheKey = k, cacheData = v, lastUpdated = clock w,
                                    expiresAt = clock w + 15 * 60 * 1000\<rparr>]
                   else rows w)))
       \<and> (\<forall>e. p = Promise (Inl e) \<or> p = Throws e \<longrightarrow>
             fst (getDataWithCache k p w) = Inl e
           \<and> rows (snd (getDataWithCache k p w)) = rows w
           \<and> (\<forall>r\<in>set (rows (snd (getDataWithCache k p w))). cacheKey r \<noteq> k))"
proof -
  obtain w1 where g: "getCachedData k w = (Inr JNull, w1)"
    using getCachedData_absent [OF assms] by (metis prod.collapse)
  have f1: "rows w1 = rows w" "invocations w1 = invocations w" "pending w1 = pending w"
    "clock w1 = clock w" "faults w1 = tl (faults w)"
    using getCachedData_frame [of k w] g by simp_all
  let ?w2 = "w1\<lparr>invocations := Suc (invocations w1)\<rparr>"
  have cp: "getDataWithCache k q w =
     (case (case q of Throws e \<Rightarrow> Inl e | Promise r \<Rightarrow> r) of
        Inl e \<Rightarrow> (Inl e, w1\<lparr>invocations := Suc (invocations w1),
                    console := console w1 @ [ConsoleError ''Error fetching fresh data:'' e]\<rparr>)
      | Inr v \<Rightarrow> (Inr \<lparr>data = v, fromCache = False\<rparr>, snd (setCachedData k v None ?w2)))" for q
    using cold_path [OF g, of q] by simp
  have inv: "invocations (snd (getDataWithCache k p w)) = Suc (invocations w)"
    using setCachedData_frame [of k _ None ?w2] f1
    by (simp add: cp split: sum.splits async_fn.splits)
  have pend: "pending (snd (getDataWithCache k p w)) = pending w"
    using setCachedData_frame [of k _ None ?w2] f1
    by (simp add: cp split: sum.splits async_fn.splits)
  have ok: "fst (getDataWithCache k p w) = Inr \<lparr>data = v, fromCache = False\<rparr>"
    if "p = Promise (Inr v)" for v
    using that by (simp add: cp)
  have stored: "rows (snd (getDataWithCache k p w)) =
      (if \<bar>clock w + 15 * 60 * 1000\<bar> \<le> 8640000000000000
       then rows w @ [\<lparr>cacheKey = k, cacheData = v, lastUpdated = clock w,
                        expiresAt = clock w + 15 * 60 * 1000\<rparr>]
       else rows w)"
    if "p = Promise (Inr v)" "faults w = []" for v
  proof -
    from that f1 have h: "faults ?w2 = []" by simp
    have "\<not> list_ex (\<lambda>x. cacheKey x = k) (rows w)"
      using assms by (simp add: list_ex_iff)
    then have up: "upsert_row \<lparr>cacheKey = k, cacheData = v, lastUpdated = clock w,
        expiresAt = clock w + 15 * 60 * 1000\<rparr> (rows w) =
      rows w @ [\<lparr>cacheKey = k, cacheData = v, lastUpdated = clock w,
                 expiresAt = clock w + 15 * 60 * 1000\<rparr>]"
      by (simp add: upsert_row_def)
    have "rows (snd (setCachedData k v None ?w2)) =
        (if \<bar>clock w + 15 * 60 * 1000\<bar> \<le> 8640000000000000
         then upsert_row \<lparr>cacheKey = k, cacheData = v, lastUpdated = clock w,
                expiresAt = clock w + 15 * 60 * 1000\<rparr> (rows w)
         else rows w)"
      using setCachedData_default_rows [OF h, of k v] f1 by simp
    with up have "rows (snd (setCachedData k v None ?w2)) =
        (if \<bar>clock w + 15 * 60 * 1000\<bar> \<le> 8640000000000000
         then rows w @ [\<lparr>cacheKey = k, cacheData = v, lastUpdated = clock w,
                 expiresAt = clock w + 15 * 60 * 1000\<rparr>]
         else rows w)"
      by simp
    moreover have "snd (getDataWithCache k p w) = snd (setCachedData k v None ?w2)"
      using that(1) by (simp add: cp)
    ultimately show ?thesis by simp
  qed
  have bad: "fst (getDataWithCache k p w) = Inl e \<and> rows (snd (getDataWithCache k p w)) = rows w"
    if "p = Promise (Inl e) \<or> p = Throws e" for e
    using that f1 by (auto simp: cp)
  from inv pend ok stored bad assms show ?thesis by simp
qed

text \<open>
  A cold read of \<^verbatim>\<open>admin\<close> on the empty table, with a producer that resolves, one whose
  promise rejects and one whose call throws.
\<close>

theorem getDataWithCache_cold_key_witness:
  "fst (getDataWithCache ''admin'' (Promise (Inr (JNum 6))) cold_world) =
     Inr \<lparr>data = JNum 6, fromCache = False\<rparr>
   \<and> rows (snd (getDataWithCache ''admin'' (Promise (Inr (JNum 6))) cold_world)) =
       [\<lparr>cacheKey = ''admin'', cacheData = JNum 6, lastUpdated = 1000, expiresAt = 901000\<rparr>]
   \<and> invocations (snd (getDataWithCache ''admin'' (Promise (Inr (JNum 6))) cold_world)) = 1
   \<and> fst (getDataWithCache ''admin'' (Promise (Inl (ProducerFault ''down''))) cold_world) =
       Inl (ProducerFault ''down'')
   \<and> rows (snd (getDataWithCache ''admin'' (Promise (Inl (ProducerFault ''down''))) cold_world)) = []
   \<and> invocations (snd (getDataWithCache ''admin'' (Promise (Inl (ProducerFault ''down'')))
        cold_world)) = 1
   \<and> fst (getDataWithCache ''admin'' (Throws (ProducerFault ''down'')) cold_world) =
       Inl (ProducerFault ''down'')"
proof -
  have h: "\<forall>r\<in>set (rows cold_world). cacheKey r \<noteq> ''admin''"
    by (simp add: cold_world_def)
  have v: "faults cold_world = []" "rows cold_world = []" "clock cold_world = 1000"
    "invocations cold_world = 0"
    by (simp_all add: cold_world_def)
  note a = getDataWithCache_cold_key [OF h, of "Promise (Inr (JNum 6))"]
  note b = getDataWithCache_cold_key [OF h, of "Promise (Inl (ProducerFault ''down''))"]
  note c = getDataWithCache_cold_key [OF h, of "Throws (ProducerFault ''down'')"]
  from a v have a1:
    "invocations (snd (getDataWithCache ''admin'' (Promise (Inr (JNum 6))) cold_world)) = 1"
    by simp
  from a have a2: "fst (getDataWithCache ''admin'' (Promise (Inr (JNum 6))) cold_world) =
      Inr \<lparr>data = JNum 6, fromCache = False\<rparr>"
    by blast
  from a v(1) have "rows (snd (getDataWithCache ''admin'' (Promise (Inr (JNum 6))) cold_world)) =
      (if \<bar>clock cold_world + 15 * 60 * 1000\<bar> \<le> 8640000000000000
       then rows cold_world @
         [\<lparr>cacheKey = ''admin'', cacheData = JNum 6, lastUpdated = clock cold_world,
            expiresAt = clock cold_world + 15 * 60 * 1000\<rparr>]
       else rows cold_world)"
    by blast
  then have a3: "rows (snd (getDataWithCache ''admin'' (Promise (Inr (JNum 6))) cold_world)) =
       [\<lparr>cacheKey = ''admin'', cacheData = JNum 6, lastUpdated = 1000, expiresAt = 901000\<rparr>]"
    by (simp add: v)
  from b v have b1: "invocations (snd (getDataWithCache ''admin''
      (Promise (Inl (ProducerFault ''down''))) cold_world)) = 1"
    by simp
  from b have b2: "fst (getDataWithCache ''admin'' (Promise (Inl (ProducerFault ''down'')))
      cold_world) = Inl (ProducerFault ''down'')"
    by blast
  from b have "rows (snd (getDataWithCache ''admin'' (Promise (Inl (ProducerFault ''down'')))
      cold_world)) = rows cold_world"
    by blast
  then have b3: "rows (snd (getDataWithCache ''admin'' (Promise (Inl (ProducerFault ''down'')))
      cold_world)) = []"
    by (simp add: v)
  from c have c2: "fst (getDataWithCache ''admin'' (Throws (ProducerFault ''down'')) cold_world) =
       Inl (ProducerFault ''down'')"
    by blast
  from a1 a2 a3 b1 b2 b3 c2 show ?thesis by blast
qed

text \<open>
  Claim C1, as the code has it.  Let the key have a row, and let the storage reads
  succeed.

  If the payload of the row is truthy, \<^verbatim>\<open>getDataWithCache\<close> returns that payload with
  \<open>fromCache = True\<close> and leaves the table as it is; the producer's result plays no
  part in what the caller gets.  On a row that is not expired the producer is not called
  and nothing at all changes.  On an expired row the producer is called once, by the
  detached refresh and before \<^verbatim>\<open>getDataWithCache\<close> returns: if the call hands back a
  promise, the refresh is left suspended on it and nothing is printed; if the call
  throws, the failure is printed at once and nothing is left suspended.

  If the payload of the row is falsy, the row counts as a miss: the producer is called
  once and awaited, no refresh is started; a payload it resolves with is returned with
  \<open>fromCache = False\<close> and overwrites the row with the default life (nothing is
  written for a clock within 15 minutes of the end of the Date range); a failure of the
  producer is the failure of the call, and the table stays as it is.

  A suspended refresh, in whatever state it resumes, never throws and calls no producer:
  a payload the promise resolved with is written under the key with the default life
  (storage and Date range permitting), a rejection leaves the table alone and is printed
  on the console.  After the refresh started by a read of an expired row has resumed,
  \<^verbatim>\<open>getCachedData\<close> answers the new payload.
\<close>

theorem getDataWithCache_on_stored_entry:
  assumes "faults w = []" and "unique_keys w"
    and "r \<in> set (rows w)" and "cacheKey r = k"
  shows "(truthy (cacheData r) \<longrightarrow>
            fst (getDataWithCache k p w) = Inr \<lparr>data = cacheData r, fromCache = True\<rparr>
          \<and> rows (snd (getDataWithCache k p w)) = rows w
          \<and> (\<not> expiresAt r < clock w \<longrightarrow> snd (getDataWithCache k p w) = w)
          \<and> (expiresAt r < clock w \<longrightarrow>
                invocations (snd (getDataWithCache k p w)) = Suc (invocations w)
              \<and> (\<forall>promise. p = Promise promise \<longrightarrow>
                    snd (getDataWithCache k p w) =
                      w\<lparr>invocations := Suc (invocations w),
                        pending := pending w @ [(k, promise)]\<rparr>)
              \<and> (\<forall>e. p = Throws e \<longrightarrow>
                    snd (getDataWithCache k p w) =
                      w\<lparr>invocations := Suc (invocations w),
                        console := console w @
                          [ConsoleError (''Background cache refresh failed for '' @ k @ '':'')
                             e]\<rparr>)))
       \<and> (\<not> truthy (cacheData r) \<longrightarrow>
            invocations (snd (getDataWithCache k p w)) = Suc (invocations w)
          \<and> pending (snd (getDataWithCache k p w)) = pending w
          \<and> (\<forall>v. p = Promise (Inr v) \<longrightarrow>
                fst (getDataWithCache k p w) = Inr \<lparr>data = v, fromCache = False\<rparr>
              \<and> rows (snd (getDataWithCache k p w)) =
                  (if \<bar>clock w + 15 * 60 * 1000\<bar> \<le> 8640000000000000
                   then upsert_row \<lparr>cacheKey = k, cacheData = v, lastUpdated = clock w,
                                     expiresAt = clock w + 15 * 60 * 1000\<rparr> (rows w)
                   else rows w))
          \<and> (\<forall>e. p = Promise (Inl e) \<or> p = Throws e \<longrightarrow>
                fst (getDataWithCache k p w) = Inl e
              \<and> rows (snd (getDataWithCache k p w)) = rows w))
       \<and> (\<forall>u promise.
              fst (resume_refresh k promise u) = Inr ()
            \<and> invocations (snd (resume_refresh k promise u)) = invocations u
            \<and> (\<forall>v. promise = Inr v \<and> faults u = [] \<longrightarrow>
                  rows (snd (resume_refresh k promise u)) =
                    (if \<bar>clock u + 15 * 60 * 1000\<bar> \<le> 8640000000000000
                     then upsert_row \<lparr>cacheKey = k, cacheData = v, lastUpdated = clock u,
                                       expiresAt = clock u + 15 * 60 * 1000\<rparr> (rows u)
                     else rows u))
            \<and> (\<forall>e. promise = Inl e \<longrightarrow>
                  rows (snd (resume_refresh k promise u)) = rows u
                \<and> console (snd (resume_refresh k promise u)) =
                    console u @
                    [ConsoleError (''Background cache refresh failed for '' @ k @ '':'') e]))
       \<and> (\<forall>v. truthy (cacheData r) \<and> expiresAt r < clock w \<and> pending w = []
              \<and> p = Promise (Inr v) \<and> \<bar>clock w + 15 * 60 * 1000\<bar> \<le> 8640000000000000 \<longrightarrow>
              fst (getCachedData k (run_pending (snd (getDataWithCache k p w)))) = Inr v)"
proof -
  have found: "find (\<lambda>x. cacheKey x = k) (rows w) = Some r"
    using find_unique_key [of "rows w" r] assms(2,3,4) by (simp add: unique_keys_def)
  have g: "getCachedData k w = (Inr (cacheData r), w)"
    using assms(1) found by (simp add: getCachedData_healthy)
  have x: "isCacheExpired k w = (Inr (expiresAt r < clock w), w)"
    using assms(1) found by (simp add: isCacheExpired_healthy)
  have hit: "fst (getDataWithCache k p w) = Inr \<lparr>data = cacheData r, fromCache = True\<rparr>
          \<and> rows (snd (getDataWithCache k p w)) = rows w
          \<and> (\<not> expiresAt r < clock w \<longrightarrow> snd (getDataWithCache k p w) = w)
          \<and> (expiresAt r < clock w \<longrightarrow>
                invocations (snd (getDataWithCache k p w)) = Suc (invocations w)
              \<and> (\<forall>promise. p = Promise promise \<longrightarrow>
                    snd (getDataWithCache k p w) =
                      w\<lparr>invocations := Suc (invocations w),
                        pending := pending w @ [(k, promise)]\<rparr>)
              \<and> (\<forall>e. p = Throws e \<longrightarrow>
                    snd (getDataWithCache k p w) =
                      w\<lparr>invocations := Suc (invocations w),
                        console := console w @
                          [ConsoleError (''Background cache refresh failed for '' @ k @ '':'')
                             e]\<rparr>))"
    if t: "truthy (cacheData r)"
    by (cases p) (simp_all add: warm_path [OF g t x] spawn_refresh_outcome)
  let ?w2 = "w\<lparr>invocations := Suc (invocations w)\<rparr>"
  have h2: "faults ?w2 = []" using assms(1) by simp
  have miss: "invocations (snd (getDataWithCache k p w)) = Suc (invocations w)
          \<and> pending (snd (getDataWithCache k p w)) = pending w
          \<and> (\<forall>v. p = Promise (Inr v) \<longrightarrow>
                fst (getDataWithCache k p w) = Inr \<lparr>data = v, fromCache = False\<rparr>
              \<and> rows (snd (getDataWithCache k p w)) =
                  (if \<bar>clock w + 15 * 60 * 1000\<bar> \<le> 8640000000000000
                   then upsert_row \<lparr>cacheKey = k, cacheData = v, lastUpdated = clock w,
                                     expiresAt = clock w + 15 * 60 * 1000\<rparr> (rows w)
                   else rows w))
          \<and> (\<forall>e. p = Promise (Inl e) \<or> p = Throws e \<longrightarrow>
                fst (getDataWithCache k p w) = Inl e
              \<and> rows (snd (getDataWithCache k p w)) = rows w)"
    if f: "\<not> truthy (cacheData r)"
  proof -
    have cp: "getDataWithCache k q w =
       (case (case q of Throws e \<Rightarrow> Inl e | Promise r \<Rightarrow> r) of
          Inl e \<Rightarrow> (Inl e, w\<lparr>invocations := Suc (invocations w),
                      console := console w @ [ConsoleError ''Error fetching fresh data:'' e]\<rparr>)
        | Inr v \<Rightarrow> (Inr \<lparr>data = v, fromCache = False\<rparr>, snd (setCachedData k v None ?w2)))" for q
      using cold_path [OF g f, of q] by simp
    have inv: "invocations (snd (getDataWithCache k p w)) = Suc (invocations w)"
      using setCachedData_frame [of k _ None ?w2]
      by (simp add: cp split: sum.splits async_fn.splits)
    have pend: "pending (snd (getDataWithCache k p w)) = pending w"
      using setCachedData_frame [of k _ None ?w2]
      by (simp add: cp split: sum.splits async_fn.splits)
    have ok: "fst (getDataWithCache k p w) = Inr \<lparr>data = v, fromCache = False\<rparr>
        \<and> rows (snd (getDataWithCache k p w)) =
            (if \<bar>clock w + 15 * 60 * 1000\<bar> \<le> 8640000000000000
             then upsert_row \<lparr>cacheKey = k, cacheData = v, lastUpdated = clock w,
                               expiresAt = clock w + 15 * 60 * 1000\<rparr> (rows w)
             else rows w)"
      if "p = Promise (Inr v)" for v
      using that setCachedData_default_rows [OF h2, of k v] by (simp add: cp)
    have bad: "fst (getDataWithCache k p w) = Inl e \<and> rows (snd (getDataWithCache k p w)) = rows w"
      if "p = Promise (Inl e) \<or> p = Throws e" for e
      using that by (auto simp: cp)
    from inv pend ok bad show ?thesis by blast
  qed
  have bg: "fst (resume_refresh k promise u) = Inr ()
            \<and> invocations (snd (resume_refresh k promise u)) = invocations u
            \<and> (\<forall>v. promise = Inr v \<and> faults u = [] \<longrightarrow>
                  rows (snd (resume_refresh k promise u)) =
                    (if \<bar>clock u + 15 * 60 * 1000\<bar> \<le> 8640000000000000
                     then upsert_row \<lparr>cacheKey = k, cacheData = v, lastUpdated = clock u,
                                       expiresAt = clock u + 15 * 60 * 1000\<rparr> (rows u)
                     else rows u))
            \<and> (\<forall>e. promise = Inl e \<longrightarrow>
                  rows (snd (resume_refresh k promise u)) = rows u
                \<and> console (snd (resume_refresh k promise u)) =
                    console u @
                    [ConsoleError (''Background cache refresh failed for '' @ k @ '':'') e])"
    for u promise
    using resume_refresh_returns [of k promise u]
    by (auto simp: resume_refresh_rejected resume_refresh_resolved setCachedData_default_rows)
  have later: "fst (getCachedData k (run_pending (snd (getDataWithCache k p w)))) = Inr v"
    if t: "truthy (cacheData r)" and e: "expiresAt r < clock w" and "pending w = []"
      and "p = Promise (Inr v)" and range: "\<bar>clock w + 15 * 60 * 1000\<bar> \<le> 8640000000000000"
    for v
  proof -
    let ?row = "\<lparr>cacheKey = k, cacheData = v, lastUpdated = clock w,
                  expiresAt = clock w + 15 * 60 * 1000\<rparr>"
    let ?u = "w\<lparr>invocations := Suc (invocations w), pending := []\<rparr>"
    have hu: "faults ?u = []" using assms(1) by simp
    have "snd (getDataWithCache k p w) =
        w\<lparr>invocations := Suc (invocations w), pending := pending w @ [(k, Inr v)]\<rparr>"
      using hit [OF t] e that(4) by blast
    then have "run_pending (snd (getDataWithCache k p w)) = snd (resume_refresh k (Inr v) ?u)"
      using that(3) by (simp add: run_pending_def)
    then have rp: "rows (run_pending (snd (getDataWithCache k p w))) = upsert_row ?row (rows w)"
      and hp: "faults (run_pending (snd (getDataWithCache k p w))) = []"
      using range setCachedData_default_rows [OF hu, of k v] setCachedData_frame [of k v None ?u] hu
      by (simp_all add: resume_refresh_resolved)
    have "find (\<lambda>x. cacheKey x = k) (upsert_row ?row (rows w)) = Some ?row"
      using upsert_row_find [of ?row "rows w"] by simp
    then show ?thesis
      using hp rp by (simp add: getCachedData_healthy)
  qed
  from hit miss bg later show ?thesis by blast
qed

lemma zero_world_state:
  "zero_world =
     \<lparr>rows = [\<lparr>cacheKey = ''admin'', cacheData = JNum 0, lastUpdated = 1000,
                expiresAt = 901000\<rparr>],
      faults = [], clock = 1000,
      console = [ConsoleLog ''Cache updated for key: admin''], invocations = 1, pending = []\<rparr>"
proof -
  have g: "getCachedData ''admin'' cold_world = (Inr JNull, cold_world)"
    by (simp add: getCachedData_healthy cold_world_def)
  let ?w2 = "cold_world\<lparr>invocations := Suc (invocations cold_world)\<rparr>"
  have h: "faults ?w2 = []" by (simp add: cold_world_def)
  have e: "expiry_date (clock ?w2) None = Valid 901000"
    using expiry_date_default [of None 1000] by (simp add: cold_world_def)
  have "zero_world = snd (setCachedData ''admin'' (JNum 0) None ?w2)"
    using cold_path [OF g, of "Promise (Inr (JNum 0))"] by (simp add: zero_world_def)
  then show ?thesis
    by (simp add: setCachedData_healthy [OF h e]) (simp add: cold_world_def upsert_row_def)
qed

text \<open>
  The scenario of the spec: \<^verbatim>\<open>admin\<close> holds \<^verbatim>\<open>{count: 5}\<close> and is expired, the producer
  resolves with \<^verbatim>\<open>{count: 6}\<close>; a read of the fresh \<^verbatim>\<open>university\<close>; a producer whose
  call throws; and a read of \<^verbatim>\<open>admin\<close> when its stored payload is 0.
\<close>

theorem getDataWithCache_on_stored_entry_witness:
  "fst (getDataWithCache ''admin'' (Promise (Inr (JObj [(''count'', JNum 6)]))) admin_world) =
     Inr \<lparr>data = JObj [(''count'', JNum 5)], fromCache = True\<rparr>
   \<and> pending (snd (getDataWithCache ''admin'' (Promise (Inr (JObj [(''count'', JNum 6)])))
        admin_world)) = [(''admin'', Inr (JObj [(''count'', JNum 6)]))]
   \<and> invocations (snd (getDataWithCache ''admin'' (Promise (Inr (JObj [(''count'', JNum 6)])))
        admin_world)) = 1
   \<and> fst (getCachedData ''admin''
        (run_pending (snd (getDataWithCache ''admin''
           (Promise (Inr (JObj [(''count'', JNum 6)]))) admin_world)))) =
       Inr (JObj [(''count'', JNum 6)])
   \<and> snd (getDataWithCache ''university'' (Promise (Inr (JNum 6))) admin_world) = admin_world
   \<and> console (snd (getDataWithCache ''admin'' (Throws (ProducerFault ''down'')) admin_world)) =
       [ConsoleError ''Background cache refresh failed for admin:'' (ProducerFault ''down'')]
   \<and> fst (getDataWithCache ''admin'' (Promise (Inr (JNum 7))) zero_world) =
       Inr \<lparr>data = JNum 7, fromCache = False\<rparr>"
proof -
  let ?r = "\<lparr>cacheKey = ''admin'', cacheData = JObj [(''count'', JNum 5)],
     lastUpdated = 0, expiresAt = 100\<rparr>"
  let ?u = "\<lparr>cacheKey = ''university'', cacheData = JArr [], lastUpdated = 100,
     expiresAt = 900100\<rparr>"
  let ?z = "\<lparr>cacheKey = ''admin'', cacheData = JNum 0, lastUpdated = 1000,
     expiresAt = 901000\<rparr>"
  let ?p = "Promise (Inr (JObj [(''count'', JNum 6)])) :: producer"
  have h: "faults admin_world = []" "unique_keys admin_world" "?r \<in> set (rows admin_world)"
    "cacheKey ?r = ''admin''"
    by (simp_all add: admin_world_def unique_keys_def)
  have hu: "?u \<in> set (rows admin_world)" "cacheKey ?u = ''university''"
    by (simp_all add: admin_world_def)
  have hz: "faults zero_world = []" "unique_keys zero_world" "?z \<in> set (rows zero_world)"
    "cacheKey ?z = ''admin''"
    by (simp_all add: zero_world_state unique_keys_def)
  have v: "expiresAt ?r < clock admin_world" "pending admin_world = []"
    "invocations admin_world = 0" "console admin_world = []"
    "\<bar>clock admin_world + 15 * 60 * 1000\<bar> \<le> 8640000000000000"
    "\<not> expiresAt ?u < clock admin_world"
    by (simp_all add: admin_world_def)
  note t = getDataWithCache_on_stored_entry [OF h, of ?p]
  note tu = getDataWithCache_on_stored_entry [OF h(1,2) hu, of "Promise (Inr (JNum 6))"]
  note tt = getDataWithCache_on_stored_entry [OF h, of "Throws (ProducerFault ''down'')"]
  note tz = getDataWithCache_on_stored_entry [OF hz, of "Promise (Inr (JNum 7))"]
  have tr: "truthy (cacheData ?r)" "truthy (cacheData ?u)" "\<not> truthy (cacheData ?z)"
    by simp_all
  from t tr(1) have "fst (getDataWithCache ''admin'' ?p admin_world) =
      Inr \<lparr>data = cacheData ?r, fromCache = True\<rparr>"
    by blast
  then have t1: "fst (getDataWithCache ''admin'' ?p admin_world) =
      Inr \<lparr>data = JObj [(''count'', JNum 5)], fromCache = True\<rparr>"
    by simp
  from t tr(1) v(1) have t2: "snd (getDataWithCache ''admin'' ?p admin_world) =
      admin_world\<lparr>invocations := Suc (invocations admin_world),
        pending := pending admin_world @ [(''admin'', Inr (JObj [(''count'', JNum 6)]))]\<rparr>"
    by blast
  from t tr(1) v(1,2,5) have t3: "fst (getCachedData ''admin''
      (run_pending (snd (getDataWithCache ''admin'' ?p admin_world)))) =
      Inr (JObj [(''count'', JNum 6)])"
    by blast
  from tu tr(2) v(6) have u1:
    "snd (getDataWithCache ''university'' (Promise (Inr (JNum 6))) admin_world) = admin_world"
    by blast
  from tt tr(1) v(1) have e1:
    "snd (getDataWithCache ''admin'' (Throws (ProducerFault ''down'')) admin_world) =
      admin_world\<lparr>invocations := Suc (invocations admin_world),
        console := console admin_world @
          [ConsoleError (''Background cache refresh failed for '' @ ''admin'' @ '':'')
             (ProducerFault ''down'')]\<rparr>"
    by blast
  from tz tr(3) have z1: "fst (getDataWithCache ''admin'' (Promise (Inr (JNum 7))) zero_world) =
       Inr \<lparr>data = JNum 7, fromCache = False\<rparr>"
    by blast
  show ?thesis
    using t1 t3 u1 z1 by (simp add: t2 e1 v)
qed

text \<open>
  The claim as written, for every stored payload, fails on a falsy one.  The table holds
  the payload 0 for \<^verbatim>\<open>admin\<close>, fresh; \<^verbatim>\<open>if (cachedData)\<close> takes it for a miss, the
  producer is called and awaited, and its payload 7 is returned with \<open>fromCache = False\<close>.
\<close>

theorem getDataWithCache_falsy_payload_counterexample:
  "rows zero_world =
     [\<lparr>cacheKey = ''admin'', cacheData = JNum 0, lastUpdated = 1000, expiresAt = 901000\<rparr>]
   \<and> clock zero_world = 1000
   \<and> fst (getDataWithCache ''admin'' (Promise (Inr (JNum 7))) zero_world) =
       Inr \<lparr>data = JNum 7, fromCache = False\<rparr>
   \<and> fst (getDataWithCache ''admin'' (Promise (Inr (JNum 7))) zero_world) \<noteq>
       Inr \<lparr>data = JNum 0, fromCache = True\<rparr>
   \<and> invocations (snd (getDataWithCache ''admin'' (Promise (Inr (JNum 7))) zero_world)) =
       Suc (invocations zero_world)
   \<and> pending (snd (getDataWithCache ''admin'' (Promise (Inr (JNum 7))) zero_world)) = []"
proof -
  have h: "faults zero_world = []" by (simp add: zero_world_state)
  have g: "getCachedData ''admin'' zero_world = (Inr (JNum 0), zero_world)"
    by (simp add: getCachedData_healthy [OF h]) (simp add: zero_world_state)
  note c = cold_path [OF g, of "Promise (Inr (JNum 7))", simplified]
  have inv: "invocations (snd (getDataWithCache ''admin'' (Promise (Inr (JNum 7))) zero_world)) =
      Suc (invocations zero_world)"
    and pend: "pending (snd (getDataWithCache ''admin'' (Promise (Inr (JNum 7))) zero_world)) =
      pending zero_world"
    using setCachedData_frame [of "''admin''" "JNum 7" None
        "zero_world\<lparr>invocations := Suc (invocations zero_world)\<rparr>"]
    by (simp_all add: c)
  have res: "fst (getDataWithCache ''admin'' (Promise (Inr (JNum 7))) zero_world) =
       Inr \<lparr>data = JNum 7, fromCache = False\<rparr>"
    by (simp add: c)
  have z: "rows zero_world =
     [\<lparr>cacheKey = ''admin'', cacheData = JNum 0, lastUpdated = 1000, expiresAt = 901000\<rparr>]"
    "clock zero_world = 1000" "pending zero_world = []"
    by (simp_all add: zero_world_state)
  show ?thesis
    unfolding res inv pend z by simp
qed

section \<open>Warm-up\<close>

lemma try_catch_console_error:
  fixes m :: "unit io"
  shows "fst (try_catch m (console_error s) w) = Inr ()"
  by (simp add: try_catch_def console_error_def split: prod.splits sum.splits)

lemma warmUpCache_returns: "fst (warmUpCache st env w) = Inr ()"
proof -
  have "warmUpCache st env w =
      try_catch
       (await (invoke (getAdminDashboard st)) (\<lambda>adminData.
        await (setCachedData ''admin'' adminData None) (\<lambda>_.
        await (invoke (getUniversityDashboard st)) (\<lambda>universityData.
        await (setCachedData ''university'' universityData None) (\<lambda>_.
        await (invoke (getBatchDashboard st ''2027'')) (\<lambda>batch2027Data.
        await (setCachedData ''batch_2027'' batch2027Data None) (\<lambda>_.
        await (invoke (getBatchDashboard st ''2028'')) (\<lambda>batch2028Data.
        await (setCachedData ''batch_2028'' batch2028Data None) (\<lambda>_.
        await (invoke (getAllStudents st)) (\<lambda>allStudents.
        let recentlyActiveStudents = take (studentLimit env) allStudents in
        await (warm_students st recentlyActiveStudents) (\<lambda>_.
        console_log ''Cache warm-up completed successfully'')))))))))))
       (console_error ''Error during cache warm-up:'')
       (w\<lparr>console := console w @ [ConsoleLog ''Starting cache warm-up...'']\<rparr>)"
    by (simp add: warmUpCache_def await_def console_log_def)
  then show ?thesis
    by (simp only: try_catch_console_error)
qed

text \<open>One round of the student loop, as a change of the world.\<close>

lemma warm_students_Cons:
  "warm_students st (s # ss) w =
     warm_students st ss
       (case (case getStudentDashboard st (student_id s) of
                Throws e \<Rightarrow> Inl e | Promise r \<Rightarrow> r) of
          Inl e \<Rightarrow>
            w\<lparr>invocations := Suc (invocations w),
              console := console w @
                [ConsoleLog (''Skipping cache for student '' @ student_id s @ '': '' @
                             error_message e)]\<rparr>
        | Inr d \<Rightarrow>
            if truthy d
            then snd (setCachedData (''student_'' @ student_id s) d None
                        (w\<lparr>invocations := Suc (invocations w)\<rparr>))
            else w\<lparr>invocations := Suc (invocations w)\<rparr>)"
proof (cases "case getStudentDashboard st (student_id s) of Throws e \<Rightarrow> Inl e | Promise r \<Rightarrow> r")
  case (Inl e)
  then show ?thesis
    by (simp add: await_def try_catch_def invoke_outcome console_log_def)
next
  case (Inr d)
  obtain w' where "setCachedData (''student_'' @ student_id s) d None
      (w\<lparr>invocations := Suc (invocations w)\<rparr>) = (Inr (), w')"
    using setCachedData_returns by blast
  with Inr show ?thesis
    by (simp add: await_def try_catch_def invoke_outcome return_def)
qed

lemma warm_students_returns: "fst (warm_students st ss w) = Inr ()"
proof (induction ss arbitrary: w)
  case Nil
  then show ?case by (simp add: return_def)
next
  case (Cons s ss)
  show ?case unfolding warm_students_Cons by (rule Cons.IH)
qed

lemma upsert_row_self: "r \<in> set (upsert_row r rs)"
proof (cases "list_ex (\<lambda>x. cacheKey x = cacheKey r) rs")
  case False
  then show ?thesis by (simp add: upsert_row_def)
next
  case True
  then have "r \<in> set (map (\<lambda>x. if cacheKey x = cacheKey r
                     then x\<lparr>cacheData := cacheData r, lastUpdated := lastUpdated r,
                            expiresAt := expiresAt r\<rparr>
                     else x) rs)"
    by (induction rs) auto
  with True show ?thesis by (simp add: upsert_row_def)
qed

lemma upsert_row_keeps:
  assumes "R \<in> set rs" and "cacheKey r = cacheKey R \<longrightarrow> r = R"
  shows "R \<in> set (upsert_row r rs)"
proof (cases "cacheKey r = cacheKey R")
  case True
  with assms(2) have "r = R" by simp
  then show ?thesis using upsert_row_self [of r rs] by simp
next
  case False
  with assms(1) have "R \<in> set (map (\<lambda>x. if cacheKey x = cacheKey r
                     then x\<lparr>cacheData := cacheData r, lastUpdated := lastUpdated r,
                            expiresAt := expiresAt r\<rparr>
                     else x) rs)"
    by (induction rs) auto
  with assms(1) show ?thesis by (simp add: upsert_row_def)
qed

lemma upsert_row_other_key:
  "cacheKey r \<noteq> K \<Longrightarrow>
   filter (\<lambda>x. cacheKey x = K) (upsert_row r rs) = filter (\<lambda>x. cacheKey x = K) rs"
proof -
  assume d: "cacheKey r \<noteq> K"
  then have "filter (\<lambda>x. cacheKey x = K)
          (map (\<lambda>x. if cacheKey x = cacheKey r
                     then x\<lparr>cacheData := cacheData r, lastUpdated := lastUpdated r,
                            expiresAt := expiresAt r\<rparr>
                     else x) rs) = filter (\<lambda>x. cacheKey x = K) rs"
    by (induction rs) auto
  with d show ?thesis by (simp add: upsert_row_def)
qed

lemma setCachedData_rows:
  "rows (snd (setCachedData k d t w)) = rows w \<or>
   (\<exists>e. rows (snd (setCachedData k d t w)) =
      upsert_row \<lparr>cacheKey = k, cacheData = d, lastUpdated = clock w, expiresAt = e\<rparr> (rows w))"
  by (auto simp: setCachedData_def try_catch_def await_def db_upsert_def db_statement_def
      return_def throw_def new_Date_def console_error_def console_log_def to_timestamp_def
      Let_def split: list.splits option.splits prod.splits js_date.splits)

lemma setCachedData_other_keys:
  assumes "k \<noteq> K"
  shows "filter (\<lambda>x. cacheKey x = K) (rows (snd (setCachedData k d t w))) =
     filter (\<lambda>x. cacheKey x = K) (rows w)"
proof -
  from setCachedData_rows [of k d t w]
  consider (same) "rows (snd (setCachedData k d t w)) = rows w"
    | (written) e where "rows (snd (setCachedData k d t w)) =
        upsert_row \<lparr>cacheKey = k, cacheData = d, lastUpdated = clock w, expiresAt = e\<rparr> (rows w)"
    by blast
  then show ?thesis
  proof cases
    case same
    then show ?thesis by simp
  next
    case written
    show ?thesis
      unfolding written using assms by (simp add: upsert_row_other_key)
  qed
qed

lemma setCachedData_console:
  "set (console w) \<subseteq> set (console (snd (setCachedData k d t w)))"
  by (auto simp: setCachedData_def try_catch_def await_def db_upsert_def db_statement_def
      return_def throw_def new_Date_def console_error_def console_log_def to_timestamp_def
      Let_def split: list.splits option.splits prod.splits js_date.splits)

text \<open>
  What one round of the loop does to the world \<open>w\<close>, in terms of the world \<open>w1\<close> the
  next round starts in.
\<close>

lemma warm_students_step:
  "\<exists>w1. warm_students st (s # ss) w = warm_students st ss w1
      \<and> clock w1 = clock w
      \<and> (faults w = [] \<longrightarrow> faults w1 = [])
      \<and> set (console w) \<subseteq> set (console w1)
      \<and> (\<forall>K. (\<forall>d. getStudentDashboard st (student_id s) = Promise (Inr d) \<and> truthy d \<longrightarrow>
                  ''student_'' @ student_id s \<noteq> K) \<longrightarrow>
             filter (\<lambda>x. cacheKey x = K) (rows w1) = filter (\<lambda>x. cacheKey x = K) (rows w))
      \<and> (\<forall>d. getStudentDashboard st (student_id s) = Promise (Inr d) \<and> truthy d \<and>
              faults w = [] \<and> \<bar>clock w + 15 * 60 * 1000\<bar> \<le> 8640000000000000 \<longrightarrow>
            rows w1 = upsert_row \<lparr>cacheKey = ''student_'' @ student_id s, cacheData = d,
                        lastUpdated = clock w, expiresAt = clock w + 15 * 60 * 1000\<rparr> (rows w))
      \<and> (\<forall>e. getStudentDashboard st (student_id s) = Promise (Inl e) \<or>
              getStudentDashboard st (student_id s) = Throws e \<longrightarrow>
            ConsoleLog (''Skipping cache for student '' @ student_id s @ '': '' @
                        error_message e) \<in> set (console w1))"
proof -
  let ?u = "w\<lparr>invocations := Suc (invocations w)\<rparr>"
  let ?k = "''student_'' @ student_id s"
  have fr: "clock (snd (setCachedData ?k d None ?u)) = clock w"
    "faults w = [] \<longrightarrow> faults (snd (setCachedData ?k d None ?u)) = []"
    "set (console w) \<subseteq> set (console (snd (setCachedData ?k d None ?u)))" for d
    using setCachedData_frame [of ?k d None ?u] setCachedData_console [of ?u ?k d None]
    by simp_all
  have ok: "?k \<noteq> K \<Longrightarrow> filter (\<lambda>x. cacheKey x = K) (rows (snd (setCachedData ?k d None ?u))) =
      filter (\<lambda>x. cacheKey x = K) (rows w)" for K d
    using setCachedData_other_keys [of ?k K d None ?u] by simp
  have wr: "faults w = [] \<Longrightarrow> \<bar>clock w + 15 * 60 * 1000\<bar> \<le> 8640000000000000 \<Longrightarrow>
      rows (snd (setCachedData ?k d None ?u)) =
        upsert_row \<lparr>cacheKey = ?k, cacheData = d, lastUpdated = clock w,
          expiresAt = clock w + 15 * 60 * 1000\<rparr> (rows w)" for d
    using setCachedData_default_rows [of ?u ?k d] by simp
  show ?thesis
    apply (subst warm_students_Cons)
    apply (rule exI, rule conjI, rule refl)
    apply (cases "getStudentDashboard st (student_id s)")
    subgoal for e by (auto simp: fr)
    subgoal for r
      apply (cases r)
      subgoal for e by (auto simp: fr)
      subgoal for d using fr [of d] ok [of _ d] wr [of d] by (cases "truthy d") auto
      done
    done
qed

lemma warm_students_basic:
  "clock (snd (warm_students st ss w)) = clock w \<and>
   (faults w = [] \<longrightarrow> faults (snd (warm_students st ss w)) = []) \<and>
   set (console w) \<subseteq> set (console (snd (warm_students st ss w)))"
proof (induction ss arbitrary: w)
  case Nil
  then show ?case by (simp add: return_def)
next
  case (Cons s ss)
  from warm_students_step [of st s ss w]
  obtain w1 where w1: "warm_students st (s # ss) w = warm_students st ss w1"
    "clock w1 = clock w" "faults w = [] \<longrightarrow> faults w1 = []"
    "set (console w) \<subseteq> set (console w1)"
    by blast
  from Cons.IH [of w1] w1(2,3,4) show ?case
    unfolding w1(1) by auto
qed

lemma warm_students_other_keys:
  "(\<forall>s\<in>set ss. \<forall>d. getStudentDashboard st (student_id s) = Promise (Inr d) \<and> truthy d \<longrightarrow>
        ''student_'' @ student_id s \<noteq> K) \<Longrightarrow>
   filter (\<lambda>x. cacheKey x = K) (rows (snd (warm_students st ss w))) =
     filter (\<lambda>x. cacheKey x = K) (rows w)"
proof (induction ss arbitrary: w)
  case Nil
  then show ?case by (simp add: return_def)
next
  case (Cons s ss)
  from warm_students_step [of st s ss w]
  obtain w1 where w1: "warm_students st (s # ss) w = warm_students st ss w1"
    and keep: "\<forall>K. (\<forall>d. getStudentDashboard st (student_id s) = Promise (Inr d) \<and> truthy d \<longrightarrow>
                  ''student_'' @ student_id s \<noteq> K) \<longrightarrow>
             filter (\<lambda>x. cacheKey x = K) (rows w1) = filter (\<lambda>x. cacheKey x = K) (rows w)"
    by blast
  from Cons.prems have here: "\<forall>d. getStudentDashboard st (student_id s) = Promise (Inr d) \<and>
      truthy d \<longrightarrow> ''student_'' @ student_id s \<noteq> K"
    and rest: "\<forall>s\<in>set ss. \<forall>d. getStudentDashboard st (student_id s) = Promise (Inr d) \<and>
      truthy d \<longrightarrow> ''student_'' @ student_id s \<noteq> K"
    by simp_all
  from keep here have "filter (\<lambda>x. cacheKey x = K) (rows w1) = filter (\<lambda>x. cacheKey x = K) (rows w)"
    by blast
  with Cons.IH [OF rest, of w1] show ?case
    unfolding w1 by simp
qed

lemma warm_students_keeps:
  "faults w = [] \<Longrightarrow> \<bar>clock w + 15 * 60 * 1000\<bar> \<le> 8640000000000000 \<Longrightarrow>
   R \<in> set (rows w) \<Longrightarrow>
   (\<forall>s\<in>set ss. \<forall>d. getStudentDashboard st (student_id s) = Promise (Inr d) \<and> truthy d \<and>
        ''student_'' @ student_id s = cacheKey R \<longrightarrow>
        R = \<lparr>cacheKey = ''student_'' @ student_id s, cacheData = d,
              lastUpdated = clock w, expiresAt = clock w + 15 * 60 * 1000\<rparr>) \<Longrightarrow>
   R \<in> set (rows (snd (warm_students st ss w)))"
proof (induction ss arbitrary: w)
  case Nil
  then show ?case by (simp add: return_def)
next
  case (Cons s ss)
  from warm_students_step [of st s ss w]
  obtain w1 where w1: "warm_students st (s # ss) w = warm_students st ss w1"
    "clock w1 = clock w" "faults w = [] \<longrightarrow> faults w1 = []"
    and keep: "\<forall>K. (\<forall>d. getStudentDashboard st (student_id s) = Promise (Inr d) \<and> truthy d \<longrightarrow>
                  ''student_'' @ student_id s \<noteq> K) \<longrightarrow>
             filter (\<lambda>x. cacheKey x = K) (rows w1) = filter (\<lambda>x. cacheKey x = K) (rows w)"
    and wr: "\<forall>d. getStudentDashboard st (student_id s) = Promise (Inr d) \<and> truthy d \<and>
              faults w = [] \<and> \<bar>clock w + 15 * 60 * 1000\<bar> \<le> 8640000000000000 \<longrightarrow>
            rows w1 = upsert_row \<lparr>cacheKey = ''student_'' @ student_id s, cacheData = d,
                        lastUpdated = clock w, expiresAt = clock w + 15 * 60 * 1000\<rparr> (rows w)"
    by blast
  have f1: "faults w1 = []" using w1(3) Cons.prems(1) by simp
  have R1: "R \<in> set (rows w1)"
  proof (cases "\<exists>d. getStudentDashboard st (student_id s) = Promise (Inr d) \<and> truthy d")
    case True
    then obtain d where d: "getStudentDashboard st (student_id s) = Promise (Inr d)" "truthy d"
      by blast
    let ?r = "\<lparr>cacheKey = ''student_'' @ student_id s, cacheData = d,
                        lastUpdated = clock w, expiresAt = clock w + 15 * 60 * 1000\<rparr>"
    from d wr Cons.prems(1,2) have rs: "rows w1 = upsert_row ?r (rows w)" by blast
    have "cacheKey ?r = cacheKey R \<longrightarrow> ?r = R"
      using Cons.prems(4) d by simp
    then show ?thesis
      unfolding rs using Cons.prems(3) by (rule upsert_row_keeps [rotated])
  next
    case False
    with keep have "filter (\<lambda>x. cacheKey x = cacheKey R) (rows w1) =
        filter (\<lambda>x. cacheKey x = cacheKey R) (rows w)"
      by blast
    moreover have "R \<in> set (filter (\<lambda>x. cacheKey x = cacheKey R) (rows w))"
      using Cons.prems(3) by simp
    ultimately have "R \<in> set (filter (\<lambda>x. cacheKey x = cacheKey R) (rows w1))"
      by simp
    then show ?thesis by simp
  qed
  have rest: "\<forall>s\<in>set ss. \<forall>d. getStudentDashboard st (student_id s) = Promise (Inr d) \<and> truthy d \<and>
        ''student_'' @ student_id s = cacheKey R \<longrightarrow>
        R = \<lparr>cacheKey = ''student_'' @ student_id s, cacheData = d,
              lastUpdated = clock w1, expiresAt = clock w1 + 15 * 60 * 1000\<rparr>"
    using Cons.prems(4) w1(2) by simp
  have range: "\<bar>clock w1 + 15 * 60 * 1000\<bar> \<le> 8640000000000000"
    using Cons.prems(2) w1(2) by simp
  show ?case
    unfolding w1(1) by (rule Cons.IH [OF f1 range R1 rest])
qed

lemma warm_students_written:
  "faults w = [] \<Longrightarrow> \<bar>clock w + 15 * 60 * 1000\<bar> \<le> 8640000000000000 \<Longrightarrow> s \<in> set ss \<Longrightarrow>
   getStudentDashboard st (student_id s) = Promise (Inr d) \<Longrightarrow> truthy d \<Longrightarrow>
   \<lparr>cacheKey = ''student_'' @ student_id s, cacheData = d,
     lastUpdated = clock w, expiresAt = clock w + 15 * 60 * 1000\<rparr>
     \<in> set (rows (snd (warm_students st ss w)))"
proof (induction ss arbitrary: w)
  case Nil
  then show ?case by simp
next
  case (Cons x ss)
  let ?R = "\<lparr>cacheKey = ''student_'' @ student_id s, cacheData = d,
     lastUpdated = clock w, expiresAt = clock w + 15 * 60 * 1000\<rparr>"
  from warm_students_step [of st x ss w]
  obtain w1 where w1: "warm_students st (x # ss) w = warm_students st ss w1"
    "clock w1 = clock w" "faults w = [] \<longrightarrow> faults w1 = []"
    and wr: "\<forall>d. getStudentDashboard st (student_id x) = Promise (Inr d) \<and> truthy d \<and>
              faults w = [] \<and> \<bar>clock w + 15 * 60 * 1000\<bar> \<le> 8640000000000000 \<longrightarrow>
            rows w1 = upsert_row \<lparr>cacheKey = ''student_'' @ student_id x, cacheData = d,
                        lastUpdated = clock w, expiresAt = clock w + 15 * 60 * 1000\<rparr> (rows w)"
    by blast
  have f1: "faults w1 = []" using w1(3) Cons.prems(1) by simp
  have range: "\<bar>clock w1 + 15 * 60 * 1000\<bar> \<le> 8640000000000000"
    using Cons.prems(2) w1(2) by simp
  show ?case
  proof (cases "student_id x = student_id s")
    case True
    with Cons.prems(1,2,4,5) wr have "rows w1 = upsert_row ?R (rows w)" by simp
    then have R1: "?R \<in> set (rows w1)" by (simp add: upsert_row_self)
    have same: "\<forall>y\<in>set ss. \<forall>e. getStudentDashboard st (student_id y) = Promise (Inr e) \<and>
        truthy e \<and> ''student_'' @ student_id y = cacheKey ?R \<longrightarrow>
        ?R = \<lparr>cacheKey = ''student_'' @ student_id y, cacheData = e,
              lastUpdated = clock w1, expiresAt = clock w1 + 15 * 60 * 1000\<rparr>"
      using Cons.prems(4) w1(2) by auto
    show ?thesis
      unfolding w1(1) by (rule warm_students_keeps [OF f1 range R1 same])
  next
    case False
    with Cons.prems(3) have "s \<in> set ss" by auto
    from Cons.IH [OF f1 range this Cons.prems(4,5)] show ?thesis
      by (simp add: w1 del: warm_students.simps)
  qed
qed

lemma warm_students_logged:
  "s \<in> set ss \<Longrightarrow>
   getStudentDashboard st (student_id s) = Promise (Inl e) \<or>
   getStudentDashboard st (student_id s) = Throws e \<Longrightarrow>
   ConsoleLog (''Skipping cache for student '' @ student_id s @ '': '' @ error_message e)
     \<in> set (console (snd (warm_students st ss w)))"
proof (induction ss arbitrary: w)
  case Nil
  then show ?case by simp
next
  case (Cons x ss)
  from warm_students_step [of st x ss w]
  obtain w1 where w1: "warm_students st (x # ss) w = warm_students st ss w1"
    and lg: "\<forall>e. getStudentDashboard st (student_id x) = Promise (Inl e) \<or>
              getStudentDashboard st (student_id x) = Throws e \<longrightarrow>
            ConsoleLog (''Skipping cache for student '' @ student_id x @ '': '' @
                        error_message e) \<in> set (console w1)"
    by blast
  show ?case
  proof (cases "student_id x = student_id s")
    case True
    from lg [unfolded True] Cons.prems(2)
    have "ConsoleLog (''Skipping cache for student '' @ student_id s @ '': '' @
        error_message e) \<in> set (console w1)" by blast
    then show ?thesis
      using warm_students_basic [of st ss w1]
      by (auto simp: w1 simp del: warm_students.simps)
  next
    case False
    with Cons.prems(1) have "s \<in> set ss" by auto
    from Cons.IH [OF this Cons.prems(2)] show ?thesis
      by (simp add: w1 del: warm_students.simps)
  qed
qed

lemma await_setCachedData:
  "await (setCachedData k d t) f w = f () (snd (setCachedData k d t w))"
  using setCachedData_returns [of k d t w] by (auto simp: await_def)

lemma await_warm_students:
  "await (warm_students st ss) f w = f () (snd (warm_students st ss w))"
  using warm_students_returns [of st ss w]
  by (cases "warm_students st ss w") (simp add: await_def)

lemma await_invoke_resolved:
  "await (invoke (Promise (Inr x))) f w = f x (w\<lparr>invocations := Suc (invocations w)\<rparr>)"
  by (simp add: await_def invoke_outcome)

text \<open>
  The run of \<^verbatim>\<open>warmUpCache\<close> when the four fixed producers and the student listing
  resolve: the student loop starts in a world \<open>w5\<close> that differs from the first one in
  the rows of the four fixed keys at most.
\<close>

lemma warmUpCache_resolved:
  assumes "getAdminDashboard st = Promise (Inr a)" and "getUniversityDashboard st = Promise (Inr u)"
    and "getBatchDashboard st ''2027'' = Promise (Inr b1)"
    and "getBatchDashboard st ''2028'' = Promise (Inr b2)"
    and "getAllStudents st = Promise (Inr students)"
  shows "\<exists>w5. (faults w = [] \<longrightarrow> faults w5 = []) \<and> clock w5 = clock w
      \<and> (\<forall>K. K \<notin> {''admin'', ''university'', ''batch_2027'', ''batch_2028''} \<longrightarrow>
            filter (\<lambda>x. cacheKey x = K) (rows w5) = filter (\<lambda>x. cacheKey x = K) (rows w))
      \<and> rows (snd (warmUpCache st env w)) =
          rows (snd (warm_students st (take (studentLimit env) students) w5))
      \<and> set (console (snd (warm_students st (take (studentLimit env) students) w5))) \<subseteq>
          set (console (snd (warmUpCache st env w)))"
proof -
  let ?w0 = "w\<lparr>console := console w @ [ConsoleLog ''Starting cache warm-up...'']\<rparr>"
  let ?i0 = "?w0\<lparr>invocations := Suc (invocations ?w0)\<rparr>"
  let ?w1 = "snd (setCachedData ''admin'' a None ?i0)"
  let ?i1 = "?w1\<lparr>invocations := Suc (invocations ?w1)\<rparr>"
  let ?w2 = "snd (setCachedData ''university'' u None ?i1)"
  let ?i2 = "?w2\<lparr>invocations := Suc (invocations ?w2)\<rparr>"
  let ?w3 = "snd (setCachedData ''batch_2027'' b1 None ?i2)"
  let ?i3 = "?w3\<lparr>invocations := Suc (invocations ?w3)\<rparr>"
  let ?w4 = "snd (setCachedData ''batch_2028'' b2 None ?i3)"
  let ?w5 = "?w4\<lparr>invocations := Suc (invocations ?w4)\<rparr>"
  let ?w6 = "snd (warm_students st (take (studentLimit env) students) ?w5)"
  have run: "warmUpCache st env w =
      (Inr (), ?w6\<lparr>console := console ?w6 @ [ConsoleLog ''Cache warm-up completed successfully'']\<rparr>)"
    by (simp add: warmUpCache_def assms await_setCachedData await_warm_students
        await_invoke_resolved try_catch_def console_log_def await_def [of "console_log _"])
  have f1: "faults w = [] \<longrightarrow> faults ?w1 = []" and c1: "clock ?w1 = clock w"
    using setCachedData_frame [of "''admin''" a None ?i0] by simp_all
  have f2: "faults w = [] \<longrightarrow> faults ?w2 = []" and c2: "clock ?w2 = clock w"
    using setCachedData_frame [of "''university''" u None ?i1] f1 c1 by simp_all
  have f3: "faults w = [] \<longrightarrow> faults ?w3 = []" and c3: "clock ?w3 = clock w"
    using setCachedData_frame [of "''batch_2027''" b1 None ?i2] f2 c2 by simp_all
  have f4: "faults w = [] \<longrightarrow> faults ?w4 = []" and c4: "clock ?w4 = clock w"
    using setCachedData_frame [of "''batch_2028''" b2 None ?i3] f3 c3 by simp_all
  have f: "faults w = [] \<longrightarrow> faults ?w5 = []" and c: "clock ?w5 = clock w"
    using f4 c4 by simp_all
  have k: "filter (\<lambda>x. cacheKey x = K) (rows ?w5) = filter (\<lambda>x. cacheKey x = K) (rows w)"
    if "K \<notin> {''admin'', ''university'', ''batch_2027'', ''batch_2028''}" for K
  proof -
    from that have n: "''admin'' \<noteq> K" "''university'' \<noteq> K" "''batch_2027'' \<noteq> K"
      "''batch_2028'' \<noteq> K" by auto
    have "filter (\<lambda>x. cacheKey x = K) (rows ?w1) = filter (\<lambda>x. cacheKey x = K) (rows w)"
      using setCachedData_other_keys [OF n(1), of a None ?i0] by simp
    moreover have "filter (\<lambda>x. cacheKey x = K) (rows ?w2) = filter (\<lambda>x. cacheKey x = K) (rows ?w1)"
      using setCachedData_other_keys [OF n(2), of u None ?i1] by simp
    moreover have "filter (\<lambda>x. cacheKey x = K) (rows ?w3) = filter (\<lambda>x. cacheKey x = K) (rows ?w2)"
      using setCachedData_other_keys [OF n(3), of b1 None ?i2] by simp
    moreover have "filter (\<lambda>x. cacheKey x = K) (rows ?w4) = filter (\<lambda>x. cacheKey x = K) (rows ?w3)"
      using setCachedData_other_keys [OF n(4), of b2 None ?i3] by simp
    moreover have "rows ?w5 = rows ?w4" by simp
    ultimately show ?thesis by (simp only:)
  qed
  have r: "rows (snd (warmUpCache st env w)) = rows ?w6"
    by (simp add: run)
  have l: "set (console ?w6) \<subseteq> set (console (snd (warmUpCache st env w)))"
    by (auto simp: run)
  from f c k r l show ?thesis by blast
qed

text \<open>
  Claim C4, as the code has it.  \<^verbatim>\<open>warmUpCache\<close> never raises, whatever the producers and
  the storage do.  The students it warms are the first \<open>N\<close> of the list in the order
  given, with \<open>N = 20\<close> in production mode and \<open>N = 50\<close> in every other mode, the unset
  one included.  When the four fixed producers and the student listing resolve, then for
  every student among those \<open>N\<close>, whatever the producers of the other students do:
  if its producer resolves with a truthy payload, the storage works and the expiry time
  is in the range of a date, the entry \<^verbatim>\<open>student_<id>\<close> is in the table afterwards with
  that payload and the default life; if its producer resolves with a falsy payload, the
  student is skipped and the rows of its key are those from before; if its producer
  throws or rejects, the failure is printed on the console and the rows of its key are
  those from before.  For every key that is neither one of the four fixed keys nor the
  key of one of the \<open>N\<close> selected students whose producer resolves with a truthy payload,
  so also for the students beyond the cap, the rows of the key are those from before.
\<close>

theorem warmUpCache_best_effort:
  "fst (warmUpCache st env w) = Inr ()
   \<and> studentLimit (Some ''production'') = 20
   \<and> (env \<noteq> Some ''production'' \<longrightarrow> studentLimit env = 50)
   \<and> (getAdminDashboard st = Promise (Inr a) \<longrightarrow>
        getUniversityDashboard st = Promise (Inr u) \<longrightarrow>
        getBatchDashboard st ''2027'' = Promise (Inr b1) \<longrightarrow>
        getBatchDashboard st ''2028'' = Promise (Inr b2) \<longrightarrow>
        getAllStudents st = Promise (Inr students) \<longrightarrow>
          (\<forall>s\<in>set (take (studentLimit env) students).
              (\<forall>d. getStudentDashboard st (student_id s) = Promise (Inr d) \<and> truthy d \<and>
                    faults w = [] \<and> \<bar>clock w + 15 * 60 * 1000\<bar> \<le> 8640000000000000 \<longrightarrow>
                  \<lparr>cacheKey = ''student_'' @ student_id s, cacheData = d,
                    lastUpdated = clock w, expiresAt = clock w + 15 * 60 * 1000\<rparr>
                    \<in> set (rows (snd (warmUpCache st env w))))
            \<and> (\<forall>d. getStudentDashboard st (student_id s) = Promise (Inr d) \<and> \<not> truthy d \<longrightarrow>
                  filter (\<lambda>r. cacheKey r = ''student_'' @ student_id s)
                      (rows (snd (warmUpCache st env w))) =
                    filter (\<lambda>r. cacheKey r = ''student_'' @ student_id s) (rows w))
            \<and> (\<forall>e. getStudentDashboard st (student_id s) = Promise (Inl e) \<or>
                    getStudentDashboard st (student_id s) = Throws e \<longrightarrow>
                  ConsoleLog (''Skipping cache for student '' @ student_id s @ '': '' @
                              error_message e)
                    \<in> set (console (snd (warmUpCache st env w)))
                  \<and> filter (\<lambda>r. cacheKey r = ''student_'' @ student_id s)
                      (rows (snd (warmUpCache st env w))) =
                    filter (\<lambda>r. cacheKey r = ''student_'' @ student_id s) (rows w)))
        \<and> (\<forall>K. K \<notin> {''admin'', ''university'', ''batch_2027'', ''batch_2028''} \<and>
                (\<forall>s\<in>set (take (studentLimit env) students).
                    \<forall>d. getStudentDashboard st (student_id s) = Promise (Inr d) \<and> truthy d \<longrightarrow>
                        ''student_'' @ student_id s \<noteq> K) \<longrightarrow>
              filter (\<lambda>r. cacheKey r = K) (rows (snd (warmUpCache st env w))) =
                filter (\<lambda>r. cacheKey r = K) (rows w)))"
proof -
  have cap: "studentLimit (Some ''production'') = 20"
    "env \<noteq> Some ''production'' \<longrightarrow> studentLimit env = 50"
    by (simp_all add: studentLimit_def PRODUCTION_WARMUP_LIMIT_def)
  have resolved:
    "(\<forall>s\<in>set (take (studentLimit env) students).
              (\<forall>d. getStudentDashboard st (student_id s) = Promise (Inr d) \<and> truthy d \<and>
                    faults w = [] \<and> \<bar>clock w + 15 * 60 * 1000\<bar> \<le> 8640000000000000 \<longrightarrow>
                  \<lparr>cacheKey = ''student_'' @ student_id s, cacheData = d,
                    lastUpdated = clock w, expiresAt = clock w + 15 * 60 * 1000\<rparr>
                    \<in> set (rows (snd (warmUpCache st env w))))
            \<and> (\<forall>d. getStudentDashboard st (student_id s) = Promise (Inr d) \<and> \<not> truthy d \<longrightarrow>
                  filter (\<lambda>r. cacheKey r = ''student_'' @ student_id s)
                      (rows (snd (warmUpCache st env w))) =
                    filter (\<lambda>r. cacheKey r = ''student_'' @ student_id s) (rows w))
            \<and> (\<forall>e. getStudentDashboard st (student_id s) = Promise (Inl e) \<or>
                    getStudentDashboard st (student_id s) = Throws e \<longrightarrow>
                  ConsoleLog (''Skipping cache for student '' @ student_id s @ '': '' @
                              error_message e)
                    \<in> set (console (snd (warmUpCache st env w)))
                  \<and> filter (\<lambda>r. cacheKey r = ''student_'' @ student_id s)
                      (rows (snd (warmUpCache st env w))) =
                    filter (\<lambda>r. cacheKey r = ''student_'' @ student_id s) (rows w)))
        \<and> (\<forall>K. K \<notin> {''admin'', ''university'', ''batch_2027'', ''batch_2028''} \<and>
                (\<forall>s\<in>set (take (studentLimit env) students).
                    \<forall>d. getStudentDashboard st (student_id s) = Promise (Inr d) \<and> truthy d \<longrightarrow>
                        ''student_'' @ student_id s \<noteq> K) \<longrightarrow>
              filter (\<lambda>r. cacheKey r = K) (rows (snd (warmUpCache st env w))) =
                filter (\<lambda>r. cacheKey r = K) (rows w))"
    if h: "getAdminDashboard st = Promise (Inr a)" "getUniversityDashboard st = Promise (Inr u)"
      "getBatchDashboard st ''2027'' = Promise (Inr b1)"
      "getBatchDashboard st ''2028'' = Promise (Inr b2)"
      "getAllStudents st = Promise (Inr students)"
  proof -
    let ?ss = "take (studentLimit env) students"
    from warmUpCache_resolved [OF h, of w env]
    obtain w5 where w5: "faults w = [] \<longrightarrow> faults w5 = []" "clock w5 = clock w"
      and k5: "\<forall>K. K \<notin> {''admin'', ''university'', ''batch_2027'', ''batch_2028''} \<longrightarrow>
            filter (\<lambda>x. cacheKey x = K) (rows w5) = filter (\<lambda>x. cacheKey x = K) (rows w)"
      and r: "rows (snd (warmUpCache st env w)) = rows (snd (warm_students st ?ss w5))"
      and l: "set (console (snd (warm_students st ?ss w5))) \<subseteq>
          set (console (snd (warmUpCache st env w)))"
      by blast
    have written: "\<lparr>cacheKey = ''student_'' @ student_id s, cacheData = d,
          lastUpdated = clock w, expiresAt = clock w + 15 * 60 * 1000\<rparr>
          \<in> set (rows (snd (warmUpCache st env w)))"
      if "s \<in> set ?ss" "getStudentDashboard st (student_id s) = Promise (Inr d)" "truthy d"
        "faults w = []" "\<bar>clock w + 15 * 60 * 1000\<bar> \<le> 8640000000000000" for s d
    proof -
      from that(4) w5(1) have f: "faults w5 = []" by simp
      from that(5) have g: "\<bar>clock w5 + 15 * 60 * 1000\<bar> \<le> 8640000000000000"
        by (simp only: w5(2))
      from warm_students_written [OF f g that(1,2,3)] show ?thesis
        unfolding r w5(2) .
    qed
    have logged: "ConsoleLog (''Skipping cache for student '' @ student_id s @ '': '' @
          error_message e) \<in> set (console (snd (warmUpCache st env w)))"
      if "s \<in> set ?ss" "getStudentDashboard st (student_id s) = Promise (Inl e) \<or>
          getStudentDashboard st (student_id s) = Throws e" for s e
      using warm_students_logged [OF that, of w5] l by blast
    have other: "filter (\<lambda>r. cacheKey r = K) (rows (snd (warmUpCache st env w))) =
          filter (\<lambda>r. cacheKey r = K) (rows w)"
      if "K \<notin> {''admin'', ''university'', ''batch_2027'', ''batch_2028''}"
        "\<forall>s\<in>set ?ss. \<forall>d. getStudentDashboard st (student_id s) = Promise (Inr d) \<and> truthy d \<longrightarrow>
            ''student_'' @ student_id s \<noteq> K" for K
    proof -
      from k5 that(1) have "filter (\<lambda>x. cacheKey x = K) (rows w5) =
          filter (\<lambda>x. cacheKey x = K) (rows w)" by blast
      with warm_students_other_keys [OF that(2), of w5] show ?thesis
        unfolding r by simp
    qed
    have fixed: "''student_'' @ i \<notin> {''admin'', ''university'', ''batch_2027'', ''batch_2028''}"
      for i by simp
    have skipped: "filter (\<lambda>r. cacheKey r = ''student_'' @ student_id s)
          (rows (snd (warmUpCache st env w))) =
        filter (\<lambda>r. cacheKey r = ''student_'' @ student_id s) (rows w)"
      if "\<forall>d. getStudentDashboard st (student_id s) = Promise (Inr d) \<longrightarrow> \<not> truthy d" for s
    proof (rule other [OF fixed])
      show "\<forall>x\<in>set ?ss. \<forall>d. getStudentDashboard st (student_id x) = Promise (Inr d) \<and> truthy d \<longrightarrow>
            ''student_'' @ student_id x \<noteq> ''student_'' @ student_id s"
        using that by auto
    qed
    have falsy: "filter (\<lambda>r. cacheKey r = ''student_'' @ student_id s)
          (rows (snd (warmUpCache st env w))) =
        filter (\<lambda>r. cacheKey r = ''student_'' @ student_id s) (rows w)"
      if "getStudentDashboard st (student_id s) = Promise (Inr d)" "\<not> truthy d" for s d
      by (rule skipped) (simp add: that)
    have failing: "filter (\<lambda>r. cacheKey r = ''student_'' @ student_id s)
          (rows (snd (warmUpCache st env w))) =
        filter (\<lambda>r. cacheKey r = ''student_'' @ student_id s) (rows w)"
      if "getStudentDashboard st (student_id s) = Promise (Inl e) \<or>
          getStudentDashboard st (student_id s) = Throws e" for s e
      by (rule skipped) (use that in auto)
    have each: "(\<forall>d. getStudentDashboard st (student_id s) = Promise (Inr d) \<and> truthy d \<and>
                    faults w = [] \<and> \<bar>clock w + 15 * 60 * 1000\<bar> \<le> 8640000000000000 \<longrightarrow>
                  \<lparr>cacheKey = ''student_'' @ student_id s, cacheData = d,
                    lastUpdated = clock w, expiresAt = clock w + 15 * 60 * 1000\<rparr>
                    \<in> set (rows (snd (warmUpCache st env w))))
            \<and> (\<forall>d. getStudentDashboard st (student_id s) = Promise (Inr d) \<and> \<not> truthy d \<longrightarrow>
                  filter (\<lambda>r. cacheKey r = ''student_'' @ student_id s)
                      (rows (snd (warmUpCache st env w))) =
                    filter (\<lambda>r. cacheKey r = ''student_'' @ student_id s) (rows w))
            \<and> (\<forall>e. getStudentDashboard st (student_id s) = Promise (Inl e) \<or>
                    getStudentDashboard st (student_id s) = Throws e \<longrightarrow>
                  ConsoleLog (''Skipping cache for student '' @ student_id s @ '': '' @
                              error_message e)
                    \<in> set (console (snd (warmUpCache st env w)))
                  \<and> filter (\<lambda>r. cacheKey r = ''student_'' @ student_id s)
                      (rows (snd (warmUpCache st env w))) =
                    filter (\<lambda>r. cacheKey r = ''student_'' @ student_id s) (rows w))"
      if s: "s \<in> set ?ss" for s
    proof (intro conjI allI impI)
      fix d
      assume "getStudentDashboard st (student_id s) = Promise (Inr d) \<and> truthy d \<and>
          faults w = [] \<and> \<bar>clock w + 15 * 60 * 1000\<bar> \<le> 8640000000000000"
      then show "\<lparr>cacheKey = ''student_'' @ student_id s, cacheData = d,
          lastUpdated = clock w, expiresAt = clock w + 15 * 60 * 1000\<rparr>
          \<in> set (rows (snd (warmUpCache st env w)))"
        using written [OF s] by blast
    next
      fix d
      assume "getStudentDashboard st (student_id s) = Promise (Inr d) \<and> \<not> truthy d"
      then show "filter (\<lambda>r. cacheKey r = ''student_'' @ student_id s)
            (rows (snd (warmUpCache st env w))) =
          filter (\<lambda>r. cacheKey r = ''student_'' @ student_id s) (rows w)"
        using falsy by blast
    next
      fix e
      assume "getStudentDashboard st (student_id s) = Promise (Inl e) \<or>
          getStudentDashboard st (student_id s) = Throws e"
      then show "ConsoleLog (''Skipping cache for student '' @ student_id s @ '': '' @
          error_message e) \<in> set (console (snd (warmUpCache st env w)))"
        by (rule logged [OF s])
    next
      fix e
      assume "getStudentDashboard st (student_id s) = Promise (Inl e) \<or>
          getStudentDashboard st (student_id s) = Throws e"
      then show "filter (\<lambda>r. cacheKey r = ''student_'' @ student_id s)
            (rows (snd (warmUpCache st env w))) =
          filter (\<lambda>r. cacheKey r = ''student_'' @ student_id s) (rows w)"
        by (rule failing)
    qed
    show ?thesis
    proof (intro conjI ballI allI impI)
      fix K
      assume "K \<notin> {''admin'', ''university'', ''batch_2027'', ''batch_2028''} \<and>
          (\<forall>s\<in>set ?ss. \<forall>d. getStudentDashboard st (student_id s) = Promise (Inr d) \<and> truthy d \<longrightarrow>
              ''student_'' @ student_id s \<noteq> K)"
      then show "filter (\<lambda>r. cacheKey r = K) (rows (snd (warmUpCache st env w))) =
          filter (\<lambda>r. cacheKey r = K) (rows w)"
        using other by blast
    qed (use each in blast)+
  qed
  show ?thesis
  proof (intro conjI)
    show "fst (warmUpCache st env w) = Inr ()" by (rule warmUpCache_returns)
  qed (use cap resolved in blast)+
qed

text \<open>
  Twenty-five students in production mode: the first and the twentieth are cached, the
  seventh fails and is logged, the ninth resolves with \<^verbatim>\<open>null\<close> and gets no entry, the
  twenty-first is beyond the cap and gets no entry.
\<close>

theorem warmUpCache_best_effort_witness:
  "fst (warmUpCache class_storage (Some ''production'') cold_world) = Inr ()
   \<and> \<lparr>cacheKey = ''student_101'', cacheData = JStr ''101'', lastUpdated = 1000,
       expiresAt = 901000\<rparr>
       \<in> set (rows (snd (warmUpCache class_storage (Some ''production'') cold_world)))
   \<and> \<lparr>cacheKey = ''student_120'', cacheData = JStr ''120'', lastUpdated = 1000,
       expiresAt = 901000\<rparr>
       \<in> set (rows (snd (warmUpCache class_storage (Some ''production'') cold_world)))
   \<and> ConsoleLog ''Skipping cache for student 107: no data''
       \<in> set (console (snd (warmUpCache class_storage (Some ''production'') cold_world)))
   \<and> filter (\<lambda>r. cacheKey r = ''student_107'')
       (rows (snd (warmUpCache class_storage (Some ''production'') cold_world))) = []
   \<and> filter (\<lambda>r. cacheKey r = ''student_109'')
       (rows (snd (warmUpCache class_storage (Some ''production'') cold_world))) = []
   \<and> filter (\<lambda>r. cacheKey r = ''student_121'')
       (rows (snd (warmUpCache class_storage (Some ''production'') cold_world))) = []"
proof -
  let ?w = "snd (warmUpCache class_storage (Some ''production'') cold_world)"
  let ?ss = "take (studentLimit (Some ''production'')) cohort"
  have h: "getAdminDashboard class_storage = Promise (Inr (JObj [(''count'', JNum 5)]))"
    "getUniversityDashboard class_storage = Promise (Inr (JObj []))"
    "getBatchDashboard class_storage ''2027'' = Promise (Inr (JStr ''2027''))"
    "getBatchDashboard class_storage ''2028'' = Promise (Inr (JStr ''2028''))"
    "getAllStudents class_storage = Promise (Inr cohort)"
    by (simp_all add: class_storage_def)
  have sel: "?ss = map (\<lambda>i. \<lparr>student_id = i\<rparr>)
     [''101'', ''102'', ''103'', ''104'', ''105'', ''106'', ''107'', ''108'', ''109'', ''110'',
      ''111'', ''112'', ''113'', ''114'', ''115'', ''116'', ''117'', ''118'', ''119'', ''120'']"
    by (simp add: studentLimit_def PRODUCTION_WARMUP_LIMIT_def cohort_def)
  have c: "clock cold_world = 1000" "faults cold_world = []" "rows cold_world = []"
    by (simp_all add: cold_world_def)
  have p: "getStudentDashboard class_storage i =
      (if i = ''107'' then Promise (Inl (ProducerFault ''no data''))
       else if i = ''109'' then Promise (Inr JNull) else Promise (Inr (JStr i)))" for i
    by (simp add: class_storage_def)
  have m: "\<lparr>student_id = ''101''\<rparr> \<in> set ?ss" "\<lparr>student_id = ''120''\<rparr> \<in> set ?ss"
    "\<lparr>student_id = ''107''\<rparr> \<in> set ?ss" "\<lparr>student_id = ''109''\<rparr> \<in> set ?ss"
    unfolding sel by simp_all
  note t = warmUpCache_best_effort [of class_storage "Some ''production''" cold_world
      "JObj [(''count'', JNum 5)]" "JObj []" "JStr ''2027''" "JStr ''2028''" cohort]
  from t have ret: "fst (warmUpCache class_storage (Some ''production'') cold_world) = Inr ()"
    by (rule conjunct1)
  note t4 = t [THEN conjunct2, THEN conjunct2, THEN conjunct2, THEN mp, OF h(1), THEN mp, OF h(2),
      THEN mp, OF h(3), THEN mp, OF h(4), THEN mp, OF h(5)]
  note each = t4 [THEN conjunct1]
  note other = t4 [THEN conjunct2]
  from bspec [OF each m(1)]
  have s1: "\<lparr>cacheKey = ''student_101'', cacheData = JStr ''101'',
      lastUpdated = 1000, expiresAt = 901000\<rparr> \<in> set (rows ?w)"
    by (simp add: c p)
  from bspec [OF each m(2)]
  have s20: "\<lparr>cacheKey = ''student_120'', cacheData = JStr ''120'',
      lastUpdated = 1000, expiresAt = 901000\<rparr> \<in> set (rows ?w)"
    by (simp add: c p)
  from bspec [OF each m(3)]
  have s7: "ConsoleLog ''Skipping cache for student 107: no data'' \<in> set (console ?w)"
    "filter (\<lambda>r. cacheKey r = ''student_107'') (rows ?w) = []"
    by (simp_all add: c p)
  from bspec [OF each m(4)]
  have s9: "filter (\<lambda>r. cacheKey r = ''student_109'') (rows ?w) = []"
    by (simp add: c p)
  have "''student_121'' \<notin> {''admin'', ''university'', ''batch_2027'', ''batch_2028''} \<and>
      (\<forall>s\<in>set ?ss. \<forall>d. getStudentDashboard class_storage (student_id s) = Promise (Inr d) \<and>
          truthy d \<longrightarrow> ''student_'' @ student_id s \<noteq> ''student_121'')"
    unfolding sel by simp
  with other [THEN spec, of "''student_121''"]
  have "filter (\<lambda>r. cacheKey r = ''student_121'') (rows ?w) =
      filter (\<lambda>r. cacheKey r = ''student_121'') (rows cold_world)"
    by (rule mp)
  then have s21: "filter (\<lambda>r. cacheKey r = ''student_121'') (rows ?w) = []"
    by (simp add: c)
  from ret s1 s20 s7 s9 s21 show ?thesis by blast
qed

text \<open>
  The claim as written, that every student whose producer does not fail gets its entry,
  fails when the producer resolves with a falsy payload: \<^verbatim>\<open>if (studentData)\<close> skips the
  write.  Student 42's producer resolves with \<^verbatim>\<open>null\<close>; nothing is skipped on the
  console and the table ends with the four fixed keys only.
\<close>

theorem warmUpCache_falsy_student_counterexample:
  "getStudentDashboard null_storage ''42'' = Promise (Inr JNull)
   \<and> fst (warmUpCache null_storage None cold_world) = Inr ()
   \<and> map cacheKey (rows (snd (warmUpCache null_storage None cold_world))) =
       [''admin'', ''university'', ''batch_2027'', ''batch_2028'']
   \<and> console (snd (warmUpCache null_storage None cold_world)) =
       [ConsoleLog ''Starting cache warm-up...'',
        ConsoleLog ''Cache updated for key: admin'',
        ConsoleLog ''Cache updated for key: university'',
        ConsoleLog ''Cache updated for key: batch_2027'',
        ConsoleLog ''Cache updated for key: batch_2028'',
        ConsoleLog ''Cache warm-up completed successfully'']"
proof -
  have e: "expiry_date 1000 None = Valid 901000"
    using expiry_date_default [of None 1000] by simp
  have s: "setCachedData k d None x =
     (Inr (), x\<lparr>rows := upsert_row \<lparr>cacheKey = k, cacheData = d, lastUpdated = 1000,
                                     expiresAt = 901000\<rparr> (rows x),
               console := console x @ [ConsoleLog (''Cache updated for key: '' @ k)]\<rparr>)"
    if "faults x = []" "clock x = 1000" for k d x
    using setCachedData_healthy [of x None 901000 k d] e that by simp
  show ?thesis
    by (simp add: null_storage_def cold_world_def warmUpCache_def await_def try_catch_def
        invoke_outcome console_log_def return_def s upsert_row_def studentLimit_def
        PRODUCTION_WARMUP_LIMIT_def)
qed


section \<open>Storage faults\<close>

lemma cleanup_tick_returns: "fst (cleanup_tick w) = Inr ()"
  using clearExpiredCache_returns [of w] by (auto simp: cleanup_tick_def await_def return_def)

lemma setCachedData_fault_rows:
  assumes "faults w = Some m # fs"
  shows "rows (snd (setCachedData k d t w)) = rows w"
proof (cases "expiry_date (clock w) t")
  case (Valid e)
  with assms show ?thesis by (simp add: setCachedData_fault)
next
  case Invalid
  then show ?thesis by (simp add: setCachedData_invalid)
qed

lemma getDataWithCache_only_producer_errors:
  assumes "fst (getDataWithCache k p w) = Inl e"
  shows "p = Promise (Inl e) \<or> p = Throws e"
proof -
  obtain c w1 where g: "getCachedData k w = (Inr c, w1)"
    using getCachedData_returns by blast
  show ?thesis
  proof (cases "truthy c")
    case True
    obtain b w2 where "isCacheExpired k w1 = (Inr b, w2)"
      using isCacheExpired_returns by blast
    from warm_path [OF g True this, of p] assms show ?thesis by simp
  next
    case False
    from cold_path [OF g False, of p] assms show ?thesis
      by (auto split: async_fn.splits sum.splits)
  qed
qed

text \<open>
  Claim C5.  No storage fault leaves the service.  In every world, whatever the database
  statements are about to do, \<^verbatim>\<open>getCachedData\<close>, \<^verbatim>\<open>isCacheExpired\<close>, \<^verbatim>\<open>setCachedData\<close>,
  \<^verbatim>\<open>clearExpiredCache\<close>, \<^verbatim>\<open>clearCache\<close>, \<^verbatim>\<open>clearAllCache\<close>, the detached refresh (as a
  whole, and its start and its resumption each), \<^verbatim>\<open>warmUpCache\<close> and the cleanup timer's
  callback return normally, and the only error \<^verbatim>\<open>getDataWithCache\<close> can raise is the one
  its producer threw or rejected with.  When the statement at
  hand throws: the read makes \<^verbatim>\<open>getCachedData\<close> answer \<^verbatim>\<open>null\<close>, the expiry check makes
  \<^verbatim>\<open>isCacheExpired\<close> answer true, the write makes \<^verbatim>\<open>setCachedData\<close> return with the
  table untouched, the sweep reports 0.  In \<^verbatim>\<open>getDataWithCache\<close> the producer's payload
  still reaches the caller, both when the read throws and when, on a cold key, the read
  succeeds and the write throws.
\<close>

theorem storage_faults_are_absorbed:
  "(\<exists>x. fst (getCachedData k w) = Inr x)
   \<and> (\<exists>b. fst (isCacheExpired k w) = Inr b)
   \<and> fst (setCachedData k v ttl w) = Inr ()
   \<and> (\<exists>n. fst (clearExpiredCache w) = Inr n)
   \<and> fst (clearCache k w) = Inr ()
   \<and> fst (clearAllCache w) = Inr ()
   \<and> fst (refreshCacheInBackground k p w) = Inr ()
   \<and> fst (spawn_refresh k p w) = Inr ()
   \<and> fst (resume_refresh k r w) = Inr ()
   \<and> fst (warmUpCache st env w) = Inr ()
   \<and> fst (cleanup_tick w) = Inr ()
   \<and> (\<forall>e. fst (getDataWithCache k p w) = Inl e \<longrightarrow> p = Promise (Inl e) \<or> p = Throws e)
   \<and> (\<forall>m fs. faults w = Some m # fs \<longrightarrow>
          fst (getCachedData k w) = Inr JNull
        \<and> fst (isCacheExpired k w) = Inr True
        \<and> rows (snd (setCachedData k v ttl w)) = rows w
        \<and> fst (clearExpiredCache w) = Inr 0
        \<and> fst (getDataWithCache k (Promise (Inr v)) w) = Inr \<lparr>data = v, fromCache = False\<rparr>)
   \<and> (\<forall>m fs. faults w = None # Some m # fs \<longrightarrow> (\<forall>r\<in>set (rows w). cacheKey r \<noteq> k) \<longrightarrow>
          fst (getDataWithCache k (Promise (Inr v)) w) = Inr \<lparr>data = v, fromCache = False\<rparr>
        \<and> rows (snd (getDataWithCache k (Promise (Inr v)) w)) = rows w)"
proof -
  have total: "(\<exists>x. fst (getCachedData k w) = Inr x)" "(\<exists>b. fst (isCacheExpired k w) = Inr b)"
    "fst (setCachedData k v ttl w) = Inr ()" "(\<exists>n. fst (clearExpiredCache w) = Inr n)"
    "fst (clearCache k w) = Inr ()" "fst (clearAllCache w) = Inr ()"
    using getCachedData_returns [of k w] isCacheExpired_returns [of k w]
      setCachedData_returns [of k v ttl w] clearExpiredCache_returns [of w]
      clearCache_returns [of k w] clearAllCache_returns [of w]
    by auto
  have bg: "fst (refreshCacheInBackground k p w) = Inr ()"
    "fst (spawn_refresh k p w) = Inr ()" "fst (resume_refresh k r w) = Inr ()"
    using refreshCacheInBackground_returns [of k p w] resume_refresh_returns [of k r w]
    by (simp_all add: spawn_refresh_outcome)
  have only: "\<forall>e. fst (getDataWithCache k p w) = Inl e \<longrightarrow> p = Promise (Inl e) \<or> p = Throws e"
    using getDataWithCache_only_producer_errors by blast
  have read_fault: "fst (getCachedData k w) = Inr JNull
        \<and> fst (isCacheExpired k w) = Inr True
        \<and> rows (snd (setCachedData k v ttl w)) = rows w
        \<and> fst (clearExpiredCache w) = Inr 0
        \<and> fst (getDataWithCache k (Promise (Inr v)) w) = Inr \<lparr>data = v, fromCache = False\<rparr>"
    if f: "faults w = Some m # fs" for m fs
  proof -
    have "fst (clearExpiredCache w) = Inr 0"
      using f by (simp add: clearExpiredCache_def try_catch_def await_def new_Date_def
          db_delete_where_def db_statement_throws console_error_def return_def)
    moreover have "fst (getDataWithCache k (Promise (Inr v)) w) = Inr \<lparr>data = v, fromCache = False\<rparr>"
      using cold_path [OF getCachedData_fault [OF f, of k], of "Promise (Inr v)"] by simp
    ultimately show ?thesis
      using f by (simp add: getCachedData_fault isCacheExpired_fault setCachedData_fault_rows)
  qed
  have write_fault: "fst (getDataWithCache k (Promise (Inr v)) w) = Inr \<lparr>data = v, fromCache = False\<rparr>
        \<and> rows (snd (getDataWithCache k (Promise (Inr v)) w)) = rows w"
    if f: "faults w = None # Some m # fs" and cold: "\<forall>r\<in>set (rows w). cacheKey r \<noteq> k" for m fs
  proof -
    obtain w1 where g: "getCachedData k w = (Inr JNull, w1)"
      using getCachedData_absent [OF cold] by (metis prod.collapse)
    have f1: "rows w1 = rows w" "faults w1 = Some m # fs"
      using getCachedData_frame [of k w] g f by simp_all
    let ?w2 = "w1\<lparr>invocations := Suc (invocations w1)\<rparr>"
    have f2: "faults ?w2 = Some m # fs" using f1 by simp
    have "rows (snd (setCachedData k v None ?w2)) = rows w"
      using f1 by (simp add: setCachedData_fault_rows [OF f2])
    then show ?thesis
      using cold_path [OF g, of "Promise (Inr v)"] by simp
  qed
  from total bg warmUpCache_returns [of st env w] cleanup_tick_returns [of w] only
    read_fault write_fault
  show ?thesis by blast
qed

text \<open>
  The scenario state with a database that throws on the next statement, and the empty
  table with a database that reads and then fails to write.
\<close>

theorem storage_faults_are_absorbed_witness:
  "fst (getCachedData ''admin'' (admin_world\<lparr>faults := [Some ''connection lost'']\<rparr>)) = Inr JNull
   \<and> fst (isCacheExpired ''university'' (admin_world\<lparr>faults := [Some ''connection lost'']\<rparr>)) =
       Inr True
   \<and> fst (setCachedData ''admin'' (JNum 6) None
        (admin_world\<lparr>faults := [Some ''connection lost'']\<rparr>)) = Inr ()
   \<and> rows (snd (setCachedData ''admin'' (JNum 6) None
        (admin_world\<lparr>faults := [Some ''connection lost'']\<rparr>))) = rows admin_world
   \<and> fst (getDataWithCache ''admin'' (Promise (Inr (JNum 6)))
        (admin_world\<lparr>faults := [Some ''connection lost'']\<rparr>)) =
       Inr \<lparr>data = JNum 6, fromCache = False\<rparr>
   \<and> fst (getDataWithCache ''admin'' (Promise (Inr (JNum 6)))
        (cold_world\<lparr>faults := [None, Some ''disk full'']\<rparr>)) =
       Inr \<lparr>data = JNum 6, fromCache = False\<rparr>
   \<and> rows (snd (getDataWithCache ''admin'' (Promise (Inr (JNum 6)))
        (cold_world\<lparr>faults := [None, Some ''disk full'']\<rparr>))) = []"
proof -
  let ?lost = "admin_world\<lparr>faults := [Some ''connection lost'']\<rparr>"
  let ?full = "cold_world\<lparr>faults := [None, Some ''disk full'']\<rparr>"
  have l: "faults ?lost = Some ''connection lost'' # []" "rows ?lost = rows admin_world"
    by simp_all
  have f: "faults ?full = None # Some ''disk full'' # []" "rows ?full = []"
    "\<forall>r\<in>set (rows ?full). cacheKey r \<noteq> ''admin''"
    by (simp_all add: cold_world_def)
  note a = storage_faults_are_absorbed [of "''admin''" ?lost "JNum 6" None "Promise (Inr (JNum 6))"
      "Inr (JNum 6)" class_storage None]
  note b = storage_faults_are_absorbed [of "''university''" ?lost "JNum 6" None "Promise (Inr (JNum 6))"
      "Inr (JNum 6)" class_storage None]
  note c = storage_faults_are_absorbed [of "''admin''" ?full "JNum 6" None "Promise (Inr (JNum 6))"
      "Inr (JNum 6)" class_storage None]
  from a l(1) have a1: "fst (getCachedData ''admin'' ?lost) = Inr JNull"
    and a3: "rows (snd (setCachedData ''admin'' (JNum 6) None ?lost)) = rows ?lost"
    and a4: "fst (getDataWithCache ''admin'' (Promise (Inr (JNum 6))) ?lost) =
      Inr \<lparr>data = JNum 6, fromCache = False\<rparr>"
    by blast+
  from a have a2: "fst (setCachedData ''admin'' (JNum 6) None ?lost) = Inr ()"
    by blast
  from b l(1) have b1: "fst (isCacheExpired ''university'' ?lost) = Inr True"
    by blast
  from c f(1,3) have c1: "fst (getDataWithCache ''admin'' (Promise (Inr (JNum 6))) ?full) =
      Inr \<lparr>data = JNum 6, fromCache = False\<rparr>"
    and c2: "rows (snd (getDataWithCache ''admin'' (Promise (Inr (JNum 6))) ?full)) = rows ?full"
    by blast+
  from a1 a2 a3 a4 b1 c1 c2 show ?thesis
    unfolding l(2) f(2) by blast
qed


section \<open>The client mirror on mount\<close>

lemma load_cached_parsed:
  assumes "localStorage c key = Some cached" and "localStorage c (key @ ''_timestamp'') = Some ts"
    and "cached \<noteq> []" and "ts \<noteq> []" and "JSON_parse js cached = Inr v"
  shows "load_cached js key gcTime now c =
     (let age = js_sub (Finite (of_int now)) (parseInt js ts);
          c1 = c\<lparr>cachedData := v, cacheAge := Some age, isFromCache := True\<rparr>
      in if js_gt age gcTime
         then Inr ((removeItem (key @ ''_timestamp'') (removeItem key c1))
                     \<lparr>cachedData := JNull, isFromCache := False\<rparr>)
         else Inr c1)"
  using assms by (simp add: load_cached_def Let_def)

lemma load_cached_unparseable:
  assumes "localStorage c key = Some cached" and "localStorage c (key @ ''_timestamp'') = Some ts"
    and "cached \<noteq> []" and "ts \<noteq> []" and "JSON_parse js cached = Inl e"
  shows "load_cached js key gcTime now c = Inl e"
  using assms by (simp add: load_cached_def Let_def)

lemma load_cached_no_entry:
  assumes "localStorage c key = None \<or> localStorage c key = Some [] \<or>
    localStorage c (key @ ''_timestamp'') = None \<or>
    localStorage c (key @ ''_timestamp'') = Some []"
  shows "load_cached js key gcTime now c = Inr c"
  using assms by (auto simp: load_cached_def Let_def split: option.splits)

text \<open>The difference of two whole doubles is exact while it stays within 53 bits.\<close>

lemma js_sub_whole:
  assumes "\<bar>a - b\<bar> \<le> 2 ^ 53"
  shows "js_sub (Finite (of_int a)) (Finite (of_int b)) = Finite (of_int (a - b))"
proof -
  have "js_sub (Finite (of_int a)) (Finite (of_int b)) = to_double (of_int (a - b))"
    by (simp add: js_sub_def)
  with to_double_int_exact [OF assms] show ?thesis by simp
qed

lemma js_sub_NaN: "js_sub x NaN = NaN"
  by (cases x) (simp_all add: js_sub_def)

lemma js_gt_NaN: "\<not> js_gt NaN y"
  by simp

text \<open>
  Claim C9, as the code has it.  The mount effect reads the payload and the timestamp of
  the key from the browser store; \<open>age\<close> below is \<^verbatim>\<open>Date.now() - parseInt(timestamp)\<close>, a
  subtraction of doubles.
  \<^item> If the payload or the timestamp is missing or is the empty string, the effect
    changes nothing: the hook's state and the store are what they were, whatever the
    other item holds.
  \<^item> Otherwise, if the payload parses and the age is not greater than the horizon
    \<open>gcTime\<close>, the hook reports \<open>isFromCache = True\<close> and that age, leaves the store
    alone, and shows the parsed payload as data when it is truthy; a falsy parsed payload
    is not shown, the live query's data stands in its place.
  \<^item> If the payload parses and the age is greater than the horizon, both items are
    removed from the store, \<open>isFromCache\<close> is false, the data shown is the live query's,
    and the age stays reported.
  \<^item> If the payload does not parse, both items are removed, a warning is printed, the
    hook's state is what it was, so the hook returns what it returns without an entry,
    and the error fields it returns are the live query's.
  \<^item> When the timestamp reads as a whole number \<open>n\<close> and \<open>now - n\<close> is at most
    \<open>2 ^ 53\<close> in magnitude, the age is exactly \<open>now - n\<close>, and against a finite horizon
    \<open>g\<close> the entry is too old exactly if \<open>g < now - n\<close>.  When the timestamp reads as
    \<^verbatim>\<open>NaN\<close>, the age is \<^verbatim>\<open>NaN\<close>, which is greater than no horizon.
\<close>

theorem mount_effect_mirror_entry:
  "(localStorage c key = None \<or> localStorage c key = Some [] \<or>
    localStorage c (key @ ''_timestamp'') = None \<or>
    localStorage c (key @ ''_timestamp'') = Some [] \<longrightarrow>
      mount_effect js key gcTime now c = c)
   \<and> (\<forall>cached ts.
        localStorage c key = Some cached \<and> localStorage c (key @ ''_timestamp'') = Some ts \<and>
        cached \<noteq> [] \<and> ts \<noteq> [] \<longrightarrow>
          (\<forall>v. JSON_parse js cached = Inr v \<and>
                \<not> js_gt (js_sub (Finite (of_int now)) (parseInt js ts)) gcTime \<longrightarrow>
              res_isFromCache (useCachedQuery_result (mount_effect js key gcTime now c) q) = True
            \<and> res_cacheAge (useCachedQuery_result (mount_effect js key gcTime now c) q) =
                Some (js_sub (Finite (of_int now)) (parseInt js ts))
            \<and> res_data (useCachedQuery_result (mount_effect js key gcTime now c) q) =
                (if truthy v then Some v else query_data q)
            \<and> localStorage (mount_effect js key gcTime now c) = localStorage c)
        \<and> (\<forall>v. JSON_parse js cached = Inr v \<and>
                js_gt (js_sub (Finite (of_int now)) (parseInt js ts)) gcTime \<longrightarrow>
              localStorage (mount_effect js key gcTime now c) =
                (localStorage c)(key := None, key @ ''_timestamp'' := None)
            \<and> res_isFromCache (useCachedQuery_result (mount_effect js key gcTime now c) q) = False
            \<and> res_data (useCachedQuery_result (mount_effect js key gcTime now c) q) =
                query_data q
            \<and> res_cacheAge (useCachedQuery_result (mount_effect js key gcTime now c) q) =
                Some (js_sub (Finite (of_int now)) (parseInt js ts)))
        \<and> (\<forall>e. JSON_parse js cached = Inl e \<longrightarrow>
              localStorage (mount_effect js key gcTime now c) =
                (localStorage c)(key := None, key @ ''_timestamp'' := None)
            \<and> warnings (mount_effect js key gcTime now c) =
                warnings c @ [(''Failed to load cached data:'', e)]
            \<and> cachedData (mount_effect js key gcTime now c) = cachedData c
            \<and> cacheAge (mount_effect js key gcTime now c) = cacheAge c
            \<and> isFromCache (mount_effect js key gcTime now c) = isFromCache c
            \<and> useCachedQuery_result (mount_effect js key gcTime now c) q =
                useCachedQuery_result c q
            \<and> res_isError (useCachedQuery_result (mount_effect js key gcTime now c) q) =
                query_isError q
            \<and> res_error (useCachedQuery_result (mount_effect js key gcTime now c) q) =
                query_error q)
        \<and> (\<forall>n. parseInt js ts = Finite (of_int n) \<and> \<bar>now - n\<bar> \<le> 2 ^ 53 \<longrightarrow>
              js_sub (Finite (of_int now)) (parseInt js ts) = Finite (of_int (now - n))
            \<and> (\<forall>g. gcTime = Finite g \<longrightarrow>
                  js_gt (js_sub (Finite (of_int now)) (parseInt js ts)) gcTime =
                    (g < of_int (now - n))))
        \<and> (parseInt js ts = NaN \<longrightarrow>
              js_sub (Finite (of_int now)) (parseInt js ts) = NaN
            \<and> \<not> js_gt (js_sub (Finite (of_int now)) (parseInt js ts)) gcTime))"
proof -
  let ?m = "mount_effect js key gcTime now c"
  have none: "?m = c"
    if "localStorage c key = None \<or> localStorage c key = Some [] \<or>
      localStorage c (key @ ''_timestamp'') = None \<or>
      localStorage c (key @ ''_timestamp'') = Some []"
    by (simp add: mount_effect_def load_cached_no_entry [OF that])
  have entry: "(\<forall>v. JSON_parse js cached = Inr v \<and>
                \<not> js_gt (js_sub (Finite (of_int now)) (parseInt js ts)) gcTime \<longrightarrow>
              res_isFromCache (useCachedQuery_result ?m q) = True
            \<and> res_cacheAge (useCachedQuery_result ?m q) =
                Some (js_sub (Finite (of_int now)) (parseInt js ts))
            \<and> res_data (useCachedQuery_result ?m q) =
                (if truthy v then Some v else query_data q)
            \<and> localStorage ?m = localStorage c)
        \<and> (\<forall>v. JSON_parse js cached = Inr v \<and>
                js_gt (js_sub (Finite (of_int now)) (parseInt js ts)) gcTime \<longrightarrow>
              localStorage ?m = (localStorage c)(key := None, key @ ''_timestamp'' := None)
            \<and> res_isFromCache (useCachedQuery_result ?m q) = False
            \<and> res_data (useCachedQuery_result ?m q) = query_data q
            \<and> res_cacheAge (useCachedQuery_result ?m q) =
                Some (js_sub (Finite (of_int now)) (parseInt js ts)))
        \<and> (\<forall>e. JSON_parse js cached = Inl e \<longrightarrow>
              localStorage ?m = (localStorage c)(key := None, key @ ''_timestamp'' := None)
            \<and> warnings ?m = warnings c @ [(''Failed to load cached data:'', e)]
            \<and> cachedData ?m = cachedData c
            \<and> cacheAge ?m = cacheAge c
            \<and> isFromCache ?m = isFromCache c
            \<and> useCachedQuery_result ?m q = useCachedQuery_result c q
            \<and> res_isError (useCachedQuery_result ?m q) = query_isError q
            \<and> res_error (useCachedQuery_result ?m q) = query_error q)
        \<and> (\<forall>n. parseInt js ts = Finite (of_int n) \<and> \<bar>now - n\<bar> \<le> 2 ^ 53 \<longrightarrow>
              js_sub (Finite (of_int now)) (parseInt js ts) = Finite (of_int (now - n))
            \<and> (\<forall>g. gcTime = Finite g \<longrightarrow>
                  js_gt (js_sub (Finite (of_int now)) (parseInt js ts)) gcTime =
                    (g < of_int (now - n))))
        \<and> (parseInt js ts = NaN \<longrightarrow>
              js_sub (Finite (of_int now)) (parseInt js ts) = NaN
            \<and> \<not> js_gt (js_sub (Finite (of_int now)) (parseInt js ts)) gcTime)"
    if h: "localStorage c key = Some cached" "localStorage c (key @ ''_timestamp'') = Some ts"
      "cached \<noteq> []" "ts \<noteq> []" for cached ts
  proof -
    let ?age = "js_sub (Finite (of_int now)) (parseInt js ts)"
    have young: "res_isFromCache (useCachedQuery_result ?m q) = True
            \<and> res_cacheAge (useCachedQuery_result ?m q) = Some ?age
            \<and> res_data (useCachedQuery_result ?m q) = (if truthy v then Some v else query_data q)
            \<and> localStorage ?m = localStorage c"
      if "JSON_parse js cached = Inr v" "\<not> js_gt ?age gcTime" for v
      using that(2)
      by (simp add: mount_effect_def load_cached_parsed [OF h that(1)] Let_def
          useCachedQuery_result_def)
    have old: "localStorage ?m = (localStorage c)(key := None, key @ ''_timestamp'' := None)
            \<and> res_isFromCache (useCachedQuery_result ?m q) = False
            \<and> res_data (useCachedQuery_result ?m q) = query_data q
            \<and> res_cacheAge (useCachedQuery_result ?m q) = Some ?age"
      if "JSON_parse js cached = Inr v" "js_gt ?age gcTime" for v
      using that(2)
      by (simp add: mount_effect_def load_cached_parsed [OF h that(1)] Let_def
          useCachedQuery_result_def removeItem_def)
    have corrupt: "localStorage ?m = (localStorage c)(key := None, key @ ''_timestamp'' := None)
            \<and> warnings ?m = warnings c @ [(''Failed to load cached data:'', e)]
            \<and> cachedData ?m = cachedData c
            \<and> cacheAge ?m = cacheAge c
            \<and> isFromCache ?m = isFromCache c
            \<and> useCachedQuery_result ?m q = useCachedQuery_result c q
            \<and> res_isError (useCachedQuery_result ?m q) = query_isError q
            \<and> res_error (useCachedQuery_result ?m q) = query_error q"
      if "JSON_parse js cached = Inl e" for e
      by (simp add: mount_effect_def load_cached_unparseable [OF h that] Let_def
          useCachedQuery_result_def removeItem_def)
    have exact: "?age = Finite (of_int (now - n))
            \<and> (\<forall>g. gcTime = Finite g \<longrightarrow> js_gt ?age gcTime = (g < of_int (now - n)))"
      if "parseInt js ts = Finite (of_int n)" "\<bar>now - n\<bar> \<le> 2 ^ 53" for n
    proof -
      have "?age = Finite (of_int (now - n))"
        unfolding that(1) by (rule js_sub_whole [OF that(2)])
      then show ?thesis by simp
    qed
    have nan: "?age = NaN \<and> \<not> js_gt ?age gcTime" if "parseInt js ts = NaN"
      by (simp add: that js_sub_NaN)
    from young old corrupt exact nan show ?thesis by blast
  qed
  from none entry show ?thesis by blast
qed

text \<open>
  An entry written at 1000 and read at 61000 and at 1000000 with a horizon of ten
  minutes; an entry whose payload is cut off, with and without its timestamp; an entry
  whose timestamp is not a number.
\<close>

theorem mount_effect_mirror_entry_witness:
  "res_data (useCachedQuery_result
      (mount_effect sample_builtins ''dashboard_admin'' (Finite 600000) 61000
         (first_render (mirror_store ''{\"count\":5}''))) loading_query) =
     Some (JObj [(''count'', JNum 5)])
   \<and> res_isFromCache (useCachedQuery_result
      (mount_effect sample_builtins ''dashboard_admin'' (Finite 600000) 61000
         (first_render (mirror_store ''{\"count\":5}''))) loading_query) = True
   \<and> res_cacheAge (useCachedQuery_result
      (mount_effect sample_builtins ''dashboard_admin'' (Finite 600000) 61000
         (first_render (mirror_store ''{\"count\":5}''))) loading_query) = Some (Finite 60000)
   \<and> localStorage (mount_effect sample_builtins ''dashboard_admin'' (Finite 600000) 1000000
         (first_render (mirror_store ''{\"count\":5}''))) ''dashboard_admin'' = None
   \<and> res_data (useCachedQuery_result
      (mount_effect sample_builtins ''dashboard_admin'' (Finite 600000) 1000000
         (first_render (mirror_store ''{\"count\":5}''))) loading_query) = None
   \<and> localStorage (mount_effect sample_builtins ''dashboard_admin'' (Finite 600000) 61000
         (first_render (mirror_store ''{\"count\":''))) ''dashboard_admin'' = None
   \<and> res_isError (useCachedQuery_result
      (mount_effect sample_builtins ''dashboard_admin'' (Finite 600000) 61000
         (first_render (mirror_store ''{\"count\":''))) loading_query) = False
   \<and> mount_effect sample_builtins ''dashboard_admin'' (Finite 600000) 61000
         (first_render ((mirror_store ''{\"count\":'')(''dashboard_admin_timestamp'' := None))) =
       first_render ((mirror_store ''{\"count\":'')(''dashboard_admin_timestamp'' := None))
   \<and> res_isFromCache (useCachedQuery_result
      (mount_effect sample_builtins ''dashboard_admin'' (Finite 600000) 1000000
         (first_render ((mirror_store ''{\"count\":5}'')(''dashboard_admin_timestamp'' \<mapsto> ''soon''))))
      loading_query) = True
   \<and> res_cacheAge (useCachedQuery_result
      (mount_effect sample_builtins ''dashboard_admin'' (Finite 600000) 1000000
         (first_render ((mirror_store ''{\"count\":5}'')(''dashboard_admin_timestamp'' \<mapsto> ''soon''))))
      loading_query) = Some NaN"
proof -
  let ?good = "first_render (mirror_store ''{\"count\":5}'')"
  let ?bad = "first_render (mirror_store ''{\"count\":'')"
  let ?bare = "first_render ((mirror_store ''{\"count\":'')(''dashboard_admin_timestamp'' := None))"
  let ?soon = "first_render
    ((mirror_store ''{\"count\":5}'')(''dashboard_admin_timestamp'' \<mapsto> ''soon''))"
  let ?g = "Finite 600000"
  have g: "localStorage ?good ''dashboard_admin'' = Some ''{\"count\":5}'' \<and>
    localStorage ?good (''dashboard_admin'' @ ''_timestamp'') = Some ''1000'' \<and>
    ''{\"count\":5}'' \<noteq> [] \<and> ''1000'' \<noteq> []"
    by (simp add: first_render_def mirror_store_def)
  have b: "localStorage ?bad ''dashboard_admin'' = Some ''{\"count\":'' \<and>
    localStorage ?bad (''dashboard_admin'' @ ''_timestamp'') = Some ''1000'' \<and>
    ''{\"count\":'' \<noteq> [] \<and> ''1000'' \<noteq> []"
    by (simp add: first_render_def mirror_store_def)
  have s: "localStorage ?soon ''dashboard_admin'' = Some ''{\"count\":5}'' \<and>
    localStorage ?soon (''dashboard_admin'' @ ''_timestamp'') = Some ''soon'' \<and>
    ''{\"count\":5}'' \<noteq> [] \<and> ''soon'' \<noteq> []"
    by (simp add: first_render_def mirror_store_def)
  have n: "localStorage ?bare ''dashboard_admin'' = None \<or>
    localStorage ?bare ''dashboard_admin'' = Some [] \<or>
    localStorage ?bare (''dashboard_admin'' @ ''_timestamp'') = None \<or>
    localStorage ?bare (''dashboard_admin'' @ ''_timestamp'') = Some []"
    by (simp add: first_render_def mirror_store_def)
  have js: "JSON_parse sample_builtins ''{\"count\":5}'' = Inr (JObj [(''count'', JNum 5)])"
    "JSON_parse sample_builtins ''{\"count\":'' = Inl (SyntaxError ''Unexpected end of JSON input'')"
    "parseInt sample_builtins ''1000'' = Finite (of_int 1000)"
    "parseInt sample_builtins ''soon'' = NaN"
    by (simp_all add: sample_builtins_def)
  have q: "query_data loading_query = None" "query_isError loading_query = False"
    by (simp_all add: loading_query_def)
  have r: "\<bar>61000 - 1000\<bar> \<le> (2::int) ^ 53" "\<bar>1000000 - 1000\<bar> \<le> (2::int) ^ 53"
    by simp_all
  note at61 = mount_effect_mirror_entry [where c = ?good and key = "''dashboard_admin''"
      and js = sample_builtins and gcTime = ?g and now = 61000 and q = loading_query,
      THEN conjunct2, THEN spec, THEN spec, THEN mp, OF g]
  note late = mount_effect_mirror_entry [where c = ?good and key = "''dashboard_admin''"
      and js = sample_builtins and gcTime = ?g and now = 1000000 and q = loading_query,
      THEN conjunct2, THEN spec, THEN spec, THEN mp, OF g]
  note cut = mount_effect_mirror_entry [where c = ?bad and key = "''dashboard_admin''"
      and js = sample_builtins and gcTime = ?g and now = 61000 and q = loading_query,
      THEN conjunct2, THEN spec, THEN spec, THEN mp, OF b]
  note undated = mount_effect_mirror_entry [where c = ?bare and key = "''dashboard_admin''"
      and js = sample_builtins and gcTime = ?g and now = 61000 and q = loading_query,
      THEN conjunct1, THEN mp, OF n]
  note unread = mount_effect_mirror_entry [where c = ?soon and key = "''dashboard_admin''"
      and js = sample_builtins and gcTime = ?g and now = 1000000 and q = loading_query,
      THEN conjunct2, THEN spec, THEN spec, THEN mp, OF s]
  note e61 = at61 [THEN conjunct2, THEN conjunct2, THEN conjunct2, THEN conjunct1,
      THEN spec, THEN mp, OF conjI [OF js(3) r(1)]]
  note elate = late [THEN conjunct2, THEN conjunct2, THEN conjunct2, THEN conjunct1,
      THEN spec, THEN mp, OF conjI [OF js(3) r(2)]]
  have a61: "js_sub (Finite (of_int 61000)) (parseInt sample_builtins ''1000'') = Finite 60000"
    using e61 [THEN conjunct1] by simp
  have alate: "js_sub (Finite (of_int 1000000)) (parseInt sample_builtins ''1000'') =
      Finite 999000"
    using elate [THEN conjunct1] by simp
  have h61: "\<not> js_gt (js_sub (Finite (of_int 61000)) (parseInt sample_builtins ''1000'')) ?g"
    unfolding a61 by simp
  have hlate: "js_gt (js_sub (Finite (of_int 1000000)) (parseInt sample_builtins ''1000'')) ?g"
    unfolding alate by simp
  note young = at61 [THEN conjunct1, THEN spec, THEN mp, OF conjI [OF js(1) h61]]
  note old = late [THEN conjunct2, THEN conjunct1, THEN spec, THEN mp, OF conjI [OF js(1) hlate]]
  note corrupt = cut [THEN conjunct2, THEN conjunct2, THEN conjunct1, THEN spec, THEN mp, OF js(2)]
  note nan = unread [THEN conjunct2, THEN conjunct2, THEN conjunct2, THEN conjunct2,
      THEN mp, OF js(4)]
  note never = unread [THEN conjunct1, THEN spec, THEN mp, OF conjI [OF js(1) nan [THEN conjunct2]]]
  have y: "res_isFromCache (useCachedQuery_result
        (mount_effect sample_builtins ''dashboard_admin'' ?g 61000 ?good) loading_query) = True"
    "res_cacheAge (useCachedQuery_result
        (mount_effect sample_builtins ''dashboard_admin'' ?g 61000 ?good) loading_query) =
      Some (Finite 60000)"
    "res_data (useCachedQuery_result
        (mount_effect sample_builtins ''dashboard_admin'' ?g 61000 ?good) loading_query) =
      Some (JObj [(''count'', JNum 5)])"
    using young [unfolded a61] by simp_all
  have o: "localStorage (mount_effect sample_builtins ''dashboard_admin'' ?g 1000000 ?good)
        ''dashboard_admin'' = None"
    "res_data (useCachedQuery_result
        (mount_effect sample_builtins ''dashboard_admin'' ?g 1000000 ?good) loading_query) = None"
    using old by (simp_all add: q)
  have c1: "localStorage (mount_effect sample_builtins ''dashboard_admin'' ?g 61000 ?bad)
        ''dashboard_admin'' = None"
    by (simp add: corrupt [THEN conjunct1])
  have c2: "res_isError (useCachedQuery_result
        (mount_effect sample_builtins ''dashboard_admin'' ?g 61000 ?bad) loading_query) = False"
    using corrupt [THEN conjunct2, THEN conjunct2, THEN conjunct2, THEN conjunct2,
        THEN conjunct2, THEN conjunct2, THEN conjunct1]
    by (simp only: q)
  have u: "res_isFromCache (useCachedQuery_result
        (mount_effect sample_builtins ''dashboard_admin'' ?g 1000000 ?soon) loading_query) = True"
    "res_cacheAge (useCachedQuery_result
        (mount_effect sample_builtins ''dashboard_admin'' ?g 1000000 ?soon) loading_query) =
      Some NaN"
    using never [unfolded nan [THEN conjunct1]] by simp_all
  from y o c1 c2 undated u show ?thesis by blast
qed

text \<open>
  The claim as written fails on an entry whose payload parses to a falsy value.  The
  store holds \<^verbatim>\<open>0\<close>, one minute old: the hook reports \<open>isFromCache = True\<close> and the
  age, but \<^verbatim>\<open>isFromCache && cachedData ? cachedData : query.data\<close> shows the live
  query's data, which is still undefined, and not the entry.
\<close>

theorem mount_effect_falsy_payload_counterexample:
  "localStorage (first_render (mirror_store ''0'')) ''dashboard_admin'' = Some ''0''
   \<and> localStorage (first_render (mirror_store ''0'')) ''dashboard_admin_timestamp'' = Some ''1000''
   \<and> res_isFromCache (useCachedQuery_result
        (mount_effect sample_builtins ''dashboard_admin'' (Finite 600000) 61000
           (first_render (mirror_store ''0''))) loading_query) = True
   \<and> res_cacheAge (useCachedQuery_result
        (mount_effect sample_builtins ''dashboard_admin'' (Finite 600000) 61000
           (first_render (mirror_store ''0''))) loading_query) = Some (Finite 60000)
   \<and> res_data (useCachedQuery_result
        (mount_effect sample_builtins ''dashboard_admin'' (Finite 600000) 61000
           (first_render (mirror_store ''0''))) loading_query) = None
   \<and> res_data (useCachedQuery_result
        (mount_effect sample_builtins ''dashboard_admin'' (Finite 600000) 61000
           (first_render (mirror_store ''0''))) loading_query) \<noteq> Some (JNum 0)"
proof -
  have "js_sub (Finite (of_int 61000)) (Finite (of_int 1000)) = Finite (of_int (61000 - 1000))"
    by (rule js_sub_whole) simp
  then have age: "js_sub (Finite 61000) (Finite 1000) = Finite 60000"
    by simp
  show ?thesis
    by (simp add: first_render_def mirror_store_def sample_builtins_def loading_query_def
        mount_effect_def load_cached_def useCachedQuery_result_def Let_def age)
qed

end
